(* ===== verification/Prelude.thy ===== *)
theory Prelude
  imports Main "HOL-Library.Word" "HOL-Library.Monad_Syntax"
begin

unbundle bit_operations_syntax

text \<open>
  What the components share: the names of the C integer types, arrays with their bounds
  written out, the \<^verbatim>\<open>DEBUGASSERT\<close> macro, and the generic lemmas on lists, options and
  words the component proofs use.

  A C function that can trip a \<^verbatim>\<open>DEBUGASSERT\<close> or touch an array outside its bounds is
  modelled in the \<^typ>\<open>'a option\<close> monad: \<open>None\<close> is the abort, \<open>Some\<close> the normal return.
  So \<open>f s \<noteq> None\<close> says that no assertion fails and no access leaves its array.
\<close>

type_synonym u8 = "8 word"
type_synonym u16 = "16 word"
type_synonym u32 = "32 word"
type_synonym u64 = "64 word"

named_theorems array_simps "reads and writes of arrays inside their bounds"

definition DEBUGASSERT :: "bool \<Rightarrow> unit option" where
  "DEBUGASSERT b = (if b then Some () else None)"

definition array_get :: "'a list \<Rightarrow> nat \<Rightarrow> 'a option" where
  "array_get xs i = (if i < length xs then Some (xs ! i) else None)"

definition array_put :: "'a list \<Rightarrow> nat \<Rightarrow> 'a \<Rightarrow> 'a list option" where
  "array_put xs i v = (if i < length xs then Some (xs[i := v]) else None)"

text \<open>A \<^verbatim>\<open>memcpy\<close> of \<open>ys\<close> to position \<open>i\<close> of the array \<open>xs\<close>.\<close>

definition array_blit :: "'a list \<Rightarrow> nat \<Rightarrow> 'a list \<Rightarrow> 'a list option" where
  "array_blit xs i ys =
     (if i + length ys \<le> length xs then Some (take i xs @ ys @ drop (i + length ys) xs) else None)"

text \<open>The \<open>n\<close> elements of the array \<open>xs\<close> from position \<open>i\<close>.\<close>

definition array_slice :: "'a list \<Rightarrow> nat \<Rightarrow> nat \<Rightarrow> 'a list option" where
  "array_slice xs i n = (if i + n \<le> length xs then Some (take n (drop i xs)) else None)"

text \<open>The big-endian 16-bit value of two bytes, as \<^verbatim>\<open>(uint16_t)(hi << 8) | lo\<close>.\<close>

definition be16 :: "u8 \<Rightarrow> u8 \<Rightarrow> u16" where
  "be16 hi lo = push_bit 8 (ucast hi) OR ucast lo"

definition hi8 :: "u16 \<Rightarrow> u8" where
  "hi8 w = ucast (drop_bit 8 w)"

definition lo8 :: "u16 \<Rightarrow> u8" where
  "lo8 w = ucast (w AND 0xFF)"

section \<open>Assertions and arrays\<close>

lemma DEBUGASSERT_simps [simp]:
  "DEBUGASSERT True = Some ()" "DEBUGASSERT False = None"
  by (simp_all add: DEBUGASSERT_def)

lemma DEBUGASSERT_eq_Some [simp]: "DEBUGASSERT b = Some u \<longleftrightarrow> b"
  by (simp add: DEBUGASSERT_def)

lemma DEBUGASSERT_eq_None [simp]: "DEBUGASSERT b = None \<longleftrightarrow> \<not> b"
  by (simp add: DEBUGASSERT_def)

lemma array_get_Some [array_simps]: "i < length xs \<Longrightarrow> array_get xs i = Some (xs ! i)"
  by (simp add: array_get_def)

lemma array_get_eq_Some: "array_get xs i = Some v \<longleftrightarrow> i < length xs \<and> v = xs ! i"
  by (auto simp: array_get_def)

lemma array_put_Some [array_simps]: "i < length xs \<Longrightarrow> array_put xs i v = Some (xs[i := v])"
  by (simp add: array_put_def)

lemma array_put_eq_Some: "array_put xs i v = Some ys \<longleftrightarrow> i < length xs \<and> ys = xs[i := v]"
  by (auto simp: array_put_def)

lemma array_blit_Some [array_simps]:
  "i + length ys \<le> length xs \<Longrightarrow>
   array_blit xs i ys = Some (take i xs @ ys @ drop (i + length ys) xs)"
  by (simp add: array_blit_def)

lemma array_blit_eq_Some:
  "array_blit xs i ys = Some zs \<longleftrightarrow>
   i + length ys \<le> length xs \<and> zs = take i xs @ ys @ drop (i + length ys) xs"
  by (auto simp: array_blit_def)

lemma array_blit_length: "array_blit xs i ys = Some zs \<Longrightarrow> length zs = length xs"
  by (auto simp: array_blit_eq_Some)

lemma array_slice_Some [array_simps]:
  "i + n \<le> length xs \<Longrightarrow> array_slice xs i n = Some (take n (drop i xs))"
  by (simp add: array_slice_def)

lemma array_slice_eq_Some:
  "array_slice xs i n = Some ys \<longleftrightarrow> i + n \<le> length xs \<and> ys = take n (drop i xs)"
  by (auto simp: array_slice_def)

lemma take_Suc_update: "n < length xs \<Longrightarrow> take (Suc n) (xs[n := v]) = take n xs @ [v]"
  by (simp add: take_Suc_conv_app_nth)

text \<open>Programs that do not abort.\<close>

lemma bind_Some_ne: "m \<noteq> None \<Longrightarrow> (m \<bind> (\<lambda>v. Some (h v))) \<noteq> None"
  by (cases m) auto

lemma if_ne: "(c \<Longrightarrow> x \<noteq> None) \<Longrightarrow> (\<not> c \<Longrightarrow> y \<noteq> None) \<Longrightarrow> (if c then x else y) \<noteq> None"
  by simp

section \<open>Words\<close>

lemma unat_u8_less [simp]: "unat (b :: u8) < 256"
  using unsigned_less [where ?'a = nat, of b] by simp

lemma unat_u16_less [simp]: "unat (w :: u16) < 65536"
  using unsigned_less [where ?'a = nat, of w] by simp

lemma unat_u16_add: "unat (a + b :: u16) = (unat a + unat b) mod 65536"
  by (simp add: unat_word_ariths)

lemma unat_u16_add_small:
  "unat a + unat b < 65536 \<Longrightarrow> unat (a + b :: u16) = unat a + unat b"
  by (simp add: unat_u16_add)

lemma unat_u16_Suc: "unat a < 65535 \<Longrightarrow> unat (a + 1 :: u16) = Suc (unat a)"
  by (simp add: unat_u16_add)

lemma unat_u16_of_nat: "n < 65536 \<Longrightarrow> unat (of_nat n :: u16) = n"
  by (simp add: unat_of_nat)

lemma unat_ucast_u32: "unat (ucast (w :: u16) :: u32) = unat w"
proof -
  have "unat w < 4294967296" using unat_u16_less [of w] by linarith
  then show ?thesis by (simp add: unsigned_ucast_eq take_bit_eq_mod)
qed

lemma bit_hi8 [simp]: "bit (hi8 w) n \<longleftrightarrow> n < 8 \<and> bit w (8 + n)"
  by (auto simp: hi8_def bit_simps)

lemma u16_and_FF: "(w :: u16) AND 0xFF = take_bit 8 w"
  by (simp add: take_bit_eq_mask mask_eq_exp_minus_1)

lemma bit_lo8 [simp]: "bit (lo8 w) n \<longleftrightarrow> n < 8 \<and> bit w n"
  by (auto simp: lo8_def u16_and_FF bit_simps)

lemma bit_be16: "bit (be16 h l) n \<longleftrightarrow> n < 16 \<and> (if n < 8 then bit l n else bit h (n - 8))"
  by (auto simp: be16_def bit_simps dest: bit_imp_le_length)

lemma be16_hi8_lo8 [simp]: "be16 (hi8 w) (lo8 w) = w"
  by (rule bit_word_eqI) (auto simp: bit_be16)

lemma hi8_be16 [simp]: "hi8 (be16 h l) = h"
  by (rule bit_word_eqI) (auto simp: bit_be16)

lemma lo8_be16 [simp]: "lo8 (be16 h l) = l"
  by (rule bit_word_eqI) (auto simp: bit_be16)

lemma be16_xor: "be16 h l = push_bit 8 (ucast h) XOR ucast l"
  by (rule bit_word_eqI) (auto simp: bit_be16 bit_simps dest: bit_imp_le_length)

lemma be16_inj [simp]: "be16 h l = be16 h' l' \<longleftrightarrow> h = h' \<and> l = l'"
  by (metis hi8_be16 lo8_be16)

lemma uint_be16: "uint (be16 h l) = uint h * 256 + uint l"
proof -
  have "uint h \<le> 255" "uint l \<le> 255"
    using uint_bounded [of h] uint_bounded [of l] by simp_all
  moreover have "be16 h l = push_bit 8 (ucast h) + ucast l"
    unfolding be16_def
    by (rule disjunctive_add [symmetric]) (auto simp: bit_simps dest: bit_imp_le_length)
  ultimately show ?thesis
    by (simp add: push_bit_eq_mult uint_word_ariths unsigned_ucast_eq take_bit_eq_mod)
qed

lemma word_xor_eq_0: "(a :: 'a::len word) XOR b = 0 \<longleftrightarrow> a = b"
  by (metis xor.assoc xor.left_neutral xor_self_eq xor.right_neutral)

lemma word_xor_right_cancel [simp]: "(a :: 'a::len word) XOR c = b XOR c \<longleftrightarrow> a = b"
  by (metis xor.assoc xor_self_eq xor.right_neutral)

lemma word_xor_left_cancel [simp]: "c XOR (a :: 'a::len word) = c XOR b \<longleftrightarrow> a = b"
  by (simp add: xor.commute [of c])

lemma sint_u32:
  fixes x :: u32
  assumes "unat x < 2 ^ 31"
  shows "sint x = int (unat x)"
proof -
  have "x < 2 ^ 31" using assms by (simp add: word_less_nat_alt)
  then have u: "uint x < 2 ^ 31" by (simp add: word_less_def)
  have "sint x = signed_take_bit 31 (uint x)" by (simp add: sint_uint)
  also have "\<dots> = uint x"
    using u uint_ge_0 [of x] by (intro signed_take_bit_int_eq_self) linarith+
  finally show ?thesis by simp
qed

end
