(* ===== verification/MbTypes.thy ===== *)
theory MbTypes
  imports Prelude
begin

text \<open>
  The types and constants of the Modbus stack: \<^verbatim>\<open>include/modbus/mb.h\<close>, \<^verbatim>\<open>mbproto.h\<close>,
  \<^verbatim>\<open>mbframe.h\<close> and \<^verbatim>\<open>mbport.h\<close>. Enumerations keep the constructors of the source.
\<close>

datatype eMBMode = MB_RTU | MB_ASCII | MB_TCP

datatype eMBRegisterMode = MB_REG_READ | MB_REG_WRITE

datatype eMBErrorCode =
    MB_ENOERR | MB_ENOREG | MB_EINVAL | MB_EPORTERR | MB_ENORES | MB_EIO | MB_EILLSTATE
  | MB_ETIMEDOUT

datatype eMBException =
    MB_EX_NONE | MB_EX_ILLEGAL_FUNCTION | MB_EX_ILLEGAL_DATA_ADDRESS | MB_EX_ILLEGAL_DATA_VALUE
  | MB_EX_SLAVE_DEVICE_FAILURE | MB_EX_ACKNOWLEDGE | MB_EX_SLAVE_BUSY | MB_EX_MEMORY_PARITY_ERROR
  | MB_EX_GATEWAY_PATH_FAILED | MB_EX_GATEWAY_TGT_FAILED

text \<open>The numeric values the enumeration \<^verbatim>\<open>eMBException\<close> assigns; they go on the wire.\<close>

fun exception_code :: "eMBException \<Rightarrow> u8" where
  "exception_code MB_EX_NONE = 0x00"
| "exception_code MB_EX_ILLEGAL_FUNCTION = 0x01"
| "exception_code MB_EX_ILLEGAL_DATA_ADDRESS = 0x02"
| "exception_code MB_EX_ILLEGAL_DATA_VALUE = 0x03"
| "exception_code MB_EX_SLAVE_DEVICE_FAILURE = 0x04"
| "exception_code MB_EX_ACKNOWLEDGE = 0x05"
| "exception_code MB_EX_SLAVE_BUSY = 0x06"
| "exception_code MB_EX_MEMORY_PARITY_ERROR = 0x08"
| "exception_code MB_EX_GATEWAY_PATH_FAILED = 0x0a"
| "exception_code MB_EX_GATEWAY_TGT_FAILED = 0x0b"

datatype eMBEventType = EV_READY | EV_FRAME_RECEIVED | EV_EXECUTE | EV_FRAME_SENT

datatype eMBParity = MB_PAR_NONE | MB_PAR_ODD | MB_PAR_EVEN

abbreviation (input) MB_ADDRESS_BROADCAST :: u8 where "MB_ADDRESS_BROADCAST \<equiv> 0"
abbreviation (input) MB_ADDRESS_MIN :: u8 where "MB_ADDRESS_MIN \<equiv> 1"
abbreviation (input) MB_ADDRESS_MAX :: u8 where "MB_ADDRESS_MAX \<equiv> 247"
abbreviation (input) MB_TCP_PSEUDO_ADDRESS :: u8 where "MB_TCP_PSEUDO_ADDRESS \<equiv> 255"

abbreviation (input) MB_FUNC_NONE :: u8 where "MB_FUNC_NONE \<equiv> 0"
abbreviation (input) MB_FUNC_READ_COILS :: u8 where "MB_FUNC_READ_COILS \<equiv> 1"
abbreviation (input) MB_FUNC_READ_DISCRETE_INPUTS :: u8 where "MB_FUNC_READ_DISCRETE_INPUTS \<equiv> 2"
abbreviation (input) MB_FUNC_READ_HOLDING_REGISTER :: u8 where "MB_FUNC_READ_HOLDING_REGISTER \<equiv> 3"
abbreviation (input) MB_FUNC_READ_INPUT_REGISTER :: u8 where "MB_FUNC_READ_INPUT_REGISTER \<equiv> 4"
abbreviation (input) MB_FUNC_WRITE_SINGLE_COIL :: u8 where "MB_FUNC_WRITE_SINGLE_COIL \<equiv> 5"
abbreviation (input) MB_FUNC_WRITE_REGISTER :: u8 where "MB_FUNC_WRITE_REGISTER \<equiv> 6"
abbreviation (input) MB_FUNC_WRITE_MULTIPLE_COILS :: u8 where "MB_FUNC_WRITE_MULTIPLE_COILS \<equiv> 15"
abbreviation (input) MB_FUNC_WRITE_MULTIPLE_REGISTERS :: u8 where "MB_FUNC_WRITE_MULTIPLE_REGISTERS \<equiv> 16"
abbreviation (input) MB_FUNC_OTHER_REPORT_SLAVEID :: u8 where "MB_FUNC_OTHER_REPORT_SLAVEID \<equiv> 17"
abbreviation (input) MB_FUNC_READWRITE_MULTIPLE_REGISTERS :: u8 where "MB_FUNC_READWRITE_MULTIPLE_REGISTERS \<equiv> 23"
abbreviation (input) MB_FUNC_ERROR :: u8 where "MB_FUNC_ERROR \<equiv> 128"

abbreviation (input) MB_PDU_SIZE_MAX :: nat where "MB_PDU_SIZE_MAX \<equiv> 253"
abbreviation (input) MB_PDU_SIZE_MIN :: u16 where "MB_PDU_SIZE_MIN \<equiv> 1"
abbreviation (input) MB_PDU_FUNC_OFF :: nat where "MB_PDU_FUNC_OFF \<equiv> 0"
abbreviation (input) MB_PDU_DATA_OFF :: nat where "MB_PDU_DATA_OFF \<equiv> 1"

end
