(* ===== verification/MbPort.thy ===== *)
theory MbPort
  imports MbTypes
begin

text \<open>
  The porting layer of the Modbus slave: \<^verbatim>\<open>modbus/nuttx/portserial.c\<close>, \<^verbatim>\<open>portevent.c\<close> and
  \<^verbatim>\<open>porttimer.c\<close>. The record \<open>mb_port\<close> holds their static variables and, in the fields
  named \<open>os_\<close>, the operating system they call: \<open>os_line\<close> is what successive
  \<^verbatim>\<open>select\<close>/\<^verbatim>\<open>read\<close> calls on the serial device give (an exhausted script is a quiet line:
  \<^verbatim>\<open>select\<close> times out), \<open>os_write\<close> what successive \<^verbatim>\<open>write\<close> calls return (exhausted: everything is
  accepted), \<open>os_sent\<close> the bytes written to the line, \<open>os_clock\<close> the results of the
  successive \<^verbatim>\<open>gettimeofday\<close> calls, counted by \<open>os_ticks\<close>, and \<open>os_tio\<close> the settings of the
  device. The transmission layers extend the record with their own variables.

  The callbacks \<^verbatim>\<open>pxMBFrameCBByteReceived\<close>, \<^verbatim>\<open>pxMBFrameCBTransmitterEmpty\<close> and
  \<^verbatim>\<open>pxMBPortCBTimerExpired\<close> are function pointers in the source and arguments here. The two
  \<^verbatim>\<open>while\<close> loops of \<^verbatim>\<open>xMBPortSerialPoll\<close> need not end for an arbitrary callback, so they are
  partial functions; the locale \<open>mb_line\<close> states what the poll relies on, and the poll is
  shown to return under it.
\<close>

abbreviation (input) BUF_SIZE :: nat where "BUF_SIZE \<equiv> 513"

datatype line_event =
    LineBytes "u8 list"  \<comment> \<open>\<^verbatim>\<open>select\<close> reports data and \<^verbatim>\<open>read\<close> delivers it\<close>
  | LineTimeout          \<comment> \<open>\<^verbatim>\<open>select\<close> returns with the descriptor not set\<close>
  | LineEintr            \<comment> \<open>\<^verbatim>\<open>select\<close> is interrupted\<close>
  | LineSelErr           \<comment> \<open>\<^verbatim>\<open>select\<close> fails otherwise\<close>
  | LineReadErr          \<comment> \<open>\<^verbatim>\<open>read\<close> fails\<close>

datatype write_result = WriteOk nat | WriteEintr | WriteErr

datatype tio_flag = IGNBRK | INPCK | CREAD | CLOCAL | PARENB | PARODD | CS8 | CS7

type_synonym termios = "tio_flag list \<times> u32"

record timeval =
  tv_sec :: int
  tv_usec :: int

record mb_port =
  iSerialFd :: int
  bRxEnabled :: bool
  bTxEnabled :: bool
  ulTimeoutMs :: u32
  ucBuffer :: "u8 list"
  uiRxBufferPos :: nat
  uiTxBufferPos :: nat
  xOldTIO :: termios
  eQueuedEvent :: eMBEventType
  xEventInQueue :: bool
  ulTimeOut :: u32
  bTimeoutEnable :: bool
  xTimeLast :: timeval
  os_line :: "line_event list"
  os_write :: "write_result list"
  os_sent :: "u8 list"
  os_clock :: "nat \<Rightarrow> timeval option"
  os_ticks :: nat
  os_tio :: termios

text \<open>The results of the system calls \<^verbatim>\<open>xMBPortSerialInit\<close> makes on the device.\<close>

record serial_dev =
  dev_open :: "u8 \<Rightarrow> int"
  dev_tcgetattr :: bool
  dev_cfsetispeed :: bool
  dev_tcsetattr :: bool

section \<open>portserial.c\<close>

text \<open>
  The \<^verbatim>\<open>do\<close> loop of \<^verbatim>\<open>prvbMBPortSerialRead\<close> over the script of the line: its result
  (\<open>False\<close> for an error), the bytes read, at most \<open>n\<close>, and the rest of the script.
\<close>

fun serial_read :: "nat \<Rightarrow> line_event list \<Rightarrow> bool \<times> u8 list \<times> line_event list" where
  "serial_read n [] = (True, [], [])"
| "serial_read n (LineEintr # evs) = serial_read n evs"
| "serial_read n (LineSelErr # evs) = (False, [], evs)"
| "serial_read n (LineReadErr # evs) = (False, [], evs)"
| "serial_read n (LineTimeout # evs) = (True, [], evs)"
| "serial_read n (LineBytes bs # evs) =
     (True, take n bs, if n < length bs then LineBytes (drop n bs) # evs else evs)"

definition prvbMBPortSerialRead :: "nat \<Rightarrow> 'a mb_port_scheme \<Rightarrow> bool \<times> nat \<times> 'a mb_port_scheme" where
  "prvbMBPortSerialRead usNBytes s =
     (let (bResult, bs, evs) = serial_read usNBytes (os_line s)
      in (bResult, length bs, s\<lparr>ucBuffer := bs @ drop (length bs) (ucBuffer s), os_line := evs\<rparr>))"

text \<open>
  The loop of \<^verbatim>\<open>prvbMBPortSerialWrite\<close>: what is left unwritten, the rest of the script, and
  what was written.
\<close>

fun serial_write :: "write_result list \<Rightarrow> u8 list \<Rightarrow> u8 list \<times> write_result list \<times> u8 list" where
  "serial_write ws [] = ([], ws, [])"
| "serial_write [] bs = ([], [], bs)"
| "serial_write (WriteEintr # ws) bs = serial_write ws bs"
| "serial_write (WriteErr # ws) bs = (bs, ws, [])"
| "serial_write (WriteOk n # ws) bs =
     (let (left, ws', sent) = serial_write ws (drop n bs) in (left, ws', take n bs @ sent))"

definition prvbMBPortSerialWrite :: "nat \<Rightarrow> 'a mb_port_scheme \<Rightarrow> bool \<times> 'a mb_port_scheme" where
  "prvbMBPortSerialWrite usNBytes s =
     (let (left, ws, sent) = serial_write (os_write s) (take usNBytes (ucBuffer s))
      in (left = [], s\<lparr>os_write := ws, os_sent := os_sent s @ sent\<rparr>))"

definition vMBPortSerialEnable :: "bool \<Rightarrow> bool \<Rightarrow> 'a mb_port_scheme \<Rightarrow> 'a mb_port_scheme option" where
  "vMBPortSerialEnable bEnableRx bEnableTx s = do {
     DEBUGASSERT (\<not> bEnableRx \<or> \<not> bEnableTx);
     let s = (if bEnableRx then s\<lparr>uiRxBufferPos := 0, bRxEnabled := True\<rparr> else s\<lparr>bRxEnabled := False\<rparr>);
     Some (if bEnableTx then s\<lparr>bTxEnabled := True, uiTxBufferPos := 0\<rparr> else s\<lparr>bTxEnabled := False\<rparr>)
   }"

text \<open>
  \<^verbatim>\<open>xMBPortSerialInit\<close>. The source leaves \<^verbatim>\<open>bStatus\<close> true on the three paths where the device
  settings cannot be read or written; only a failing \<^verbatim>\<open>open\<close>, parity or word length
  clears it.
\<close>

fun parity_flags :: "eMBParity \<Rightarrow> tio_flag list" where
  "parity_flags MB_PAR_NONE = []"
| "parity_flags MB_PAR_EVEN = [PARENB]"
| "parity_flags MB_PAR_ODD = [PARENB, PARODD]"

definition xMBPortSerialInit ::
    "serial_dev \<Rightarrow> u8 \<Rightarrow> u32 \<Rightarrow> u8 \<Rightarrow> eMBParity \<Rightarrow> 'a mb_port_scheme \<Rightarrow> (bool \<times> 'a mb_port_scheme) option" where
  "xMBPortSerialInit dev ucPort ulBaudRate ucDataBits eParity s =
     (let s = s\<lparr>iSerialFd := dev_open dev ucPort\<rparr> in
      if iSerialFd s < 0 then Some (False, s)
      else if \<not> dev_tcgetattr dev then Some (True, s)
      else
        let s = s\<lparr>xOldTIO := os_tio s\<rparr>;
            flags = [IGNBRK, INPCK, CREAD, CLOCAL] @ parity_flags eParity;
            (bStatus, flags) =
              (if ucDataBits = 8 then (True, flags @ [CS8])
               else if ucDataBits = 7 then (True, flags @ [CS7])
               else (False, flags))
        in if \<not> bStatus then Some (False, s)
           else if \<not> dev_cfsetispeed dev then Some (True, s)
           else if \<not> dev_tcsetattr dev then Some (True, s)
           else do {
             s' \<leftarrow> vMBPortSerialEnable False False (s\<lparr>os_tio := (flags, ulBaudRate)\<rparr>);
             Some (True, s')
           })"

definition xMBPortSerialSetTimeout :: "u32 \<Rightarrow> 'a mb_port_scheme \<Rightarrow> bool \<times> 'a mb_port_scheme" where
  "xMBPortSerialSetTimeout ulNewTimeoutMs s =
     (True, s\<lparr>ulTimeoutMs := (if 0 < ulNewTimeoutMs then ulNewTimeoutMs else 1)\<rparr>)"

definition vMBPortClose :: "'a mb_port_scheme \<Rightarrow> 'a mb_port_scheme" where
  "vMBPortClose s = (if iSerialFd s \<noteq> -1 then s\<lparr>os_tio := xOldTIO s, iSerialFd := -1\<rparr> else s)"

definition xMBPortSerialPutByte :: "u8 \<Rightarrow> 'a mb_port_scheme \<Rightarrow> 'a mb_port_scheme option" where
  "xMBPortSerialPutByte ucByte s = do {
     DEBUGASSERT (uiTxBufferPos s < BUF_SIZE);
     buf \<leftarrow> array_put (ucBuffer s) (uiTxBufferPos s) ucByte;
     Some (s\<lparr>ucBuffer := buf, uiTxBufferPos := uiTxBufferPos s + 1\<rparr>)
   }"

definition xMBPortSerialGetByte :: "'a mb_port_scheme \<Rightarrow> (u8 \<times> 'a mb_port_scheme) option" where
  "xMBPortSerialGetByte s = do {
     DEBUGASSERT (uiRxBufferPos s < BUF_SIZE);
     ucByte \<leftarrow> array_get (ucBuffer s) (uiRxBufferPos s);
     Some (ucByte, s\<lparr>uiRxBufferPos := uiRxBufferPos s + 1\<rparr>)
   }"

text \<open>The \<^verbatim>\<open>for\<close> loop that hands \<open>n\<close> bytes to the receiver.\<close>

fun serial_deliver :: "('s \<Rightarrow> (bool \<times> 's) option) \<Rightarrow> nat \<Rightarrow> 's \<Rightarrow> 's option" where
  "serial_deliver pxByteReceived 0 s = Some s"
| "serial_deliver pxByteReceived (Suc n) s = do {
     (_, s') \<leftarrow> pxByteReceived s;
     serial_deliver pxByteReceived n s'
   }"

partial_function (option) serial_rx_loop ::
    "('a mb_port_scheme \<Rightarrow> (bool \<times> 'a mb_port_scheme) option) \<Rightarrow> bool \<Rightarrow> 'a mb_port_scheme
     \<Rightarrow> (bool \<times> 'a mb_port_scheme) option" where
  "serial_rx_loop pxByteReceived bStatus s =
     (if bRxEnabled s then
        (case prvbMBPortSerialRead BUF_SIZE s of (ok, usBytesRead, s1) \<Rightarrow>
           if ok then
             (if usBytesRead = 0 then Some (bStatus, s1)
              else do {
                s2 \<leftarrow> serial_deliver pxByteReceived usBytesRead s1;
                serial_rx_loop pxByteReceived bStatus (s2\<lparr>uiRxBufferPos := 0\<rparr>)
              })
           else serial_rx_loop pxByteReceived False s1)
      else Some (bStatus, s))"

partial_function (option) serial_tx_loop ::
    "('a mb_port_scheme \<Rightarrow> (bool \<times> 'a mb_port_scheme) option) \<Rightarrow> 'a mb_port_scheme
     \<Rightarrow> 'a mb_port_scheme option" where
  "serial_tx_loop pxTransmitterEmpty s =
     (if bTxEnabled s then do {
        (_, s') \<leftarrow> pxTransmitterEmpty s;
        serial_tx_loop pxTransmitterEmpty s'
      } else Some s)"

definition xMBPortSerialPoll ::
    "('a mb_port_scheme \<Rightarrow> (bool \<times> 'a mb_port_scheme) option)
     \<Rightarrow> ('a mb_port_scheme \<Rightarrow> (bool \<times> 'a mb_port_scheme) option)
     \<Rightarrow> 'a mb_port_scheme \<Rightarrow> (bool \<times> 'a mb_port_scheme) option" where
  "xMBPortSerialPoll pxByteReceived pxTransmitterEmpty s = do {
     (bStatus, s) \<leftarrow> serial_rx_loop pxByteReceived True s;
     if bTxEnabled s then do {
       s \<leftarrow> serial_tx_loop pxTransmitterEmpty s;
       let (ok, s) = prvbMBPortSerialWrite (uiTxBufferPos s) s;
       Some (bStatus \<and> ok, s)
     } else Some (bStatus, s)
   }"

section \<open>porttimer.c\<close>

definition xMBPortTimersInit :: "u16 \<Rightarrow> 'a mb_port_scheme \<Rightarrow> bool \<times> 'a mb_port_scheme" where
  "xMBPortTimersInit usTim1Timerout50us s =
     (let t = ucast (usTim1Timerout50us div 20);
          s = s\<lparr>ulTimeOut := (if t = 0 then 1 else t)\<rparr>
      in xMBPortSerialSetTimeout (ulTimeOut s) s)"

text \<open>
  The time difference as the source computes it, in \<^verbatim>\<open>long\<close> arithmetic truncated to 32 bits:
  the seconds and the microseconds are both multiplied by 1000.
\<close>

definition timer_delta :: "timeval \<Rightarrow> timeval \<Rightarrow> u32" where
  "timer_delta cur prev =
     word_of_int ((tv_sec cur - tv_sec prev) * 1000 + (tv_usec cur - tv_usec prev) * 1000)"

definition vMBPortTimerPoll ::
    "('a mb_port_scheme \<Rightarrow> (bool \<times> 'a mb_port_scheme) option) \<Rightarrow> 'a mb_port_scheme
     \<Rightarrow> 'a mb_port_scheme option" where
  "vMBPortTimerPoll pxTimerExpired s =
     (if bTimeoutEnable s then
        (case os_clock s (os_ticks s) of
           None \<Rightarrow> Some (s\<lparr>os_ticks := os_ticks s + 1\<rparr>)
         | Some xTimeCur \<Rightarrow>
             let s = s\<lparr>os_ticks := os_ticks s + 1\<rparr> in
             if ulTimeOut s < timer_delta xTimeCur (xTimeLast s)
             then map_option snd (pxTimerExpired (s\<lparr>bTimeoutEnable := False\<rparr>))
             else Some s)
      else Some s)"

definition vMBPortTimersEnable :: "'a mb_port_scheme \<Rightarrow> 'a mb_port_scheme option" where
  "vMBPortTimersEnable s =
     (case os_clock s (os_ticks s) of
        None \<Rightarrow> None
      | Some t \<Rightarrow> Some (s\<lparr>xTimeLast := t, bTimeoutEnable := True, os_ticks := os_ticks s + 1\<rparr>))"

definition vMBPortTimersDisable :: "'a mb_port_scheme \<Rightarrow> 'a mb_port_scheme" where
  "vMBPortTimersDisable s = s\<lparr>bTimeoutEnable := False\<rparr>"

section \<open>portevent.c\<close>

definition xMBPortEventInit :: "'a mb_port_scheme \<Rightarrow> bool \<times> 'a mb_port_scheme" where
  "xMBPortEventInit s = (True, s\<lparr>xEventInQueue := False\<rparr>)"

definition xMBPortEventPost :: "eMBEventType \<Rightarrow> 'a mb_port_scheme \<Rightarrow> bool \<times> 'a mb_port_scheme" where
  "xMBPortEventPost eEvent s = (True, s\<lparr>xEventInQueue := True, eQueuedEvent := eEvent\<rparr>)"

definition xMBPortEventGet ::
    "('a mb_port_scheme \<Rightarrow> (bool \<times> 'a mb_port_scheme) option)
     \<Rightarrow> ('a mb_port_scheme \<Rightarrow> (bool \<times> 'a mb_port_scheme) option)
     \<Rightarrow> ('a mb_port_scheme \<Rightarrow> (bool \<times> 'a mb_port_scheme) option)
     \<Rightarrow> 'a mb_port_scheme \<Rightarrow> (eMBEventType option \<times> 'a mb_port_scheme) option" where
  "xMBPortEventGet pxByteReceived pxTransmitterEmpty pxTimerExpired s =
     (if xEventInQueue s then Some (Some (eQueuedEvent s), s\<lparr>xEventInQueue := False\<rparr>)
      else do {
        (_, s) \<leftarrow> xMBPortSerialPoll pxByteReceived pxTransmitterEmpty s;
        s \<leftarrow> vMBPortTimerPoll pxTimerExpired s;
        Some (None, s)
      })"

section \<open>The loops, one step at a time\<close>

lemma serial_tx_loop_stop: "\<not> bTxEnabled s \<Longrightarrow> serial_tx_loop tx s = Some s"
  by (subst serial_tx_loop.simps) simp

lemma serial_tx_loop_step:
  "bTxEnabled s \<Longrightarrow> tx s = Some (b, s') \<Longrightarrow> serial_tx_loop tx s = serial_tx_loop tx s'"
  by (subst serial_tx_loop.simps) simp

lemma serial_rx_loop_stop: "\<not> bRxEnabled s \<Longrightarrow> serial_rx_loop rx st s = Some (st, s)"
  by (subst serial_rx_loop.simps) simp

lemma serial_write_accept [simp]: "serial_write [] bs = ([], [], bs)"
  by (cases bs) simp_all

text \<open>One burst of bytes that the receiver takes in whole, then silence.\<close>

lemma serial_poll_burst:
  assumes "bRxEnabled s" "os_line s = [LineBytes bs]" "bs \<noteq> []" "length bs \<le> BUF_SIZE"
    and d: "serial_deliver rx (length bs)
      (s\<lparr>ucBuffer := bs @ drop (length bs) (ucBuffer s), os_line := []\<rparr>) = Some s'"
    and s': "bRxEnabled s'" "\<not> bTxEnabled s'" "os_line s' = []"
  shows "xMBPortSerialPoll rx tx s = Some (True, s'\<lparr>uiRxBufferPos := 0\<rparr>)"
proof -
  let ?t = "s'\<lparr>uiRxBufferPos := 0\<rparr>"
  have quiet: "?t\<lparr>ucBuffer := ucBuffer ?t, os_line := []\<rparr> = ?t"
    using s'(3) by (cases s') simp
  have "serial_rx_loop rx True s = serial_rx_loop rx True ?t"
    using assms by (subst serial_rx_loop.simps) (simp add: prvbMBPortSerialRead_def)
  also have "\<dots> = Some (True, ?t\<lparr>ucBuffer := ucBuffer ?t, os_line := []\<rparr>)"
    using s' by (subst serial_rx_loop.simps) (simp add: prvbMBPortSerialRead_def)
  finally show ?thesis
    using s' unfolding quiet by (simp add: xMBPortSerialPoll_def)
qed

text \<open>Once the device is open, \<^verbatim>\<open>xMBPortSerialInit\<close> reports success for both word lengths.\<close>

lemma serial_init_open:
  assumes "0 \<le> dev_open dev p"
  shows "\<exists>s'. xMBPortSerialInit dev p baud 7 par s = Some (True, s')"
    "\<exists>s'. xMBPortSerialInit dev p baud 8 par s = Some (True, s')"
  using assms by (auto simp: xMBPortSerialInit_def vMBPortSerialEnable_def Let_def)

section \<open>What the poll relies on\<close>

text \<open>
  The porting layer is sound when its buffer has its declared size and the clock can be
  read; between two polls an enabled receiver starts at the front of the buffer.
\<close>

definition port_ok :: "'a mb_port_scheme \<Rightarrow> bool" where
  "port_ok s \<longleftrightarrow> length (ucBuffer s) = BUF_SIZE \<and> (\<forall>n. os_clock s n \<noteq> None)"

definition rx_ready :: "'a mb_port_scheme \<Rightarrow> bool" where
  "rx_ready s \<longleftrightarrow> (bRxEnabled s \<longrightarrow> uiRxBufferPos s = 0)"

fun event_size :: "line_event \<Rightarrow> nat" where
  "event_size (LineBytes bs) = Suc (length bs)"
| "event_size _ = 1"

definition line_size :: "line_event list \<Rightarrow> nat" where
  "line_size evs = sum_list (map event_size evs)"

lemma serial_read_size:
  "serial_read n evs = (ok, bs, evs') \<Longrightarrow> 0 < n \<Longrightarrow> \<not> ok \<or> bs \<noteq> [] \<Longrightarrow> line_size evs' < line_size evs"
  by (induction n evs rule: serial_read.induct) (auto simp: line_size_def split: if_splits)

lemma serial_read_length: "serial_read n evs = (ok, bs, evs') \<Longrightarrow> length bs \<le> n"
  by (induction n evs rule: serial_read.induct) (auto split: if_splits)

lemma SerialRead_cases:
  assumes "prvbMBPortSerialRead BUF_SIZE s = (ok, n, s1)" and "length (ucBuffer s) = BUF_SIZE"
  obtains buf evs where "s1 = s\<lparr>ucBuffer := buf, os_line := evs\<rparr>" "length buf = BUF_SIZE" "n \<le> BUF_SIZE"
    "\<not> ok \<or> n \<noteq> 0 \<Longrightarrow> line_size evs < line_size (os_line s)"
proof -
  obtain bs evs where r: "serial_read BUF_SIZE (os_line s) = (ok, bs, evs)"
    and n: "n = length bs"
    and s1: "s1 = s\<lparr>ucBuffer := bs @ drop (length bs) (ucBuffer s), os_line := evs\<rparr>"
    using assms(1) by (auto simp: prvbMBPortSerialRead_def split: prod.splits)
  show thesis
    using that [OF s1] serial_read_length [OF r] serial_read_size [OF r] assms(2) n by auto
qed

text \<open>
  The interface between the porting layer and a transmission layer. The transmission
  layer provides the receive and transmit callbacks and an invariant they keep; it
  promises that a byte handed to an enabled receiver is consumed without an abort, and
  that an enabled transmitter makes progress without one.
\<close>

locale mb_line =
  fixes inv :: "'a mb_port_scheme \<Rightarrow> bool"
    and rx :: "'a mb_port_scheme \<Rightarrow> (bool \<times> 'a mb_port_scheme) option"
    and tx :: "'a mb_port_scheme \<Rightarrow> (bool \<times> 'a mb_port_scheme) option"
    and tx_left :: "'a mb_port_scheme \<Rightarrow> nat"
  assumes inv_port: "inv s \<Longrightarrow> port_ok s"
    and inv_buffer: "inv s \<Longrightarrow> length b = BUF_SIZE \<Longrightarrow> inv (s\<lparr>ucBuffer := b, os_line := l\<rparr>)"
    and inv_rxpos: "inv s \<Longrightarrow> inv (s\<lparr>uiRxBufferPos := p\<rparr>)"
    and inv_sent: "inv s \<Longrightarrow> inv (s\<lparr>os_write := w, os_sent := out\<rparr>)"
    and rx_step: "inv s \<Longrightarrow> bRxEnabled s \<Longrightarrow> uiRxBufferPos s < BUF_SIZE \<Longrightarrow>
      \<exists>b s'. rx s = Some (b, s') \<and> inv s' \<and> bRxEnabled s' \<and> os_line s' = os_line s \<and>
             uiRxBufferPos s' = Suc (uiRxBufferPos s)"
    and tx_step: "inv s \<Longrightarrow> bTxEnabled s \<Longrightarrow>
      \<exists>b s'. tx s = Some (b, s') \<and> inv s' \<and> rx_ready s' \<and> (bTxEnabled s' \<longrightarrow> tx_left s' < tx_left s)"
begin

lemma deliver_total:
  "inv s \<Longrightarrow> bRxEnabled s \<Longrightarrow> uiRxBufferPos s + n \<le> BUF_SIZE \<Longrightarrow>
   \<exists>s'. serial_deliver rx n s = Some s' \<and> inv s' \<and> bRxEnabled s' \<and> os_line s' = os_line s"
proof (induction n arbitrary: s)
  case (Suc n)
  then obtain b s' where "rx s = Some (b, s')" "inv s'" "bRxEnabled s'" "os_line s' = os_line s"
    "uiRxBufferPos s' = Suc (uiRxBufferPos s)"
    using rx_step [of s] by auto
  with Suc.prems Suc.IH [of s'] show ?case by simp
qed simp

lemma rx_loop_total:
  "inv s \<Longrightarrow> rx_ready s \<Longrightarrow>
   \<exists>b s'. serial_rx_loop rx st s = Some (b, s') \<and> inv s' \<and> rx_ready s'"
proof (induction "line_size (os_line s)" arbitrary: s st rule: less_induct)
  case less
  obtain ok n s1 where rd: "prvbMBPortSerialRead BUF_SIZE s = (ok, n, s1)"
    by (cases "prvbMBPortSerialRead BUF_SIZE s")
  from rd obtain buf evs where s1: "s1 = s\<lparr>ucBuffer := buf, os_line := evs\<rparr>" "length buf = BUF_SIZE"
    "n \<le> BUF_SIZE" and dec: "\<not> ok \<or> n \<noteq> 0 \<Longrightarrow> line_size evs < line_size (os_line s)"
    using inv_port [OF less.prems(1)] by (elim SerialRead_cases) (auto simp: port_ok_def)
  have inv1: "inv s1" using less.prems(1) s1 by (simp add: inv_buffer)
  consider "\<not> bRxEnabled s" | "bRxEnabled s" "\<not> ok" | "bRxEnabled s" "ok" "n = 0"
    | "bRxEnabled s" "ok" "n \<noteq> 0" by blast
  then show ?case
  proof cases
    case 2
    then have "\<exists>b s'. serial_rx_loop rx False s1 = Some (b, s') \<and> inv s' \<and> rx_ready s'"
      using less.hyps [of s1 False] less.prems dec inv1 s1 by (simp add: rx_ready_def)
    then show ?thesis using 2 rd by (subst serial_rx_loop.simps) simp
  next
    case 3
    then show ?thesis using less.prems rd inv1 s1 by (subst serial_rx_loop.simps) (simp add: rx_ready_def)
  next
    case 4
    obtain s2 where s2: "serial_deliver rx n s1 = Some s2" "inv s2" "bRxEnabled s2" "os_line s2 = evs"
      using deliver_total [OF inv1, of n] less.prems 4 s1 by (auto simp: rx_ready_def)
    then have "\<exists>b s'. serial_rx_loop rx st (s2\<lparr>uiRxBufferPos := 0\<rparr>) = Some (b, s') \<and> inv s' \<and> rx_ready s'"
      using less.hyps [of "s2\<lparr>uiRxBufferPos := 0\<rparr>" st] dec 4 by (simp add: rx_ready_def inv_rxpos)
    then show ?thesis using 4 rd s2 by (subst serial_rx_loop.simps) simp
  qed (use less.prems in \<open>subst serial_rx_loop.simps; simp\<close>)
qed

lemma tx_loop_total:
  "inv s \<Longrightarrow> rx_ready s \<Longrightarrow>
   \<exists>s'. serial_tx_loop tx s = Some s' \<and> inv s' \<and> rx_ready s' \<and> \<not> bTxEnabled s'"
proof (induction "tx_left s" arbitrary: s rule: less_induct)
  case less
  show ?case
  proof (cases "bTxEnabled s")
    case True
    then obtain b s' where step: "tx s = Some (b, s')" "inv s'" "rx_ready s'"
      "bTxEnabled s' \<longrightarrow> tx_left s' < tx_left s"
      using tx_step [of s] less.prems by auto
    have "\<exists>t. serial_tx_loop tx s' = Some t \<and> inv t \<and> rx_ready t \<and> \<not> bTxEnabled t"
    proof (cases "bTxEnabled s'")
      case True
      then show ?thesis using step less.hyps [of s'] by simp
    next
      case False
      then show ?thesis using step by (subst serial_tx_loop.simps) simp
    qed
    with step True show ?thesis by (subst serial_tx_loop.simps) simp
  next
    case False
    with less.prems show ?thesis by (subst serial_tx_loop.simps) simp
  qed
qed

lemma poll_total:
  assumes "inv s" "rx_ready s"
  shows "\<exists>b s'. xMBPortSerialPoll rx tx s = Some (b, s') \<and> inv s' \<and> rx_ready s' \<and> \<not> bTxEnabled s'"
proof -
  obtain b s1 where s1: "serial_rx_loop rx True s = Some (b, s1)" "inv s1" "rx_ready s1"
    using rx_loop_total [OF assms] by blast
  obtain s2 where s2: "serial_tx_loop tx s1 = Some s2" "inv s2" "rx_ready s2" "\<not> bTxEnabled s2"
    using tx_loop_total [OF s1(2,3)] by blast
  show ?thesis
    using s1 s2
    by (auto simp: xMBPortSerialPoll_def prvbMBPortSerialWrite_def inv_sent rx_ready_def split: prod.splits)
qed

end

text \<open>
  A transmission layer whose timer callback also never aborts while the timer runs; the
  event queue can then be polled for ever.
\<close>

locale mb_timed_line = mb_line inv rx tx tx_left
  for inv :: "'a mb_port_scheme \<Rightarrow> bool"
    and rx :: "'a mb_port_scheme \<Rightarrow> (bool \<times> 'a mb_port_scheme) option"
    and tx :: "'a mb_port_scheme \<Rightarrow> (bool \<times> 'a mb_port_scheme) option"
    and tx_left :: "'a mb_port_scheme \<Rightarrow> nat" +
  fixes timer :: "'a mb_port_scheme \<Rightarrow> (bool \<times> 'a mb_port_scheme) option"
  assumes inv_ticks: "inv s \<Longrightarrow> inv (s\<lparr>os_ticks := n\<rparr>)"
    and inv_queue: "inv s \<Longrightarrow> inv (s\<lparr>xEventInQueue := False\<rparr>)"
    and timer_step: "inv s \<Longrightarrow> bTimeoutEnable s \<Longrightarrow>
      \<exists>b s'. timer (s\<lparr>bTimeoutEnable := False\<rparr>) = Some (b, s') \<and> inv s' \<and>
             bRxEnabled s' = bRxEnabled s \<and> uiRxBufferPos s' = uiRxBufferPos s"
begin

lemma timer_poll_total:
  assumes "inv s" "rx_ready s"
  shows "\<exists>s'. vMBPortTimerPoll timer s = Some s' \<and> inv s' \<and> rx_ready s'"
proof -
  have "inv (s\<lparr>os_ticks := os_ticks s + 1\<rparr>)"
    using assms by (simp add: inv_ticks)
  from timer_step [OF this] show ?thesis
    using assms
    by (auto simp: vMBPortTimerPoll_def rx_ready_def inv_ticks Let_def split: option.splits)
qed

lemma event_get_total:
  assumes "inv s" "rx_ready s"
  shows "\<exists>e s'. xMBPortEventGet rx tx timer s = Some (e, s') \<and> inv s' \<and> rx_ready s'"
proof (cases "xEventInQueue s")
  case True
  then show ?thesis using assms by (simp add: xMBPortEventGet_def inv_queue rx_ready_def)
next
  case False
  obtain b s1 where s1: "xMBPortSerialPoll rx tx s = Some (b, s1)" "inv s1" "rx_ready s1"
    using poll_total [OF assms] by blast
  then show ?thesis
    using False timer_poll_total [OF s1(2,3)] by (auto simp: xMBPortEventGet_def)
qed

end

section \<open>Properties\<close>

lemma serial_write_split: "serial_write ws bs = (left, ws', sent) \<Longrightarrow> bs = sent @ left"
  by (induction ws bs arbitrary: left ws' sent rule: serial_write.induct)
     (auto split: prod.splits, metis append_assoc append_take_drop_id)

text \<open>
  \<^verbatim>\<open>prvbMBPortSerialWrite\<close> writes a prefix of the buffer to the line, in order and without a
  gap or a repetition, across every sequence of short, interrupted and failing \<^verbatim>\<open>write\<close>
  calls, and reports success exactly when the prefix is everything it was asked to write.
\<close>

theorem serial_write_prefix:
  assumes "n \<le> length (ucBuffer s)"
  shows "\<exists>k ok s'. prvbMBPortSerialWrite n s = (ok, s') \<and> k \<le> n \<and>
    os_sent s' = os_sent s @ take k (ucBuffer s) \<and> (ok \<longleftrightarrow> k = n)"
proof -
  obtain left ws sent where w: "serial_write (os_write s) (take n (ucBuffer s)) = (left, ws, sent)"
    by (cases "serial_write (os_write s) (take n (ucBuffer s))")
  then have split: "take n (ucBuffer s) = sent @ left" by (rule serial_write_split)
  from arg_cong [OF this, of length] have "length sent + length left = n"
    using assms by simp
  moreover from this split have "sent = take (length sent) (ucBuffer s)"
    by (metis append_eq_conv_conj le_add1 min.absorb1 take_take)
  ultimately show ?thesis
    using w by (auto simp: prvbMBPortSerialWrite_def intro!: exI [of _ "length sent"])
qed

definition port_example :: mb_port where
  "port_example = \<lparr>iSerialFd = 3, bRxEnabled = False, bTxEnabled = True, ulTimeoutMs = 1,
     ucBuffer = [1, 2, 3, 4] @ replicate 509 0, uiRxBufferPos = 0, uiTxBufferPos = 4, xOldTIO = ([], 0),
     eQueuedEvent = EV_READY, xEventInQueue = False, ulTimeOut = 4, bTimeoutEnable = True,
     xTimeLast = \<lparr>tv_sec = 7, tv_usec = 10\<rparr>, os_line = [],
     os_write = [WriteOk 1, WriteEintr, WriteOk 2, WriteErr], os_sent = [],
     os_clock = (\<lambda>n. Some \<lparr>tv_sec = 7, tv_usec = 11 + int n\<rparr>), os_ticks = 0, os_tio = ([], 0)\<rparr>"

theorem serial_write_prefix_witness:
  "\<exists>k ok s'. prvbMBPortSerialWrite 4 port_example = (ok, s') \<and> k \<le> 4 \<and>
    os_sent s' = os_sent port_example @ take k (ucBuffer port_example) \<and> (ok \<longleftrightarrow> k = 4)"
  by (rule serial_write_prefix) (simp add: port_example_def)

text \<open>
  the timer runs out too early. \<^verbatim>\<open>vMBPortTimerPoll\<close> multiplies the elapsed microseconds by
  1000 where milliseconds need a division, so one microsecond after it was started every
  timeout of less than a second has expired, and the callback is called.
\<close>

theorem timer_fires_early:
  assumes "bTimeoutEnable s" "os_clock s (os_ticks s) = Some cur"
    and "tv_sec cur = tv_sec (xTimeLast s)" "tv_usec cur = tv_usec (xTimeLast s) + 1"
    and "unat (ulTimeOut s) < 1000"
  shows "vMBPortTimerPoll f s =
    map_option snd (f (s\<lparr>os_ticks := os_ticks s + 1, bTimeoutEnable := False\<rparr>))"
proof -
  have "timer_delta cur (xTimeLast s) = 1000"
    using assms(3,4) by (simp add: timer_delta_def)
  moreover have "ulTimeOut s < 1000"
    using assms(5) by (simp add: word_less_nat_alt)
  ultimately show ?thesis
    using assms(1,2) by (simp add: vMBPortTimerPoll_def Let_def)
qed

theorem timer_fires_early_witness:
  "vMBPortTimerPoll (\<lambda>s. Some (True, s)) port_example
     = Some (port_example\<lparr>os_ticks := 1, bTimeoutEnable := False\<rparr>)"
  using timer_fires_early [of port_example "\<lparr>tv_sec = 7, tv_usec = 11\<rparr>" "\<lambda>s. Some (True, s)"]
  by (simp add: port_example_def)

end
