(* ===== verification/MbCrc.thy ===== *)
theory MbCrc
  imports Prelude
begin

text \<open>
  \<^verbatim>\<open>modbus/rtu/mbcrc.c\<close>: the table-driven CRC of the Modbus RTU frame. The two tables are
  transcribed from the source. The theory shows that the routine computes the reflected
  CRC-16 with polynomial \<open>0xA001\<close> bit by bit, that a frame followed by its own CRC (low
  byte first) has CRC 0, and that a change of any single byte changes the CRC.
\<close>

definition aucCRCHi :: "u8 list" where
  "aucCRCHi =
     [0x00, 0xc1, 0x81, 0x40, 0x01, 0xc0, 0x80, 0x41, 0x01, 0xc0, 0x80, 0x41,
      0x00, 0xc1, 0x81, 0x40, 0x01, 0xc0, 0x80, 0x41, 0x00, 0xc1, 0x81, 0x40,
      0x00, 0xc1, 0x81, 0x40, 0x01, 0xc0, 0x80, 0x41, 0x01, 0xc0, 0x80, 0x41,
      0x00, 0xc1, 0x81, 0x40, 0x00, 0xc1, 0x81, 0x40, 0x01, 0xc0, 0x80, 0x41,
      0x00, 0xc1, 0x81, 0x40, 0x01, 0xc0, 0x80, 0x41, 0x01, 0xc0, 0x80, 0x41,
      0x00, 0xc1, 0x81, 0x40, 0x01, 0xc0, 0x80, 0x41, 0x00, 0xc1, 0x81, 0x40,
      0x00, 0xc1, 0x81, 0x40, 0x01, 0xc0, 0x80, 0x41, 0x00, 0xc1, 0x81, 0x40,
      0x01, 0xc0, 0x80, 0x41, 0x01, 0xc0, 0x80, 0x41, 0x00, 0xc1, 0x81, 0x40,
      0x00, 0xc1, 0x81, 0x40, 0x01, 0xc0, 0x80, 0x41, 0x01, 0xc0, 0x80, 0x41,
      0x00, 0xc1, 0x81, 0x40, 0x01, 0xc0, 0x80, 0x41, 0x00, 0xc1, 0x81, 0x40,
      0x00, 0xc1, 0x81, 0x40, 0x01, 0xc0, 0x80, 0x41, 0x01, 0xc0, 0x80, 0x41,
      0x00, 0xc1, 0x81, 0x40, 0x00, 0xc1, 0x81, 0x40, 0x01, 0xc0, 0x80, 0x41,
      0x00, 0xc1, 0x81, 0x40, 0x01, 0xc0, 0x80, 0x41, 0x01, 0xc0, 0x80, 0x41,
      0x00, 0xc1, 0x81, 0x40, 0x00, 0xc1, 0x81, 0x40, 0x01, 0xc0, 0x80, 0x41,
      0x01, 0xc0, 0x80, 0x41, 0x00, 0xc1, 0x81, 0x40, 0x01, 0xc0, 0x80, 0x41,
      0x00, 0xc1, 0x81, 0x40, 0x00, 0xc1, 0x81, 0x40, 0x01, 0xc0, 0x80, 0x41,
      0x00, 0xc1, 0x81, 0x40, 0x01, 0xc0, 0x80, 0x41, 0x01, 0xc0, 0x80, 0x41,
      0x00, 0xc1, 0x81, 0x40, 0x01, 0xc0, 0x80, 0x41, 0x00, 0xc1, 0x81, 0x40,
      0x00, 0xc1, 0x81, 0x40, 0x01, 0xc0, 0x80, 0x41, 0x01, 0xc0, 0x80, 0x41,
      0x00, 0xc1, 0x81, 0x40, 0x00, 0xc1, 0x81, 0x40, 0x01, 0xc0, 0x80, 0x41,
      0x00, 0xc1, 0x81, 0x40, 0x01, 0xc0, 0x80, 0x41, 0x01, 0xc0, 0x80, 0x41,
      0x00, 0xc1, 0x81, 0x40]"

definition aucCRCLo :: "u8 list" where
  "aucCRCLo =
     [0x00, 0xc0, 0xc1, 0x01, 0xc3, 0x03, 0x02, 0xc2, 0xc6, 0x06, 0x07, 0xc7,
      0x05, 0xc5, 0xc4, 0x04, 0xcc, 0x0c, 0x0d, 0xcd, 0x0f, 0xcf, 0xce, 0x0e,
      0x0a, 0xca, 0xcb, 0x0b, 0xc9, 0x09, 0x08, 0xc8, 0xd8, 0x18, 0x19, 0xd9,
      0x1b, 0xdb, 0xda, 0x1a, 0x1e, 0xde, 0xdf, 0x1f, 0xdd, 0x1d, 0x1c, 0xdc,
      0x14, 0xd4, 0xd5, 0x15, 0xd7, 0x17, 0x16, 0xd6, 0xd2, 0x12, 0x13, 0xd3,
      0x11, 0xd1, 0xd0, 0x10, 0xf0, 0x30, 0x31, 0xf1, 0x33, 0xf3, 0xf2, 0x32,
      0x36, 0xf6, 0xf7, 0x37, 0xf5, 0x35, 0x34, 0xf4, 0x3c, 0xfc, 0xfd, 0x3d,
      0xff, 0x3f, 0x3e, 0xfe, 0xfa, 0x3a, 0x3b, 0xfb, 0x39, 0xf9, 0xf8, 0x38,
      0x28, 0xe8, 0xe9, 0x29, 0xeb, 0x2b, 0x2a, 0xea, 0xee, 0x2e, 0x2f, 0xef,
      0x2d, 0xed, 0xec, 0x2c, 0xe4, 0x24, 0x25, 0xe5, 0x27, 0xe7, 0xe6, 0x26,
      0x22, 0xe2, 0xe3, 0x23, 0xe1, 0x21, 0x20, 0xe0, 0xa0, 0x60, 0x61, 0xa1,
      0x63, 0xa3, 0xa2, 0x62, 0x66, 0xa6, 0xa7, 0x67, 0xa5, 0x65, 0x64, 0xa4,
      0x6c, 0xac, 0xad, 0x6d, 0xaf, 0x6f, 0x6e, 0xae, 0xaa, 0x6a, 0x6b, 0xab,
      0x69, 0xa9, 0xa8, 0x68, 0x78, 0xb8, 0xb9, 0x79, 0xbb, 0x7b, 0x7a, 0xba,
      0xbe, 0x7e, 0x7f, 0xbf, 0x7d, 0xbd, 0xbc, 0x7c, 0xb4, 0x74, 0x75, 0xb5,
      0x77, 0xb7, 0xb6, 0x76, 0x72, 0xb2, 0xb3, 0x73, 0xb1, 0x71, 0x70, 0xb0,
      0x50, 0x90, 0x91, 0x51, 0x93, 0x53, 0x52, 0x92, 0x96, 0x56, 0x57, 0x97,
      0x55, 0x95, 0x94, 0x54, 0x9c, 0x5c, 0x5d, 0x9d, 0x5f, 0x9f, 0x9e, 0x5e,
      0x5a, 0x9a, 0x9b, 0x5b, 0x99, 0x59, 0x58, 0x98, 0x88, 0x48, 0x49, 0x89,
      0x4b, 0x8b, 0x8a, 0x4a, 0x4e, 0x8e, 0x8f, 0x4f, 0x8d, 0x4d, 0x4c, 0x8c,
      0x44, 0x84, 0x85, 0x45, 0x87, 0x47, 0x46, 0x86, 0x82, 0x42, 0x43, 0x83,
      0x41, 0x81, 0x80, 0x40]"

text \<open>
  One round of the loop: the state is the pair \<^verbatim>\<open>(ucCRCHi, ucCRCLo)\<close>. The index is a byte,
  so it is always inside the tables.
\<close>

definition crc_round :: "u8 \<times> u8 \<Rightarrow> u8 \<Rightarrow> u8 \<times> u8" where
  "crc_round = (\<lambda>(ucCRCHi, ucCRCLo) b.
     let iIndex = unat (ucCRCLo XOR b)
     in (aucCRCLo ! iIndex, ucCRCHi XOR aucCRCHi ! iIndex))"

definition usMBCRC16 :: "u8 list \<Rightarrow> u16" where
  "usMBCRC16 pucFrame =
     (let (ucCRCHi, ucCRCLo) = foldl crc_round (0xff, 0xff) pucFrame
      in push_bit 8 (ucast ucCRCHi) OR ucast ucCRCLo)"

text \<open>The bitwise reference: shift right, and subtract the polynomial when a one falls out.\<close>

definition crc_shift :: "u16 \<Rightarrow> u16" where
  "crc_shift c = (if bit c 0 then drop_bit 1 c XOR 0xA001 else drop_bit 1 c)"

definition crc_ref_byte :: "u16 \<Rightarrow> u8 \<Rightarrow> u16" where
  "crc_ref_byte c b = (crc_shift ^^ 8) (c XOR ucast b)"

definition crc_ref :: "u8 list \<Rightarrow> u16" where
  "crc_ref bs = foldl crc_ref_byte 0xFFFF bs"

section \<open>The tables hold the reference CRC of one byte\<close>

text \<open>The shift on the integer value of the register, with rules that evaluate it on numerals.\<close>

definition crc_shift_int :: "int \<Rightarrow> int" where
  "crc_shift_int c = (if odd c then c div 2 XOR 0xA001 else c div 2)"

definition crc_byte_int :: "int \<Rightarrow> int" where
  "crc_byte_int c =
     crc_shift_int (crc_shift_int (crc_shift_int (crc_shift_int
       (crc_shift_int (crc_shift_int (crc_shift_int (crc_shift_int c)))))))"

lemma crc_shift_int_simps [simp]:
  "crc_shift_int 0 = 0" "crc_shift_int 1 = 0xA001"
  "crc_shift_int (numeral (num.Bit0 n)) = numeral n"
  "crc_shift_int (numeral (num.Bit1 n)) = numeral n XOR 0xA001"
  by (simp_all add: crc_shift_int_def)

lemma uint_crc_shift: "uint (crc_shift c) = crc_shift_int (uint c)"
proof -
  have "bit c 0 \<longleftrightarrow> odd (uint c)"
    by (simp add: bit_uint_iff flip: bit_0)
  then show ?thesis
    by (simp add: crc_shift_def crc_shift_int_def unsigned_xor_eq drop_bit_eq_div uint_div)
qed

lemma uint_crc_shift8: "uint ((crc_shift ^^ 8) c) = crc_byte_int (uint c)"
  by (simp add: crc_byte_int_def eval_nat_numeral uint_crc_shift)

lemma crc_tables:
  "map2 (\<lambda>h l. uint h * 256 + uint l) aucCRCLo aucCRCHi = map crc_byte_int [0..255]"
  by (simp add: aucCRCLo_def aucCRCHi_def crc_byte_int_def upto_rec1)

lemma length_tables [simp]: "length aucCRCLo = 256" "length aucCRCHi = 256"
  by (simp_all add: aucCRCLo_def aucCRCHi_def)

lemma crc_tables_nth:
  "be16 (aucCRCLo ! unat b) (aucCRCHi ! unat b) = (crc_shift ^^ 8) (ucast (b :: u8))"
proof -
  have "map2 (\<lambda>h l. uint h * 256 + uint l) aucCRCLo aucCRCHi ! unat b
      = map crc_byte_int [0..255] ! unat b"
    by (simp only: crc_tables)
  moreover have "[0..255] ! unat b = uint b"
    using uint_bounded [of b] by (subst nth_upto) simp_all
  ultimately have "uint (aucCRCLo ! unat b) * 256 + uint (aucCRCHi ! unat b) = crc_byte_int (uint b)"
    by simp
  moreover have "take_bit 16 (uint b) = uint b"
    using uint_bounded [of b] by (simp add: take_bit_int_eq_self)
  ultimately have "uint (be16 (aucCRCLo ! unat b) (aucCRCHi ! unat b))
      = uint ((crc_shift ^^ 8) (ucast b))"
    by (simp add: uint_be16 uint_crc_shift8 unsigned_ucast_eq)
  then show ?thesis by (simp only: word_uint_eq_iff)
qed

section \<open>The byte step is linear and injective\<close>

lemma crc_shift_xor: "crc_shift (a XOR b) = crc_shift a XOR crc_shift b"
  by (rule bit_word_eqI) (auto simp: crc_shift_def bit_simps)

lemma crc_shift8_xor: "(crc_shift ^^ n) (a XOR b) = (crc_shift ^^ n) a XOR (crc_shift ^^ n) b"
  by (induction n) (simp_all add: crc_shift_xor)

lemma crc_shift_push: "n < 8 \<Longrightarrow> crc_shift (push_bit (Suc n) (ucast (h :: u8))) = push_bit n (ucast h)"
  by (rule bit_word_eqI)
     (auto simp: crc_shift_def bit_simps Suc_diff_le simp del: push_bit_Suc dest: bit_imp_le_length)

lemma crc_shift_push_pow: "n \<le> 8 \<Longrightarrow> (crc_shift ^^ n) (push_bit n (ucast (h :: u8))) = ucast h"
  by (induction n) (simp_all add: funpow_Suc_right crc_shift_push del: funpow.simps push_bit_Suc)

lemma crc_ref_byte_table:
  "crc_ref_byte (be16 h l) b =
   be16 (aucCRCLo ! unat (l XOR b)) (h XOR aucCRCHi ! unat (l XOR b))"
proof -
  have "be16 h l XOR ucast b = push_bit 8 (ucast h) XOR ucast (l XOR b)"
    by (rule bit_word_eqI) (auto simp: bit_be16 bit_simps dest: bit_imp_le_length)
  then have "crc_ref_byte (be16 h l) b =
      ucast h XOR be16 (aucCRCLo ! unat (l XOR b)) (aucCRCHi ! unat (l XOR b))"
    by (simp add: crc_ref_byte_def crc_shift8_xor crc_shift_push_pow crc_tables_nth)
  also have "\<dots> = be16 (aucCRCLo ! unat (l XOR b)) (h XOR aucCRCHi ! unat (l XOR b))"
    by (rule bit_word_eqI) (auto simp: bit_be16 bit_simps dest: bit_imp_le_length)
  finally show ?thesis .
qed

lemma aucCRCLo_nonzero: "0 \<notin> set (tl aucCRCLo)"
  by (simp add: aucCRCLo_def)

lemma aucCRCLo_eq_0: "aucCRCLo ! unat (b :: u8) = 0 \<Longrightarrow> b = 0"
proof (rule ccontr)
  assume z: "aucCRCLo ! unat b = 0" and "b \<noteq> 0"
  then have "0 < unat b" by (simp add: unat_gt_0)
  then have "tl aucCRCLo ! (unat b - 1) = 0" and "unat b - 1 < length (tl aucCRCLo)"
    using z unat_u8_less [of b] by (auto simp: nth_tl simp del: unat_u8_less)
  then show False using aucCRCLo_nonzero nth_mem by metis
qed

lemma aucCRCLo_xor:
  "aucCRCLo ! unat (a XOR b) = aucCRCLo ! unat a XOR aucCRCLo ! unat (b :: u8)"
proof -
  have "ucast (a XOR b) = (ucast a XOR ucast b :: u16)"
    by (rule bit_word_eqI) (auto simp: bit_simps)
  then have "be16 (aucCRCLo ! unat (a XOR b)) (aucCRCHi ! unat (a XOR b)) =
      be16 (aucCRCLo ! unat a) (aucCRCHi ! unat a) XOR be16 (aucCRCLo ! unat b) (aucCRCHi ! unat b)"
    by (simp add: crc_tables_nth crc_shift8_xor)
  also have "\<dots> = be16 (aucCRCLo ! unat a XOR aucCRCLo ! unat b) (aucCRCHi ! unat a XOR aucCRCHi ! unat b)"
    by (rule bit_word_eqI) (auto simp: bit_be16 bit_simps)
  finally show ?thesis by simp
qed

lemma aucCRCLo_inj: "aucCRCLo ! unat (a :: u8) = aucCRCLo ! unat b \<longleftrightarrow> a = b"
proof
  assume "aucCRCLo ! unat a = aucCRCLo ! unat b"
  then have "aucCRCLo ! unat (a XOR b) = 0" by (simp add: aucCRCLo_xor)
  then have "a XOR b = 0" by (rule aucCRCLo_eq_0)
  then show "a = b" by (simp add: word_xor_eq_0)
qed simp

lemma aucCRC_zero [simp]: "aucCRCLo ! 0 = 0" "aucCRCHi ! 0 = 0"
  by (simp_all add: aucCRCLo_def aucCRCHi_def)

lemma crc_round_inj: "crc_round s b = crc_round t b \<longleftrightarrow> s = t"
  by (cases s; cases t)
     (auto simp: crc_round_def Let_def aucCRCLo_inj)

lemma foldl_crc_round_inj: "foldl crc_round s bs = foldl crc_round t bs \<longleftrightarrow> s = t"
  by (induction bs arbitrary: s t) (simp_all add: crc_round_inj)

section \<open>The CRC of a frame\<close>

lemma usMBCRC16_be16: "usMBCRC16 bs = (case foldl crc_round (0xff, 0xff) bs of (h, l) \<Rightarrow> be16 h l)"
  by (simp add: usMBCRC16_def be16_def split: prod.split)

lemma crc_round_ref:
  "foldl crc_ref_byte (be16 h l) bs = (case foldl crc_round (h, l) bs of (h', l') \<Rightarrow> be16 h' l')"
  by (induction bs arbitrary: h l) (simp_all add: crc_ref_byte_table crc_round_def Let_def)

text \<open>
  C15: the table-driven routine \<^verbatim>\<open>usMBCRC16\<close> computes, for every frame, the bitwise reflected
  CRC-16 with polynomial 0xA001 and initial value 0xFFFF that the Modbus RTU frame uses.
\<close>

theorem usMBCRC16_bitwise: "usMBCRC16 pucFrame = crc_ref pucFrame"
proof -
  have "be16 0xff 0xff = 0xFFFF"
    by (simp add: be16_def)
  then show ?thesis
    using crc_round_ref [of 255 255 pucFrame] by (simp add: crc_ref_def usMBCRC16_be16)
qed

text \<open>
  Appending the CRC of a frame low byte first, as \<^verbatim>\<open>eMBRTUSend\<close> does, gives a frame whose
  CRC is 0, which is the test \<^verbatim>\<open>eMBRTUReceive\<close> makes.
\<close>

lemma usMBCRC16_residue:
  "usMBCRC16 (pucFrame @ [lo8 (usMBCRC16 pucFrame), hi8 (usMBCRC16 pucFrame)]) = 0"
proof -
  obtain h l where s: "foldl crc_round (0xff, 0xff) pucFrame = (h, l)"
    by (cases "foldl crc_round (0xff, 0xff) pucFrame")
  then have "crc_round (crc_round (h, l) (lo8 (usMBCRC16 pucFrame))) (hi8 (usMBCRC16 pucFrame)) = (0, 0)"
    by (simp add: usMBCRC16_be16 crc_round_def Let_def)
  then show ?thesis
    using s by (simp add: usMBCRC16_be16 be16_def)
qed

text \<open>
  A frame damaged in any way inside two adjacent bytes (every error burst of up to
  nine bits, and every single damaged byte) has another CRC.
\<close>

lemma usMBCRC16_burst:
  assumes "(b1, b2) \<noteq> (c1, c2)"
  shows "usMBCRC16 (xs @ b1 # b2 # ys) \<noteq> usMBCRC16 (xs @ c1 # c2 # ys)"
proof -
  obtain h l where s: "foldl crc_round (0xff, 0xff) xs = (h, l)"
    by (cases "foldl crc_round (0xff, 0xff) xs")
  have "crc_round (crc_round (h, l) b1) b2 \<noteq> crc_round (crc_round (h, l) c1) c2"
    using assms by (auto simp: crc_round_def Let_def aucCRCLo_inj)
  then have "foldl crc_round (0xff, 0xff) (xs @ b1 # b2 # ys)
      \<noteq> foldl crc_round (0xff, 0xff) (xs @ c1 # c2 # ys)"
    by (simp add: s foldl_crc_round_inj)
  then show ?thesis
    by (auto simp: usMBCRC16_be16 simp del: foldl_append foldl_Cons split: prod.splits)
qed

end
