(* ===== verification/MbRtu.thy ===== *)
theory MbRtu
  imports MbPort MbCrc
begin

text \<open>
  The RTU transmission layer, \<^verbatim>\<open>modbus/rtu/mbrtu.c\<close>. Its static variables extend the record of
  the porting layer; \<^verbatim>\<open>eSndState\<close>, \<^verbatim>\<open>eRcvState\<close> and the buffer positions carry the prefix
  \<open>rtu_\<close> because \<^verbatim>\<open>mbascii.c\<close> has variables of the same names. Pointers into \<^verbatim>\<open>ucRTUBuf\<close> are
  indices.
\<close>

datatype eMBRcvState = STATE_RX_INIT | STATE_RX_IDLE | STATE_RX_RCV | STATE_RX_ERROR

datatype eMBSndState = STATE_TX_IDLE | STATE_TX_XMIT

abbreviation (input) MB_SER_PDU_SIZE_MIN :: u16 where "MB_SER_PDU_SIZE_MIN \<equiv> 4"
abbreviation (input) MB_SER_PDU_SIZE_MAX :: u16 where "MB_SER_PDU_SIZE_MAX \<equiv> 256"
abbreviation (input) MB_SER_PDU_SIZE_CRC :: u16 where "MB_SER_PDU_SIZE_CRC \<equiv> 2"
abbreviation (input) MB_SER_PDU_ADDR_OFF :: nat where "MB_SER_PDU_ADDR_OFF \<equiv> 0"
abbreviation (input) MB_SER_PDU_PDU_OFF :: nat where "MB_SER_PDU_PDU_OFF \<equiv> 1"

record mb_rtu = mb_port +
  rtu_eSndState :: eMBSndState
  rtu_eRcvState :: eMBRcvState
  ucRTUBuf :: "u8 list"
  rtu_pucSndBufferCur :: nat
  rtu_usSndBufferCount :: u16
  rtu_usRcvBufferPos :: u16

text \<open>
  \<^verbatim>\<open>eMBRTUInit\<close>: the timer value is computed in 32 bits and cast to 16. A baud rate of 0
  divides by zero.
\<close>

definition eMBRTUInit ::
    "serial_dev \<Rightarrow> u8 \<Rightarrow> u8 \<Rightarrow> u32 \<Rightarrow> eMBParity \<Rightarrow> 'a mb_rtu_scheme
     \<Rightarrow> (eMBErrorCode \<times> 'a mb_rtu_scheme) option" where
  "eMBRTUInit dev ucSlaveAddress ucPort ulBaudRate eParity s = do {
     (ok, s) \<leftarrow> xMBPortSerialInit dev ucPort ulBaudRate 8 eParity s;
     if \<not> ok then Some (MB_EPORTERR, s)
     else do {
       usTimerT35_50us \<leftarrow>
         (if 19200 < ulBaudRate then Some 35
          else if 2 * ulBaudRate = 0 then None
          else Some ((7 * 220000) div (2 * ulBaudRate)));
       let (ok, s) = xMBPortTimersInit (ucast usTimerT35_50us) s;
       Some (if ok then MB_ENOERR else MB_EPORTERR, s)
     }
   }"

definition eMBRTUStart :: "'a mb_rtu_scheme \<Rightarrow> 'a mb_rtu_scheme option" where
  "eMBRTUStart s = do {
     let s = s\<lparr>rtu_eRcvState := STATE_RX_INIT\<rparr>;
     s \<leftarrow> vMBPortSerialEnable True False s;
     vMBPortTimersEnable s
   }"

definition eMBRTUStop :: "'a mb_rtu_scheme \<Rightarrow> 'a mb_rtu_scheme option" where
  "eMBRTUStop s = do {
     s \<leftarrow> vMBPortSerialEnable False False s;
     Some (vMBPortTimersDisable s)
   }"

text \<open>
  \<^verbatim>\<open>eMBRTUReceive\<close>: \<open>Inl\<close> an error, \<open>Inr\<close> the address, the index of the PDU in \<^verbatim>\<open>ucRTUBuf\<close>
  and its length. It changes no variable.
\<close>

definition eMBRTUReceive :: "'a mb_rtu_scheme \<Rightarrow> (eMBErrorCode + u8 \<times> nat \<times> u16) option" where
  "eMBRTUReceive s = do {
     DEBUGASSERT (rtu_usRcvBufferPos s < MB_SER_PDU_SIZE_MAX);
     if MB_SER_PDU_SIZE_MIN \<le> rtu_usRcvBufferPos s then do {
       frame \<leftarrow> array_slice (ucRTUBuf s) 0 (unat (rtu_usRcvBufferPos s));
       if usMBCRC16 frame = 0 then do {
         ucRcvAddress \<leftarrow> array_get (ucRTUBuf s) MB_SER_PDU_ADDR_OFF;
         Some (Inr (ucRcvAddress, MB_SER_PDU_PDU_OFF, rtu_usRcvBufferPos s - 1 - MB_SER_PDU_SIZE_CRC))
       } else Some (Inl MB_EIO)
     } else Some (Inl MB_EIO)
   }"

text \<open>
  \<^verbatim>\<open>eMBRTUSend\<close>: \<open>pucFrame\<close> is the index of the PDU in \<^verbatim>\<open>ucRTUBuf\<close>, so the address is stored
  just before it, while the CRC is stored at \<^verbatim>\<open>ucRTUBuf[usSndBufferCount]\<close> from the start of
  the array. A PDU at index 0 would be preceded by no byte.
\<close>

definition eMBRTUSend ::
    "u8 \<Rightarrow> nat \<Rightarrow> u16 \<Rightarrow> 'a mb_rtu_scheme \<Rightarrow> (eMBErrorCode \<times> 'a mb_rtu_scheme) option" where
  "eMBRTUSend ucSlaveAddress pucFrame usLength s =
     (if rtu_eRcvState s = STATE_RX_IDLE then do {
        DEBUGASSERT (0 < pucFrame);
        let cur = pucFrame - 1;
        let count = (1 :: u16);
        buf \<leftarrow> array_put (ucRTUBuf s) (cur + MB_SER_PDU_ADDR_OFF) ucSlaveAddress;
        let count = count + usLength;
        frame \<leftarrow> array_slice buf cur (unat count);
        let usCRC16 = usMBCRC16 frame;
        buf \<leftarrow> array_put buf (unat count) (lo8 usCRC16);
        let count = count + 1;
        buf \<leftarrow> array_put buf (unat count) (hi8 usCRC16);
        let count = count + 1;
        s \<leftarrow> vMBPortSerialEnable False True
               (s\<lparr>ucRTUBuf := buf, rtu_pucSndBufferCur := cur, rtu_usSndBufferCount := count,
                  rtu_eSndState := STATE_TX_XMIT\<rparr>);
        Some (MB_ENOERR, s)
      } else Some (MB_EIO, s))"

definition xMBRTUReceiveFSM :: "'a mb_rtu_scheme \<Rightarrow> (bool \<times> 'a mb_rtu_scheme) option" where
  "xMBRTUReceiveFSM s = do {
     DEBUGASSERT (rtu_eSndState s = STATE_TX_IDLE);
     (ucByte, s) \<leftarrow> xMBPortSerialGetByte s;
     s \<leftarrow> (case rtu_eRcvState s of
         STATE_RX_INIT \<Rightarrow> vMBPortTimersEnable s
       | STATE_RX_ERROR \<Rightarrow> vMBPortTimersEnable s
       | STATE_RX_IDLE \<Rightarrow> do {
           buf \<leftarrow> array_put (ucRTUBuf s) 0 ucByte;
           vMBPortTimersEnable
             (s\<lparr>ucRTUBuf := buf, rtu_usRcvBufferPos := 1, rtu_eRcvState := STATE_RX_RCV\<rparr>)
         }
       | STATE_RX_RCV \<Rightarrow>
           if rtu_usRcvBufferPos s < MB_SER_PDU_SIZE_MAX then do {
             buf \<leftarrow> array_put (ucRTUBuf s) (unat (rtu_usRcvBufferPos s)) ucByte;
             vMBPortTimersEnable
               (s\<lparr>ucRTUBuf := buf, rtu_usRcvBufferPos := rtu_usRcvBufferPos s + 1\<rparr>)
           } else vMBPortTimersEnable (s\<lparr>rtu_eRcvState := STATE_RX_ERROR\<rparr>));
     Some (False, s)
   }"

definition xMBRTUTransmitFSM :: "'a mb_rtu_scheme \<Rightarrow> (bool \<times> 'a mb_rtu_scheme) option" where
  "xMBRTUTransmitFSM s = do {
     DEBUGASSERT (rtu_eRcvState s = STATE_RX_IDLE);
     (case rtu_eSndState s of
        STATE_TX_IDLE \<Rightarrow> do {
          s \<leftarrow> vMBPortSerialEnable True False s;
          Some (False, s)
        }
      | STATE_TX_XMIT \<Rightarrow>
          if rtu_usSndBufferCount s \<noteq> 0 then do {
            b \<leftarrow> array_get (ucRTUBuf s) (rtu_pucSndBufferCur s);
            s \<leftarrow> xMBPortSerialPutByte b s;
            Some (False, s\<lparr>rtu_pucSndBufferCur := rtu_pucSndBufferCur s + 1,
                           rtu_usSndBufferCount := rtu_usSndBufferCount s - 1\<rparr>)
          } else do {
            let (xNeedPoll, s) = xMBPortEventPost EV_FRAME_SENT s;
            s \<leftarrow> vMBPortSerialEnable True False s;
            Some (xNeedPoll, s\<lparr>rtu_eSndState := STATE_TX_IDLE\<rparr>)
          })
   }"

definition xMBRTUTimerT35Expired :: "'a mb_rtu_scheme \<Rightarrow> (bool \<times> 'a mb_rtu_scheme) option" where
  "xMBRTUTimerT35Expired s = do {
     (xNeedPoll, s) \<leftarrow> (case rtu_eRcvState s of
         STATE_RX_INIT \<Rightarrow> Some (xMBPortEventPost EV_READY s)
       | STATE_RX_RCV \<Rightarrow> Some (xMBPortEventPost EV_FRAME_RECEIVED s)
       | STATE_RX_ERROR \<Rightarrow> Some (False, s)
       | STATE_RX_IDLE \<Rightarrow> None);
     Some (xNeedPoll, (vMBPortTimersDisable s)\<lparr>rtu_eRcvState := STATE_RX_IDLE\<rparr>)
   }"

section \<open>The invariant of the layer\<close>

text \<open>
  The receiver is enabled only while the transmitter is idle; an enabled transmitter
  finds the receiver idle, the timer stopped and a frame that fits both buffers; the timer
  runs only while the receiver is not idle; the receive position stays in the buffer.
\<close>

definition rtu_inv :: "'a mb_rtu_scheme \<Rightarrow> bool" where
  "rtu_inv s \<longleftrightarrow>
     port_ok s \<and> length (ucRTUBuf s) = 256 \<and> rtu_usRcvBufferPos s \<le> MB_SER_PDU_SIZE_MAX \<and>
     (bRxEnabled s \<longrightarrow> \<not> bTxEnabled s \<and> rtu_eSndState s = STATE_TX_IDLE) \<and>
     (bTxEnabled s \<longrightarrow>
        rtu_eRcvState s = STATE_RX_IDLE \<and> rtu_eSndState s = STATE_TX_XMIT \<and> \<not> bTimeoutEnable s \<and>
        uiTxBufferPos s + unat (rtu_usSndBufferCount s) \<le> 256 \<and>
        rtu_pucSndBufferCur s + unat (rtu_usSndBufferCount s) \<le> 256) \<and>
     (bTimeoutEnable s \<longrightarrow> rtu_eRcvState s \<noteq> STATE_RX_IDLE)"

definition rtu_tx_left :: "'a mb_rtu_scheme \<Rightarrow> nat" where
  "rtu_tx_left s = unat (rtu_usSndBufferCount s)"

lemmas rtu_fsm_defs =
  xMBRTUReceiveFSM_def xMBRTUTransmitFSM_def xMBRTUTimerT35Expired_def
  xMBPortSerialGetByte_def xMBPortSerialPutByte_def vMBPortSerialEnable_def vMBPortTimersEnable_def
  vMBPortTimersDisable_def xMBPortEventPost_def

lemma unat_u16_pred: "(w :: u16) \<noteq> 0 \<Longrightarrow> unat (w - 1) = unat w - 1"
  by (rule unat_minus_one)

lemma u16_pos_Suc: "(w :: u16) < 256 \<Longrightarrow> w + 1 \<le> 256 \<and> unat w < 256"
  by (simp add: word_less_nat_alt word_le_nat_alt unat_u16_add)

lemma rtu_rx_step:
  assumes "rtu_inv s" "bRxEnabled s" "uiRxBufferPos s < BUF_SIZE"
  shows "\<exists>b s'. xMBRTUReceiveFSM s = Some (b, s') \<and> rtu_inv s' \<and> bRxEnabled s' \<and>
    os_line s' = os_line s \<and> uiRxBufferPos s' = Suc (uiRxBufferPos s)"
proof -
  obtain t where "os_clock s (os_ticks s) = Some t"
    using assms(1) by (auto simp: rtu_inv_def port_ok_def)
  then show ?thesis
    using assms
    by (cases "rtu_eRcvState s")
       (auto simp: rtu_inv_def port_ok_def rtu_fsm_defs array_simps u16_pos_Suc)
qed

lemma rtu_tx_step:
  assumes "rtu_inv s" "bTxEnabled s"
  shows "\<exists>b s'. xMBRTUTransmitFSM s = Some (b, s') \<and> rtu_inv s' \<and> rx_ready s' \<and>
    (bTxEnabled s' \<longrightarrow> rtu_tx_left s' < rtu_tx_left s)"
proof (cases "rtu_usSndBufferCount s = 0")
  case True
  then show ?thesis
    using assms by (auto simp: rtu_inv_def port_ok_def rtu_fsm_defs rx_ready_def)
next
  case False
  then have "0 < unat (rtu_usSndBufferCount s)"
    by (simp add: unat_gt_0)
  then show ?thesis
    using assms False
    by (auto simp: rtu_inv_def port_ok_def rtu_fsm_defs rx_ready_def rtu_tx_left_def array_simps
        unat_u16_pred)
qed

lemma rtu_timer_step:
  assumes "rtu_inv s" "bTimeoutEnable s"
  shows "\<exists>b s'. xMBRTUTimerT35Expired (s\<lparr>bTimeoutEnable := False\<rparr>) = Some (b, s') \<and> rtu_inv s' \<and>
    bRxEnabled s' = bRxEnabled s \<and> uiRxBufferPos s' = uiRxBufferPos s"
  using assms
  by (cases "rtu_eRcvState s") (auto simp: rtu_inv_def port_ok_def rtu_fsm_defs)

interpretation rtu: mb_timed_line rtu_inv xMBRTUReceiveFSM xMBRTUTransmitFSM rtu_tx_left
  xMBRTUTimerT35Expired
proof (unfold_locales, goal_cases)
  case (1 s) then show ?case by (simp add: rtu_inv_def)
next
  case (2 s b l) then show ?case by (simp add: rtu_inv_def port_ok_def)
next
  case (3 s p) then show ?case by (simp add: rtu_inv_def port_ok_def)
next
  case (4 s w out) then show ?case by (simp add: rtu_inv_def port_ok_def)
next
  case (5 s) then show ?case by (rule rtu_rx_step)
next
  case (6 s) then show ?case by (rule rtu_tx_step)
next
  case (7 s n) then show ?case by (simp add: rtu_inv_def port_ok_def)
next
  case (8 s) then show ?case by (simp add: rtu_inv_def port_ok_def)
next
  case (9 s) then show ?case by (rule rtu_timer_step)
qed

section \<open>Receiving a frame\<close>

text \<open>The time of the last of \<open>n\<close> bytes: each of them restarts the timer.\<close>

definition rtu_last_time :: "nat \<Rightarrow> 'a mb_rtu_scheme \<Rightarrow> timeval" where
  "rtu_last_time n s = (if n = 0 then xTimeLast s else the (os_clock s (os_ticks s + n - 1)))"

lemma rtu_deliver_rcv:
  "rtu_inv s \<Longrightarrow> bRxEnabled s \<Longrightarrow> rtu_eRcvState s = STATE_RX_RCV \<Longrightarrow> bTimeoutEnable s \<Longrightarrow>
   unat (rtu_usRcvBufferPos s) + n \<le> 256 \<Longrightarrow> uiRxBufferPos s + n \<le> BUF_SIZE \<Longrightarrow>
   serial_deliver xMBRTUReceiveFSM n s = Some (s\<lparr>
     uiRxBufferPos := uiRxBufferPos s + n,
     ucRTUBuf := take (unat (rtu_usRcvBufferPos s)) (ucRTUBuf s)
                 @ take n (drop (uiRxBufferPos s) (ucBuffer s))
                 @ drop (unat (rtu_usRcvBufferPos s) + n) (ucRTUBuf s),
     rtu_usRcvBufferPos := rtu_usRcvBufferPos s + of_nat n,
     os_ticks := os_ticks s + n, xTimeLast := rtu_last_time n s\<rparr>)"
proof (induction n arbitrary: s)
  case 0
  then show ?case by (simp add: rtu_last_time_def)
next
  case (Suc n)
  let ?p = "unat (rtu_usRcvBufferPos s)" and ?i = "uiRxBufferPos s"
  obtain t where t: "os_clock s (os_ticks s) = Some t"
    using Suc.prems(1) by (auto simp: rtu_inv_def port_ok_def)
  define s1 where "s1 = s\<lparr>uiRxBufferPos := Suc ?i, ucRTUBuf := (ucRTUBuf s)[?p := ucBuffer s ! ?i],
    rtu_usRcvBufferPos := rtu_usRcvBufferPos s + 1, os_ticks := Suc (os_ticks s), xTimeLast := t\<rparr>"
  have len: "length (ucBuffer s) = 513" "length (ucRTUBuf s) = 256"
    using Suc.prems(1) by (auto simp: rtu_inv_def port_ok_def)
  have lt: "rtu_usRcvBufferPos s < 256"
    using Suc.prems(5) by (simp add: word_less_nat_alt)
  have step: "xMBRTUReceiveFSM s = Some (False, s1)"
    using Suc.prems t len lt
    by (simp add: rtu_fsm_defs array_simps s1_def rtu_inv_def word_less_nat_alt)
  have p1: "unat (rtu_usRcvBufferPos s + 1) = Suc ?p"
    using Suc.prems(5) by (simp add: unat_u16_Suc)
  have inv1: "rtu_inv s1"
    using rtu_rx_step [of s] step Suc.prems by auto
  have d: "serial_deliver xMBRTUReceiveFSM n s1 = Some (s1\<lparr>
     uiRxBufferPos := uiRxBufferPos s1 + n,
     ucRTUBuf := take (Suc ?p) (ucRTUBuf s1) @ take n (drop (Suc ?i) (ucBuffer s))
                 @ drop (Suc ?p + n) (ucRTUBuf s1),
     rtu_usRcvBufferPos := rtu_usRcvBufferPos s1 + of_nat n,
     os_ticks := os_ticks s1 + n, xTimeLast := rtu_last_time n s1\<rparr>)"
    using Suc.IH [OF inv1] Suc.prems p1 by (simp add: s1_def)
  have last_time: "rtu_last_time n s1 = rtu_last_time (Suc n) s"
    using t by (simp add: rtu_last_time_def s1_def)
  have buf: "take (Suc ?p) (ucRTUBuf s1) @ take n (drop (Suc ?i) (ucBuffer s))
      @ drop (Suc ?p + n) (ucRTUBuf s1)
    = take ?p (ucRTUBuf s) @ take (Suc n) (drop ?i (ucBuffer s)) @ drop (?p + Suc n) (ucRTUBuf s)"
    using len Suc.prems by (simp add: s1_def take_Suc_update take_Suc_conv_app_nth flip: Cons_nth_drop_Suc)
  show ?case
    by (simp add: step d [unfolded buf last_time]) (simp add: s1_def algebra_simps)
qed

text \<open>
  A burst of \<open>n\<close> bytes on an idle line: the frame is in the buffer and the receiver waits
  for the silence that ends it.
\<close>

lemma rtu_deliver_idle:
  assumes "rtu_inv s" "bRxEnabled s" "rtu_eRcvState s = STATE_RX_IDLE"
    and "0 < n" "n \<le> 256" "uiRxBufferPos s + n \<le> BUF_SIZE"
  shows "serial_deliver xMBRTUReceiveFSM n s = Some (s\<lparr>
     uiRxBufferPos := uiRxBufferPos s + n,
     ucRTUBuf := take n (drop (uiRxBufferPos s) (ucBuffer s)) @ drop n (ucRTUBuf s),
     rtu_usRcvBufferPos := of_nat n, rtu_eRcvState := STATE_RX_RCV,
     bTimeoutEnable := True, os_ticks := os_ticks s + n, xTimeLast := rtu_last_time n s\<rparr>)"
proof -
  let ?i = "uiRxBufferPos s"
  obtain m where m: "n = Suc m" using assms(4) by (cases n) auto
  obtain t where t: "os_clock s (os_ticks s) = Some t"
    using assms(1) by (auto simp: rtu_inv_def port_ok_def)
  define s1 where "s1 = s\<lparr>uiRxBufferPos := Suc ?i, ucRTUBuf := (ucRTUBuf s)[0 := ucBuffer s ! ?i],
    rtu_usRcvBufferPos := 1, rtu_eRcvState := STATE_RX_RCV, bTimeoutEnable := True,
    os_ticks := Suc (os_ticks s), xTimeLast := t\<rparr>"
  have len: "length (ucBuffer s) = 513" "length (ucRTUBuf s) = 256"
    using assms(1) by (auto simp: rtu_inv_def port_ok_def)
  have step: "xMBRTUReceiveFSM s = Some (False, s1)"
    using assms t len by (simp add: rtu_fsm_defs array_simps s1_def rtu_inv_def)
  have inv1: "rtu_inv s1"
    using rtu_rx_step [of s] step assms by auto
  have d: "serial_deliver xMBRTUReceiveFSM m s1 = Some (s1\<lparr>
     uiRxBufferPos := uiRxBufferPos s1 + m,
     ucRTUBuf := take 1 (ucRTUBuf s1) @ take m (drop (Suc ?i) (ucBuffer s)) @ drop (1 + m) (ucRTUBuf s1),
     rtu_usRcvBufferPos := 1 + of_nat m, os_ticks := os_ticks s1 + m, xTimeLast := rtu_last_time m s1\<rparr>)"
    using rtu_deliver_rcv [OF inv1, of m] assms m by (simp add: s1_def)
  have last_time: "rtu_last_time m s1 = rtu_last_time n s"
    using t by (simp add: rtu_last_time_def s1_def m)
  have buf: "take 1 (ucRTUBuf s1) @ take m (drop (Suc ?i) (ucBuffer s)) @ drop (1 + m) (ucRTUBuf s1)
    = take n (drop ?i (ucBuffer s)) @ drop n (ucRTUBuf s)"
    using len assms m by (cases "ucRTUBuf s") (simp_all add: s1_def take_Suc flip: Cons_nth_drop_Suc)
  show ?thesis
    by (simp add: step m d [unfolded buf last_time m]) (simp add: s1_def)
qed

section \<open>Sending a frame\<close>

text \<open>What goes over an RTU line: the address, the PDU, and the CRC of both, low byte first.\<close>

definition rtu_wire :: "u8 \<Rightarrow> u8 list \<Rightarrow> u8 list" where
  "rtu_wire addr pdu =
     (let crc = usMBCRC16 (addr # pdu) in addr # pdu @ [lo8 crc, hi8 crc])"

lemma length_rtu_wire [simp]: "length (rtu_wire addr pdu) = length pdu + 3"
  by (simp add: rtu_wire_def Let_def)

lemma rtu_wire_crc: "usMBCRC16 (rtu_wire addr pdu) = 0"
  using usMBCRC16_residue [of "addr # pdu"] by (simp add: rtu_wire_def Let_def)

lemma rtu_send_state:
  assumes "length (ucRTUBuf s) = 256" "rtu_eRcvState s = STATE_RX_IDLE" "unat n \<le> 253"
  shows "eMBRTUSend a 1 n s = Some (MB_ENOERR, s\<lparr>
    ucRTUBuf := rtu_wire a (take (unat n) (tl (ucRTUBuf s))) @ drop (unat n + 3) (ucRTUBuf s),
    rtu_pucSndBufferCur := 0, rtu_usSndBufferCount := n + 3, rtu_eSndState := STATE_TX_XMIT,
    bRxEnabled := False, bTxEnabled := True, uiTxBufferPos := 0\<rparr>)"
proof -
  obtain x xs where buf: "ucRTUBuf s = x # xs" "length xs = 255"
    using assms(1) by (cases "ucRTUBuf s") auto
  let ?k = "unat n" and ?crc = "usMBCRC16 (a # take (unat n) xs)"
  have c1: "unat (1 + n) = Suc ?k" and c2: "unat (1 + n + 1) = Suc (Suc ?k)" and c3: "1 + n + 1 + 1 = n + 3"
    using assms(3) by (simp_all add: unat_u16_add)
  have p1: "array_put (ucRTUBuf s) (1 - 1 + 0) a = Some (a # xs)"
    by (simp add: buf array_simps)
  have p2: "array_slice (a # xs) (1 - 1) (Suc ?k) = Some (a # take ?k xs)"
    using assms(3) buf(2) by (simp add: array_simps)
  have p3: "array_put (a # xs) (Suc ?k) (lo8 ?crc) = Some (a # xs[?k := lo8 ?crc])"
    using assms(3) buf(2) by (simp add: array_simps)
  have p4: "array_put (a # xs[?k := lo8 ?crc]) (Suc (Suc ?k)) (hi8 ?crc)
      = Some (rtu_wire a (take ?k (tl (ucRTUBuf s))) @ drop (?k + 3) (ucRTUBuf s))"
    using assms(3) buf
    by (simp add: array_simps rtu_wire_def upd_conv_take_nth_drop Let_def numeral_3_eq_3)
  show ?thesis
    unfolding eMBRTUSend_def Let_def assms(2) p1 c1 Option.bind.bind_lunit p2 c2 p3 p4 c3
    by (simp add: vMBPortSerialEnable_def)
qed

lemma rtu_send_inv:
  assumes "rtu_inv s" "unat n \<le> 253" "eMBRTUSend a 1 n s = Some (e, s')"
  shows "rtu_inv s'"
proof (cases "rtu_eRcvState s = STATE_RX_IDLE")
  case True
  have "unat (n + 3) = unat n + 3"
    using assms(2) by (simp add: unat_u16_add)
  then show ?thesis
    using assms True rtu_send_state [of s n a]
    by (auto simp: rtu_inv_def port_ok_def)
next
  case False
  then show ?thesis using assms by (simp add: eMBRTUSend_def)
qed

lemma rtu_tx_loop:
  assumes "rtu_inv s" "bTxEnabled s"
  shows "serial_tx_loop xMBRTUTransmitFSM s = Some (s\<lparr>
    ucBuffer := take (uiTxBufferPos s) (ucBuffer s)
       @ take (unat (rtu_usSndBufferCount s)) (drop (rtu_pucSndBufferCur s) (ucRTUBuf s))
       @ drop (uiTxBufferPos s + unat (rtu_usSndBufferCount s)) (ucBuffer s),
    uiTxBufferPos := uiTxBufferPos s + unat (rtu_usSndBufferCount s),
    rtu_pucSndBufferCur := rtu_pucSndBufferCur s + unat (rtu_usSndBufferCount s),
    rtu_usSndBufferCount := 0, xEventInQueue := True, eQueuedEvent := EV_FRAME_SENT,
    bRxEnabled := True, uiRxBufferPos := 0, bTxEnabled := False,
    rtu_eSndState := STATE_TX_IDLE\<rparr>)"
  using assms
proof (induction "unat (rtu_usSndBufferCount s)" arbitrary: s)
  case 0
  then have "rtu_usSndBufferCount s = 0" by (metis unat_0 word_unat_eq_iff)
  moreover from this have "s\<lparr>rtu_usSndBufferCount := 0\<rparr> = s" by (cases s) simp
  moreover have "xMBRTUTransmitFSM s = Some (True, s\<lparr>xEventInQueue := True, eQueuedEvent := EV_FRAME_SENT,
      bRxEnabled := True, uiRxBufferPos := 0, bTxEnabled := False, rtu_eSndState := STATE_TX_IDLE\<rparr>)"
    using 0 calculation(1) by (simp add: rtu_inv_def rtu_fsm_defs)
  ultimately show ?case
    using 0 by (simp add: serial_tx_loop_step serial_tx_loop_stop)
next
  case (Suc k)
  let ?n = "rtu_usSndBufferCount s" and ?i = "uiTxBufferPos s" and ?c = "rtu_pucSndBufferCur s"
  have nz: "?n \<noteq> 0" and n: "unat ?n = Suc k"
    using Suc.hyps(2) by auto
  then have k: "unat (?n - 1) = k"
    by (simp add: unat_u16_pred)
  have len: "length (ucBuffer s) = 513" "length (ucRTUBuf s) = 256" "?i < 256" "?c < 256"
    "?i + Suc k \<le> 256" "?c + Suc k \<le> 256"
    using Suc.prems n by (auto simp: rtu_inv_def port_ok_def)
  define s1 where "s1 = s\<lparr>ucBuffer := (ucBuffer s)[?i := ucRTUBuf s ! ?c], uiTxBufferPos := Suc ?i,
    rtu_pucSndBufferCur := Suc ?c, rtu_usSndBufferCount := ?n - 1\<rparr>"
  have step: "xMBRTUTransmitFSM s = Some (False, s1)"
    using Suc.prems nz len by (simp add: rtu_fsm_defs rtu_inv_def array_simps s1_def)
  have inv1: "rtu_inv s1" "bTxEnabled s1"
    using rtu_tx_step [of s] step Suc.prems by (auto simp: s1_def)
  have "take (Suc ?i) (ucBuffer s1) @ take k (drop (Suc ?c) (ucRTUBuf s)) @ drop (Suc ?i + k) (ucBuffer s1)
      = take ?i (ucBuffer s) @ take (Suc k) (drop ?c (ucRTUBuf s)) @ drop (?i + Suc k) (ucBuffer s)"
    using len by (simp add: s1_def take_Suc_update flip: Cons_nth_drop_Suc)
  moreover have "serial_tx_loop xMBRTUTransmitFSM s = serial_tx_loop xMBRTUTransmitFSM s1"
    using Suc.prems(2) step by (rule serial_tx_loop_step)
  ultimately show ?case
    using Suc.hyps(1) [OF _ inv1] n k by (simp add: s1_def)
qed

text \<open>The whole of a transmission poll: the frame is written to the line in one piece.\<close>

lemma rtu_poll_send:
  assumes "rtu_inv s" "bTxEnabled s" "uiTxBufferPos s = 0" "os_write s = []"
  shows "\<exists>s'. xMBPortSerialPoll xMBRTUReceiveFSM xMBRTUTransmitFSM s = Some (True, s') \<and>
    os_sent s' = os_sent s
      @ take (unat (rtu_usSndBufferCount s)) (drop (rtu_pucSndBufferCur s) (ucRTUBuf s)) \<and>
    xEventInQueue s' \<and> eQueuedEvent s' = EV_FRAME_SENT \<and> bRxEnabled s' \<and> \<not> bTxEnabled s' \<and>
    uiRxBufferPos s' = 0 \<and> rtu_eRcvState s' = STATE_RX_IDLE \<and> \<not> bTimeoutEnable s' \<and> os_write s' = [] \<and>
    mb_rtu.more s' = mb_rtu.more s"
proof -
  have "rtu_eRcvState s = STATE_RX_IDLE" "\<not> bTimeoutEnable s" "\<not> bRxEnabled s" "length (ucBuffer s) = 513" "length (ucRTUBuf s) = 256"
    "rtu_pucSndBufferCur s + unat (rtu_usSndBufferCount s) \<le> 256"
    using assms by (auto simp: rtu_inv_def port_ok_def)
  then show ?thesis
    using assms rtu_tx_loop [OF assms(1,2)]
    by (simp add: xMBPortSerialPoll_def serial_rx_loop_stop prvbMBPortSerialWrite_def)
qed

section \<open>A frame on the line, polled and received\<close>

lemma rtu_poll_receive:
  assumes inv: "rtu_inv r" "bRxEnabled r" "uiRxBufferPos r = 0" "rtu_eRcvState r = STATE_RX_IDLE"
    and line: "os_line r = [LineBytes bs]" "bs \<noteq> []" "length bs \<le> 256"
  shows "xMBPortSerialPoll xMBRTUReceiveFSM xMBRTUTransmitFSM r = Some (True, r\<lparr>
    ucBuffer := bs @ drop (length bs) (ucBuffer r), os_line := [],
    ucRTUBuf := bs @ drop (length bs) (ucRTUBuf r),
    rtu_usRcvBufferPos := of_nat (length bs), rtu_eRcvState := STATE_RX_RCV,
    bTimeoutEnable := True, os_ticks := os_ticks r + length bs,
    xTimeLast := rtu_last_time (length bs) r, uiRxBufferPos := 0\<rparr>)"
proof -
  have len: "length (ucBuffer r) = 513" and tx: "\<not> bTxEnabled r"
    using inv by (auto simp: rtu_inv_def port_ok_def)
  define r1 where "r1 = r\<lparr>ucBuffer := bs @ drop (length bs) (ucBuffer r), os_line := []\<rparr>"
  have "rtu_inv r1" "bRxEnabled r1" "rtu_eRcvState r1 = STATE_RX_IDLE" "uiRxBufferPos r1 + length bs \<le> 513"
    using inv len line by (simp_all add: r1_def rtu.inv_buffer)
  from rtu_deliver_idle [OF this(1-3) _ line(3) this(4)] have
    d: "serial_deliver xMBRTUReceiveFSM (length bs) r1 = Some (r1\<lparr>
     uiRxBufferPos := length bs, ucRTUBuf := bs @ drop (length bs) (ucRTUBuf r),
     rtu_usRcvBufferPos := of_nat (length bs), rtu_eRcvState := STATE_RX_RCV,
     bTimeoutEnable := True, os_ticks := os_ticks r + length bs, xTimeLast := rtu_last_time (length bs) r\<rparr>)"
    using inv(3) line(2) by (simp add: r1_def rtu_last_time_def)
  show ?thesis
    using inv tx line(3) serial_poll_burst [OF inv(2) line(1,2) _ d [unfolded r1_def]] by simp
qed

text \<open>The checks of \<^verbatim>\<open>eMBRTUReceive\<close> on a buffer that holds the received bytes \<open>bs\<close>.\<close>

lemma rtu_receive_bytes:
  assumes "take (length bs) (ucRTUBuf s) = bs" "length (ucRTUBuf s) = 256"
    "rtu_usRcvBufferPos s = of_nat (length bs)" "length bs < 256"
  shows "eMBRTUReceive s =
    Some (if 4 \<le> length bs \<and> usMBCRC16 bs = 0 then Inr (hd bs, 1, of_nat (length bs) - 3) else Inl MB_EIO)"
proof -
  have pos: "unat (rtu_usRcvBufferPos s) = length bs"
    using assms(3,4) by (simp add: unat_of_nat)
  have "array_slice (ucRTUBuf s) 0 (length bs) = Some bs"
    using assms by (simp add: array_simps)
  moreover have "bs \<noteq> [] \<Longrightarrow> array_get (ucRTUBuf s) 0 = Some (hd bs)"
    using assms by (cases bs; cases "ucRTUBuf s") (auto simp: array_simps)
  moreover have "rtu_usRcvBufferPos s < 256" "4 \<le> rtu_usRcvBufferPos s \<longleftrightarrow> 4 \<le> length bs"
    using assms(4) pos by (simp_all add: word_less_nat_alt word_le_nat_alt)
  ultimately show ?thesis
    using pos assms(3) by (cases "bs = []") (auto simp: eMBRTUReceive_def)
qed

text \<open>
  A burst of bytes followed by silence: the poll collects it, the timer posts
  \<^verbatim>\<open>EV_FRAME_RECEIVED\<close>, and the bytes are in the frame buffer.
\<close>

definition rtu_listening :: "'a mb_rtu_scheme \<Rightarrow> bool" where
  "rtu_listening r \<longleftrightarrow>
     rtu_inv r \<and> bRxEnabled r \<and> uiRxBufferPos r = 0 \<and> rtu_eRcvState r = STATE_RX_IDLE"

lemma rtu_receive_line:
  assumes r: "rtu_listening r" and bs: "bs \<noteq> []" "length bs \<le> 256"
  shows "\<exists>r1 r2. xMBPortSerialPoll xMBRTUReceiveFSM xMBRTUTransmitFSM (r\<lparr>os_line := [LineBytes bs]\<rparr>)
      = Some (True, r1) \<and> xMBRTUTimerT35Expired r1 = Some (True, r2) \<and>
    xEventInQueue r2 \<and> eQueuedEvent r2 = EV_FRAME_RECEIVED \<and>
    ucRTUBuf r2 = bs @ drop (length bs) (ucRTUBuf r) \<and> length (ucRTUBuf r2) = 256 \<and>
    rtu_usRcvBufferPos r2 = of_nat (length bs)"
proof -
  let ?r = "r\<lparr>os_line := [LineBytes bs]\<rparr>"
  have inv: "rtu_inv ?r" "length (ucRTUBuf r) = 256"
    using r by (auto simp: rtu_listening_def rtu_inv_def port_ok_def)
  show ?thesis
    using rtu_poll_receive [OF inv(1), of bs] r bs inv(2) by (simp add: rtu_listening_def rtu_fsm_defs)
qed

section \<open>Properties\<close>

text \<open>
  C19: on the RTU line, polling never aborts: from every state that satisfies the invariant,
  whatever bytes, errors and timeouts the line delivers, \<^verbatim>\<open>xMBPortEventGet\<close> with the RTU callbacks
  returns, without a failed assertion or an access outside a buffer, in a state that
  satisfies the invariant again.
\<close>

theorem rtu_event_get_safe:
  assumes "rtu_inv s" "rx_ready s"
  shows "\<exists>e s'. xMBPortEventGet xMBRTUReceiveFSM xMBRTUTransmitFSM xMBRTUTimerT35Expired s = Some (e, s')
    \<and> rtu_inv s' \<and> rx_ready s'"
  using assms by (rule rtu.event_get_total)

text \<open>A station that listens on a quiet line, for the examples below.\<close>

definition rtu_idle :: mb_rtu where
  "rtu_idle = \<lparr>iSerialFd = 3, bRxEnabled = True, bTxEnabled = False, ulTimeoutMs = 1,
     ucBuffer = replicate 513 0, uiRxBufferPos = 0, uiTxBufferPos = 0, xOldTIO = ([], 0),
     eQueuedEvent = EV_READY, xEventInQueue = False, ulTimeOut = 1, bTimeoutEnable = False,
     xTimeLast = \<lparr>tv_sec = 0, tv_usec = 0\<rparr>, os_line = [], os_write = [], os_sent = [],
     os_clock = (\<lambda>n. Some \<lparr>tv_sec = int n, tv_usec = 0\<rparr>), os_ticks = 0, os_tio = ([], 0),
     rtu_eSndState = STATE_TX_IDLE, rtu_eRcvState = STATE_RX_IDLE, ucRTUBuf = replicate 256 0,
     rtu_pucSndBufferCur = 0, rtu_usSndBufferCount = 0, rtu_usRcvBufferPos = 0\<rparr>"

lemma rtu_idle_listening: "rtu_listening rtu_idle"
  by (simp add: rtu_listening_def rtu_idle_def rtu_inv_def port_ok_def)

theorem rtu_event_get_safe_witness:
  "\<exists>e s'. xMBPortEventGet xMBRTUReceiveFSM xMBRTUTransmitFSM xMBRTUTimerT35Expired
      (rtu_idle\<lparr>os_line := [LineBytes [1, 2, 3], LineEintr, LineReadErr]\<rparr>) = Some (e, s')
    \<and> rtu_inv s' \<and> rx_ready s'"
  by (rule rtu_event_get_safe) (simp_all add: rtu_idle_def rtu_inv_def port_ok_def rx_ready_def)

text \<open>
  C16: what one RTU station sends, another receives. For an address and a PDU of 1 to 252
  bytes, \<^verbatim>\<open>eMBRTUSend\<close> and the transmit poll write a frame to the line; those bytes make
  the other station, once the line is silent, post \<^verbatim>\<open>EV_FRAME_RECEIVED\<close>, and \<^verbatim>\<open>eMBRTUReceive\<close>
  then returns that address and that PDU.
\<close>

theorem rtu_loopback:
  assumes s: "rtu_listening s" "os_write s = []" "os_sent s = []"
    and n: "1 \<le> unat n" "unat n \<le> 252" and r: "rtu_listening r"
  shows "\<exists>s1 s2 r1 r2. eMBRTUSend a 1 n s = Some (MB_ENOERR, s1) \<and>
    xMBPortSerialPoll xMBRTUReceiveFSM xMBRTUTransmitFSM s1 = Some (True, s2) \<and>
    xMBPortSerialPoll xMBRTUReceiveFSM xMBRTUTransmitFSM (r\<lparr>os_line := [LineBytes (os_sent s2)]\<rparr>)
      = Some (True, r1) \<and>
    xMBRTUTimerT35Expired r1 = Some (True, r2) \<and>
    xEventInQueue r2 \<and> eQueuedEvent r2 = EV_FRAME_RECEIVED \<and>
    eMBRTUReceive r2 = Some (Inr (a, 1, n)) \<and>
    take (unat n) (tl (ucRTUBuf r2)) = take (unat n) (tl (ucRTUBuf s))"
proof -
  let ?pdu = "take (unat n) (tl (ucRTUBuf s))" and ?k = "unat n"
  have inv: "rtu_inv s" "rtu_eRcvState s = STATE_RX_IDLE" and len: "length (ucRTUBuf s) = 256"
    using s by (auto simp: rtu_listening_def rtu_inv_def)
  then have pdu: "length ?pdu = ?k" using n by simp
  obtain s1 where s1: "eMBRTUSend a 1 n s = Some (MB_ENOERR, s1)"
    "ucRTUBuf s1 = rtu_wire a ?pdu @ drop (?k + 3) (ucRTUBuf s)"
    "bTxEnabled s1" "uiTxBufferPos s1 = 0" "os_write s1 = []" "os_sent s1 = []"
    "rtu_pucSndBufferCur s1 = 0" "unat (rtu_usSndBufferCount s1) = ?k + 3"
    using rtu_send_state [OF len inv(2), of n a] n s by (auto simp: unat_u16_add)
  have "rtu_inv s1" using rtu_send_inv [OF inv(1) _ s1(1)] n by simp
  from rtu_poll_send [OF this s1(3,4,5)] obtain s2 where
    s2: "xMBPortSerialPoll xMBRTUReceiveFSM xMBRTUTransmitFSM s1 = Some (True, s2)"
      "os_sent s2 = rtu_wire a ?pdu"
    using s1 pdu by auto
  have "rtu_wire a ?pdu \<noteq> []" "length (rtu_wire a ?pdu) \<le> 256"
    using n by (auto simp: rtu_wire_def Let_def)
  from rtu_receive_line [OF r this] obtain r1 r2 where
    poll: "xMBPortSerialPoll xMBRTUReceiveFSM xMBRTUTransmitFSM (r\<lparr>os_line := [LineBytes (rtu_wire a ?pdu)]\<rparr>)
      = Some (True, r1)" "xMBRTUTimerT35Expired r1 = Some (True, r2)"
    and ev: "xEventInQueue r2" "eQueuedEvent r2 = EV_FRAME_RECEIVED"
    and r2: "ucRTUBuf r2 = rtu_wire a ?pdu @ drop (length (rtu_wire a ?pdu)) (ucRTUBuf r)"
      "length (ucRTUBuf r2) = 256" "rtu_usRcvBufferPos r2 = of_nat (length (rtu_wire a ?pdu))"
    by blast
  have "hd (rtu_wire a ?pdu) = a" "of_nat (?k + 3) - 3 = n"
    by (simp_all add: rtu_wire_def Let_def)
  then have "eMBRTUReceive r2 = Some (Inr (a, 1, n))"
    using rtu_receive_bytes [of "rtu_wire a ?pdu" r2] r2 pdu n by (simp add: rtu_wire_crc)
  moreover have "take ?k (tl (ucRTUBuf r2)) = ?pdu"
    using r2 pdu by (simp add: rtu_wire_def Let_def)
  ultimately show ?thesis using s1(1) s2 poll ev by auto
qed

theorem rtu_loopback_witness:
  "\<exists>s1 s2 r1 r2. eMBRTUSend 17 1 2 (rtu_idle\<lparr>ucRTUBuf := [0, 7, 9] @ replicate 253 0\<rparr>)
      = Some (MB_ENOERR, s1) \<and>
    xMBPortSerialPoll xMBRTUReceiveFSM xMBRTUTransmitFSM s1 = Some (True, s2) \<and>
    xMBPortSerialPoll xMBRTUReceiveFSM xMBRTUTransmitFSM (rtu_idle\<lparr>os_line := [LineBytes (os_sent s2)]\<rparr>)
      = Some (True, r1) \<and>
    xMBRTUTimerT35Expired r1 = Some (True, r2) \<and>
    xEventInQueue r2 \<and> eQueuedEvent r2 = EV_FRAME_RECEIVED \<and>
    eMBRTUReceive r2 = Some (Inr (17, 1, 2)) \<and> take 2 (tl (ucRTUBuf r2)) = [7, 9]"
  using rtu_loopback [of "rtu_idle\<lparr>ucRTUBuf := [0, 7, 9] @ replicate 253 0\<rparr>" 2 rtu_idle 17]
    rtu_idle_listening
  by (simp add: rtu_listening_def rtu_idle_def rtu_inv_def port_ok_def)

text \<open>
  C20: a damaged frame is rejected: if two adjacent bytes of a frame (the CRC included) are
  changed on the line in any way, the receiver reports \<^verbatim>\<open>MB_EIO\<close>.
\<close>

theorem rtu_damaged_frame:
  assumes r: "rtu_listening r" and wire: "rtu_wire a pdu = xs @ b1 # b2 # ys"
    and dmg: "(b1, b2) \<noteq> (c1, c2)" and len: "length pdu \<le> 252"
  shows "\<exists>r1 r2. xMBPortSerialPoll xMBRTUReceiveFSM xMBRTUTransmitFSM
      (r\<lparr>os_line := [LineBytes (xs @ c1 # c2 # ys)]\<rparr>) = Some (True, r1) \<and>
    xMBRTUTimerT35Expired r1 = Some (True, r2) \<and> eMBRTUReceive r2 = Some (Inl MB_EIO)"
proof -
  let ?bs = "xs @ c1 # c2 # ys"
  have "length ?bs = length pdu + 3"
    using wire length_rtu_wire [of a pdu] by simp
  moreover have "usMBCRC16 ?bs \<noteq> 0"
    using usMBCRC16_burst [OF dmg, of xs ys] rtu_wire_crc [of a pdu] wire by simp
  ultimately have bs: "?bs \<noteq> []" "length ?bs \<le> 255" "usMBCRC16 ?bs \<noteq> 0"
    using len by simp_all
  then have "length ?bs \<le> 256" by simp
  from rtu_receive_line [OF r bs(1) this] obtain r1 r2 where
    poll: "xMBPortSerialPoll xMBRTUReceiveFSM xMBRTUTransmitFSM (r\<lparr>os_line := [LineBytes ?bs]\<rparr>)
      = Some (True, r1)" "xMBRTUTimerT35Expired r1 = Some (True, r2)"
    and r2: "ucRTUBuf r2 = ?bs @ drop (length ?bs) (ucRTUBuf r)" "length (ucRTUBuf r2) = 256"
      "rtu_usRcvBufferPos r2 = of_nat (length ?bs)"
    by blast
  have "eMBRTUReceive r2 = Some (Inl MB_EIO)"
    using rtu_receive_bytes [of ?bs r2] r2 bs by simp
  then show ?thesis using poll by blast
qed

theorem rtu_damaged_frame_witness:
  "\<exists>r1 r2. xMBPortSerialPoll xMBRTUReceiveFSM xMBRTUTransmitFSM
      (rtu_idle\<lparr>os_line := [LineBytes ([17] @ 7 # 8 # [lo8 (usMBCRC16 [17, 7, 9]), hi8 (usMBCRC16 [17, 7, 9])])]\<rparr>)
        = Some (True, r1) \<and>
    xMBRTUTimerT35Expired r1 = Some (True, r2) \<and> eMBRTUReceive r2 = Some (Inl MB_EIO)"
  by (rule rtu_damaged_frame [where a = 17 and pdu = "[7, 9]" and ?b1.0 = 7 and ?b2.0 = 9])
     (simp_all add: rtu_idle_listening rtu_wire_def Let_def)

text \<open>
  C28: the longest frame the serial line allows, 256 bytes, stops the receiver: the state
  machine stores all of it and posts \<^verbatim>\<open>EV_FRAME_RECEIVED\<close>, and the assertion
  \<^verbatim>\<open>usRcvBufferPos < MB_SER_PDU_SIZE_MAX\<close> at the head of \<^verbatim>\<open>eMBRTUReceive\<close> then fails, although the
  frame carries a correct CRC.
\<close>

theorem rtu_longest_frame_aborts:
  assumes r: "rtu_listening r" and len: "length pdu = 253"
  shows "\<exists>r1 r2. xMBPortSerialPoll xMBRTUReceiveFSM xMBRTUTransmitFSM
      (r\<lparr>os_line := [LineBytes (rtu_wire a pdu)]\<rparr>) = Some (True, r1) \<and>
    xMBRTUTimerT35Expired r1 = Some (True, r2) \<and> eQueuedEvent r2 = EV_FRAME_RECEIVED \<and>
    ucRTUBuf r2 = rtu_wire a pdu \<and> usMBCRC16 (ucRTUBuf r2) = 0 \<and> eMBRTUReceive r2 = None"
proof -
  have "rtu_wire a pdu \<noteq> []" "length (rtu_wire a pdu) = 256"
    using len by (auto simp: rtu_wire_def Let_def)
  moreover from this have "rtu_wire a pdu @ drop (length (rtu_wire a pdu)) (ucRTUBuf r) = rtu_wire a pdu"
    using r by (simp add: rtu_listening_def rtu_inv_def)
  ultimately obtain r1 r2 where
    poll: "xMBPortSerialPoll xMBRTUReceiveFSM xMBRTUTransmitFSM (r\<lparr>os_line := [LineBytes (rtu_wire a pdu)]\<rparr>)
      = Some (True, r1)" "xMBRTUTimerT35Expired r1 = Some (True, r2)" "eQueuedEvent r2 = EV_FRAME_RECEIVED"
    and r2: "ucRTUBuf r2 = rtu_wire a pdu" "rtu_usRcvBufferPos r2 = 256"
    using rtu_receive_line [OF r, of "rtu_wire a pdu"] by auto
  then have "eMBRTUReceive r2 = None" by (simp add: eMBRTUReceive_def)
  then show ?thesis using poll r2 rtu_wire_crc by auto
qed

theorem rtu_longest_frame_aborts_witness:
  "\<exists>r1 r2. xMBPortSerialPoll xMBRTUReceiveFSM xMBRTUTransmitFSM
      (rtu_idle\<lparr>os_line := [LineBytes (rtu_wire 17 (replicate 253 5))]\<rparr>) = Some (True, r1) \<and>
    xMBRTUTimerT35Expired r1 = Some (True, r2) \<and> eQueuedEvent r2 = EV_FRAME_RECEIVED \<and>
    ucRTUBuf r2 = rtu_wire 17 (replicate 253 5) \<and> usMBCRC16 (ucRTUBuf r2) = 0 \<and> eMBRTUReceive r2 = None"
  by (rule rtu_longest_frame_aborts [OF rtu_idle_listening]) simp

text \<open>
  stopping the layer while an answer waits to be sent and starting it again leaves
  \<^verbatim>\<open>eSndState\<close> at \<^verbatim>\<open>STATE_TX_XMIT\<close>; the first byte received afterwards trips the assertion of
  \<^verbatim>\<open>xMBRTUReceiveFSM\<close>.
\<close>

theorem rtu_restart_aborts:
  assumes s: "rtu_listening s" and n: "unat n \<le> 253"
  shows "\<exists>s1 s2 s3. eMBRTUSend a 1 n s = Some (MB_ENOERR, s1) \<and> eMBRTUStop s1 = Some s2 \<and>
    eMBRTUStart s2 = Some s3 \<and> bRxEnabled s3 \<and> xMBRTUReceiveFSM s3 = None"
proof -
  have buf: "length (ucRTUBuf s) = 256" "rtu_eRcvState s = STATE_RX_IDLE"
    using s by (simp_all add: rtu_listening_def rtu_inv_def)
  obtain t where "os_clock s (os_ticks s) = Some t"
    using s by (auto simp: rtu_listening_def rtu_inv_def port_ok_def)
  then show ?thesis
    unfolding rtu_send_state [OF buf n]
    by (simp add: eMBRTUStop_def eMBRTUStart_def rtu_fsm_defs)
qed

theorem rtu_restart_aborts_witness:
  "\<exists>s1 s2 s3. eMBRTUSend 17 1 2 rtu_idle = Some (MB_ENOERR, s1) \<and> eMBRTUStop s1 = Some s2 \<and>
    eMBRTUStart s2 = Some s3 \<and> bRxEnabled s3 \<and> xMBRTUReceiveFSM s3 = None"
  by (rule rtu_restart_aborts [OF rtu_idle_listening]) simp

end
