(* ===== verification/MbAscii.thy ===== *)
theory MbAscii
  imports MbRtu
begin

text \<open>
  The ASCII transmission layer, \<^verbatim>\<open>modbus/ascii/mbascii.c\<close>. Its static variables extend those
  of the RTU layer, whose buffer it shares: \<^verbatim>\<open>ucASCIIBuf\<close> is \<^verbatim>\<open>ucRTUBuf\<close>. The enumerations
  \<^verbatim>\<open>eMBRcvState\<close> and \<^verbatim>\<open>eMBSndState\<close> of this file, and their constructors, carry a prefix because
  \<^verbatim>\<open>mbrtu.c\<close> has others of the same names.
\<close>

datatype eMBASCIIRcvState = ASC_RX_IDLE | ASC_RX_RCV | ASC_RX_WAIT_EOF

datatype eMBASCIISndState = ASC_TX_IDLE | ASC_TX_START | ASC_TX_DATA | ASC_TX_END | ASC_TX_NOTIFY

datatype eMBBytePos = BYTE_HIGH_NIBBLE | BYTE_LOW_NIBBLE

abbreviation (input) MB_ASCII_START :: u8 where "MB_ASCII_START \<equiv> 58"
abbreviation (input) MB_ASCII_DEFAULT_CR :: u8 where "MB_ASCII_DEFAULT_CR \<equiv> 13"
abbreviation (input) MB_ASCII_DEFAULT_LF :: u8 where "MB_ASCII_DEFAULT_LF \<equiv> 10"
abbreviation (input) MB_ASCII_PDU_SIZE_MIN :: u16 where "MB_ASCII_PDU_SIZE_MIN \<equiv> 3"
abbreviation (input) MB_ASCII_PDU_SIZE_MAX :: u16 where "MB_ASCII_PDU_SIZE_MAX \<equiv> 256"
abbreviation (input) MB_SER_PDU_SIZE_LRC :: u16 where "MB_SER_PDU_SIZE_LRC \<equiv> 1"

record mb_ascii = mb_rtu +
  asc_eSndState :: eMBASCIISndState
  asc_eRcvState :: eMBASCIIRcvState
  asc_usRcvBufferPos :: u16
  eBytePos :: eMBBytePos
  asc_pucSndBufferCur :: nat
  asc_usSndBufferCount :: u16
  ucMBLFCharacter :: u8

definition prvucMBint8_t2BIN :: "u8 \<Rightarrow> u8" where
  "prvucMBint8_t2BIN ucCharacter =
     (if 48 \<le> ucCharacter \<and> ucCharacter \<le> 57 then ucCharacter - 48
      else if 65 \<le> ucCharacter \<and> ucCharacter \<le> 70 then ucCharacter - 65 + 0x0a
      else 0xff)"

definition prvucMBBIN2int8_t :: "u8 \<Rightarrow> u8 option" where
  "prvucMBBIN2int8_t ucByte =
     (if ucByte \<le> 0x09 then Some (48 + ucByte)
      else if 0x0a \<le> ucByte \<and> ucByte \<le> 0x0f then Some (ucByte - 0x0a + 65)
      else None)"

definition prvucMBLRC :: "u8 list \<Rightarrow> u8" where
  "prvucMBLRC pucFrame = - foldl (+) 0 pucFrame"

text \<open>
  \<^verbatim>\<open>eMBASCIIInit\<close>; the argument \<open>timeout_sec\<close> is \<^verbatim>\<open>CONFIG_MB_ASCII_TIMEOUT_SEC\<close>. The product is
  computed in 32 bits and passed as a 16-bit argument.
\<close>

definition eMBASCIIInit ::
    "u32 \<Rightarrow> serial_dev \<Rightarrow> u8 \<Rightarrow> u8 \<Rightarrow> u32 \<Rightarrow> eMBParity \<Rightarrow> 'a mb_ascii_scheme
     \<Rightarrow> (eMBErrorCode \<times> 'a mb_ascii_scheme) option" where
  "eMBASCIIInit timeout_sec dev ucSlaveAddress ucPort ulBaudRate eParity s = do {
     let s = s\<lparr>ucMBLFCharacter := MB_ASCII_DEFAULT_LF\<rparr>;
     (ok, s) \<leftarrow> xMBPortSerialInit dev ucPort ulBaudRate 7 eParity s;
     if \<not> ok then Some (MB_EPORTERR, s)
     else let (ok, s) = xMBPortTimersInit (ucast (timeout_sec * 20000)) s
          in Some (if ok then MB_ENOERR else MB_EPORTERR, s)
   }"

definition eMBASCIIStart :: "'a mb_ascii_scheme \<Rightarrow> 'a mb_ascii_scheme option" where
  "eMBASCIIStart s = do {
     s \<leftarrow> vMBPortSerialEnable True False s;
     let s = s\<lparr>asc_eRcvState := ASC_RX_IDLE\<rparr>;
     Some (snd (xMBPortEventPost EV_READY s))
   }"

definition eMBASCIIStop :: "'a mb_ascii_scheme \<Rightarrow> 'a mb_ascii_scheme option" where
  "eMBASCIIStop s = do {
     s \<leftarrow> vMBPortSerialEnable False False s;
     Some (vMBPortTimersDisable s)
   }"

definition eMBASCIIReceive :: "'a mb_ascii_scheme \<Rightarrow> (eMBErrorCode + u8 \<times> nat \<times> u16) option" where
  "eMBASCIIReceive s = do {
     DEBUGASSERT (asc_usRcvBufferPos s < MB_ASCII_PDU_SIZE_MAX);
     if MB_ASCII_PDU_SIZE_MIN \<le> asc_usRcvBufferPos s then do {
       frame \<leftarrow> array_slice (ucRTUBuf s) 0 (unat (asc_usRcvBufferPos s));
       if prvucMBLRC frame = 0 then do {
         ucRcvAddress \<leftarrow> array_get (ucRTUBuf s) MB_SER_PDU_ADDR_OFF;
         Some (Inr (ucRcvAddress, MB_SER_PDU_PDU_OFF, asc_usRcvBufferPos s - 1 - MB_SER_PDU_SIZE_LRC))
       } else Some (Inl MB_EIO)
     } else Some (Inl MB_EIO)
   }"

definition eMBASCIISend ::
    "u8 \<Rightarrow> nat \<Rightarrow> u16 \<Rightarrow> 'a mb_ascii_scheme \<Rightarrow> (eMBErrorCode \<times> 'a mb_ascii_scheme) option" where
  "eMBASCIISend ucSlaveAddress pucFrame usLength s =
     (if asc_eRcvState s = ASC_RX_IDLE then do {
        DEBUGASSERT (0 < pucFrame);
        let cur = pucFrame - 1;
        let count = (1 :: u16);
        buf \<leftarrow> array_put (ucRTUBuf s) (cur + MB_SER_PDU_ADDR_OFF) ucSlaveAddress;
        let count = count + usLength;
        frame \<leftarrow> array_slice buf cur (unat count);
        buf \<leftarrow> array_put buf (unat count) (prvucMBLRC frame);
        let count = count + 1;
        s \<leftarrow> vMBPortSerialEnable False True
               (s\<lparr>ucRTUBuf := buf, asc_pucSndBufferCur := cur, asc_usSndBufferCount := count,
                  asc_eSndState := ASC_TX_START\<rparr>);
        Some (MB_ENOERR, s)
      } else Some (MB_EIO, s))"

text \<open>The inner \<^verbatim>\<open>switch\<close> of the receiver: a data character.\<close>

definition ascii_rx_data :: "u8 \<Rightarrow> 'a mb_ascii_scheme \<Rightarrow> 'a mb_ascii_scheme option" where
  "ascii_rx_data ucByte s =
     (let ucResult = prvucMBint8_t2BIN ucByte; pos = unat (asc_usRcvBufferPos s) in
      case eBytePos s of
        BYTE_HIGH_NIBBLE \<Rightarrow>
          if asc_usRcvBufferPos s < MB_ASCII_PDU_SIZE_MAX then do {
            buf \<leftarrow> array_put (ucRTUBuf s) pos (push_bit 4 ucResult);
            Some (s\<lparr>ucRTUBuf := buf, eBytePos := BYTE_LOW_NIBBLE\<rparr>)
          } else Some (vMBPortTimersDisable (s\<lparr>asc_eRcvState := ASC_RX_IDLE\<rparr>))
      | BYTE_LOW_NIBBLE \<Rightarrow> do {
          b \<leftarrow> array_get (ucRTUBuf s) pos;
          buf \<leftarrow> array_put (ucRTUBuf s) pos (b OR ucResult);
          Some (s\<lparr>ucRTUBuf := buf, asc_usRcvBufferPos := asc_usRcvBufferPos s + 1,
                  eBytePos := BYTE_HIGH_NIBBLE\<rparr>)
        })"

definition xMBASCIIReceiveFSM :: "'a mb_ascii_scheme \<Rightarrow> (bool \<times> 'a mb_ascii_scheme) option" where
  "xMBASCIIReceiveFSM s = do {
     DEBUGASSERT (asc_eSndState s = ASC_TX_IDLE);
     (ucByte, s) \<leftarrow> xMBPortSerialGetByte s;
     (case asc_eRcvState s of
        ASC_RX_RCV \<Rightarrow> do {
          s \<leftarrow> vMBPortTimersEnable s;
          if ucByte = MB_ASCII_START
          then Some (False, s\<lparr>eBytePos := BYTE_HIGH_NIBBLE, asc_usRcvBufferPos := 0\<rparr>)
          else if ucByte = MB_ASCII_DEFAULT_CR
          then Some (False, s\<lparr>asc_eRcvState := ASC_RX_WAIT_EOF\<rparr>)
          else do { s \<leftarrow> ascii_rx_data ucByte s; Some (False, s) }
        }
      | ASC_RX_WAIT_EOF \<Rightarrow>
          if ucByte = ucMBLFCharacter s
          then Some (xMBPortEventPost EV_FRAME_RECEIVED
                       ((vMBPortTimersDisable s)\<lparr>asc_eRcvState := ASC_RX_IDLE\<rparr>))
          else if ucByte = MB_ASCII_START
          then do {
            s \<leftarrow> vMBPortTimersEnable
                   (s\<lparr>eBytePos := BYTE_HIGH_NIBBLE, asc_usRcvBufferPos := 0, asc_eRcvState := ASC_RX_RCV\<rparr>);
            Some (False, s)
          }
          else Some (False, s\<lparr>asc_eRcvState := ASC_RX_IDLE\<rparr>)
      | ASC_RX_IDLE \<Rightarrow>
          if ucByte = MB_ASCII_START then do {
            s \<leftarrow> vMBPortTimersEnable s;
            Some (False, s\<lparr>asc_usRcvBufferPos := 0, eBytePos := BYTE_HIGH_NIBBLE,
                           asc_eRcvState := ASC_RX_RCV\<rparr>)
          } else Some (False, s))
   }"

definition xMBASCIITransmitFSM :: "'a mb_ascii_scheme \<Rightarrow> (bool \<times> 'a mb_ascii_scheme) option" where
  "xMBASCIITransmitFSM s = do {
     DEBUGASSERT (asc_eRcvState s = ASC_RX_IDLE);
     (case asc_eSndState s of
        ASC_TX_START \<Rightarrow> do {
          s \<leftarrow> xMBPortSerialPutByte MB_ASCII_START s;
          Some (False, s\<lparr>asc_eSndState := ASC_TX_DATA, eBytePos := BYTE_HIGH_NIBBLE\<rparr>)
        }
      | ASC_TX_DATA \<Rightarrow>
          if 0 < asc_usSndBufferCount s then do {
            b \<leftarrow> array_get (ucRTUBuf s) (asc_pucSndBufferCur s);
            (case eBytePos s of
               BYTE_HIGH_NIBBLE \<Rightarrow> do {
                 c \<leftarrow> prvucMBBIN2int8_t (drop_bit 4 b);
                 s \<leftarrow> xMBPortSerialPutByte c s;
                 Some (False, s\<lparr>eBytePos := BYTE_LOW_NIBBLE\<rparr>)
               }
             | BYTE_LOW_NIBBLE \<Rightarrow> do {
                 c \<leftarrow> prvucMBBIN2int8_t (b AND 0x0f);
                 s \<leftarrow> xMBPortSerialPutByte c s;
                 Some (False, s\<lparr>asc_pucSndBufferCur := asc_pucSndBufferCur s + 1,
                                eBytePos := BYTE_HIGH_NIBBLE,
                                asc_usSndBufferCount := asc_usSndBufferCount s - 1\<rparr>)
               })
          } else do {
            s \<leftarrow> xMBPortSerialPutByte MB_ASCII_DEFAULT_CR s;
            Some (False, s\<lparr>asc_eSndState := ASC_TX_END\<rparr>)
          }
      | ASC_TX_END \<Rightarrow> do {
          s \<leftarrow> xMBPortSerialPutByte (ucMBLFCharacter s) s;
          Some (False, s\<lparr>asc_eSndState := ASC_TX_NOTIFY\<rparr>)
        }
      | ASC_TX_NOTIFY \<Rightarrow> do {
          let (xNeedPoll, s) = xMBPortEventPost EV_FRAME_SENT (s\<lparr>asc_eSndState := ASC_TX_IDLE\<rparr>);
          s \<leftarrow> vMBPortSerialEnable True False s;
          Some (xNeedPoll, s\<lparr>asc_eSndState := ASC_TX_IDLE\<rparr>)
        }
      | ASC_TX_IDLE \<Rightarrow> do {
          s \<leftarrow> vMBPortSerialEnable True False s;
          Some (False, s)
        })
   }"

definition xMBASCIITimerT1SExpired :: "'a mb_ascii_scheme \<Rightarrow> (bool \<times> 'a mb_ascii_scheme) option" where
  "xMBASCIITimerT1SExpired s = do {
     s \<leftarrow> (case asc_eRcvState s of
         ASC_RX_RCV \<Rightarrow> Some (s\<lparr>asc_eRcvState := ASC_RX_IDLE\<rparr>)
       | ASC_RX_WAIT_EOF \<Rightarrow> Some (s\<lparr>asc_eRcvState := ASC_RX_IDLE\<rparr>)
       | ASC_RX_IDLE \<Rightarrow> None);
     Some (False, vMBPortTimersDisable s)
   }"

section \<open>The invariant of the layer\<close>

text \<open>
  The steps an enabled transmitter still has to take; every step but the last one puts a
  byte into the port's buffer.
\<close>

fun ascii_steps :: "eMBASCIISndState \<Rightarrow> eMBBytePos \<Rightarrow> nat \<Rightarrow> nat" where
  "ascii_steps ASC_TX_IDLE p n = 0"
| "ascii_steps ASC_TX_START p n = 2 * n + 4"
| "ascii_steps ASC_TX_DATA BYTE_HIGH_NIBBLE n = 2 * n + 3"
| "ascii_steps ASC_TX_DATA BYTE_LOW_NIBBLE n = 2 * n + 2"
| "ascii_steps ASC_TX_END p n = 2"
| "ascii_steps ASC_TX_NOTIFY p n = 1"

definition ascii_tx_left :: "'a mb_ascii_scheme \<Rightarrow> nat" where
  "ascii_tx_left s = ascii_steps (asc_eSndState s) (eBytePos s) (unat (asc_usSndBufferCount s))"

definition ascii_inv :: "'a mb_ascii_scheme \<Rightarrow> bool" where
  "ascii_inv s \<longleftrightarrow>
     port_ok s \<and> length (ucRTUBuf s) = 256 \<and> asc_usRcvBufferPos s \<le> MB_ASCII_PDU_SIZE_MAX \<and>
     (bRxEnabled s \<longrightarrow> \<not> bTxEnabled s \<and> asc_eSndState s = ASC_TX_IDLE) \<and>
     (asc_eRcvState s = ASC_RX_RCV \<and> eBytePos s = BYTE_LOW_NIBBLE \<longrightarrow>
        asc_usRcvBufferPos s < MB_ASCII_PDU_SIZE_MAX) \<and>
     (bTxEnabled s \<longrightarrow>
        asc_eRcvState s = ASC_RX_IDLE \<and> asc_eSndState s \<noteq> ASC_TX_IDLE \<and>
        uiTxBufferPos s + ascii_tx_left s \<le> Suc BUF_SIZE \<and>
        asc_pucSndBufferCur s + unat (asc_usSndBufferCount s) \<le> 256 \<and>
        (asc_eSndState s = ASC_TX_DATA \<and> eBytePos s = BYTE_LOW_NIBBLE \<longrightarrow> 0 < asc_usSndBufferCount s))"

lemmas ascii_fsm_defs =
  xMBASCIIReceiveFSM_def xMBASCIITransmitFSM_def xMBASCIITimerT1SExpired_def ascii_rx_data_def
  xMBPortSerialGetByte_def xMBPortSerialPutByte_def vMBPortSerialEnable_def vMBPortTimersEnable_def
  vMBPortTimersDisable_def xMBPortEventPost_def

lemma ascii_rx_step:
  assumes "ascii_inv s" "bRxEnabled s" "uiRxBufferPos s < BUF_SIZE"
  shows "\<exists>b s'. xMBASCIIReceiveFSM s = Some (b, s') \<and> ascii_inv s' \<and> bRxEnabled s' \<and>
    os_line s' = os_line s \<and> uiRxBufferPos s' = Suc (uiRxBufferPos s)"
proof -
  obtain t where "os_clock s (os_ticks s) = Some t"
    using assms(1) by (auto simp: ascii_inv_def port_ok_def)
  then show ?thesis
    using assms
    by (cases "asc_eRcvState s"; cases "eBytePos s")
       (auto simp: ascii_inv_def port_ok_def ascii_fsm_defs array_simps u16_pos_Suc Let_def)
qed

section \<open>Hexadecimal digits\<close>

definition hex_digit :: "u8 \<Rightarrow> u8" where
  "hex_digit n = (if n \<le> 9 then 48 + n else n - 10 + 65)"

lemma nibble_cases:
  assumes "(n :: u8) \<le> 15"
  shows "n \<in> {0, 1, 2, 3, 4, 5, 6, 7, 8, 9, 10, 11, 12, 13, 14, 15}"
proof -
  obtain k where k: "n = word_of_nat k" "k \<le> 15"
    using assms that [of "unat n"] by (simp add: word_le_nat_alt)
  then have "k \<in> {0, 1, 2, 3, 4, 5, 6, 7, 8, 9, 10, 11, 12, 13, 14, 15}"
    unfolding insert_iff empty_iff by presburger
  then show ?thesis by (auto simp: k(1))
qed

lemma hex_digit_encode: "n \<le> 15 \<Longrightarrow> prvucMBBIN2int8_t n = Some (hex_digit n)"
  by (drule nibble_cases) (auto simp: prvucMBBIN2int8_t_def hex_digit_def)

lemma hex_digit_decode:
  "n \<le> 15 \<Longrightarrow> prvucMBint8_t2BIN (hex_digit n) = n \<and> hex_digit n \<noteq> 58 \<and> hex_digit n \<noteq> 13"
  by (drule nibble_cases) (auto simp: prvucMBint8_t2BIN_def hex_digit_def)

lemma high_nibble_le: "drop_bit 4 (b :: u8) \<le> 15"
proof -
  have "unat (drop_bit 4 b) = unat b div 16"
    by (simp add: drop_bit_eq_div unat_div)
  moreover have "unat b div 16 < 16" using unat_u8_less [of b] by (simp add: less_mult_imp_div_less)
  ultimately show ?thesis by (simp add: word_le_nat_alt)
qed

lemma low_nibble_le: "(b :: u8) AND 15 \<le> 15"
  by (rule word_and_le1)

lemma nibbles_join: "push_bit 4 (drop_bit 4 b) OR (b AND 15) = (b :: u8)"
proof -
  have "b AND 15 = take_bit 4 b"
    by (simp add: take_bit_eq_mask mask_eq_exp_minus_1)
  then show ?thesis
    by (simp only:) (rule bit_word_eqI, auto simp: bit_simps)
qed

lemmas hex_simps = hex_digit_encode hex_digit_decode high_nibble_le low_nibble_le nibbles_join

lemma ascii_tx_step:
  assumes "ascii_inv s" "bTxEnabled s"
  shows "\<exists>b s'. xMBASCIITransmitFSM s = Some (b, s') \<and> ascii_inv s' \<and> rx_ready s' \<and>
    (bTxEnabled s' \<longrightarrow> ascii_tx_left s' < ascii_tx_left s)"
proof -
  have nz: "0 < asc_usSndBufferCount s \<Longrightarrow>
      0 < unat (asc_usSndBufferCount s) \<and> unat (asc_usSndBufferCount s - 1) = unat (asc_usSndBufferCount s) - 1"
    by (metis less_irrefl unat_gt_0 unat_u16_pred)
  show ?thesis
    using assms nz
    by (cases "asc_eSndState s"; cases "eBytePos s"; cases "0 < asc_usSndBufferCount s")
       (auto simp: ascii_inv_def port_ok_def ascii_fsm_defs rx_ready_def ascii_tx_left_def array_simps
          hex_simps)
qed

interpretation ascii: mb_line ascii_inv xMBASCIIReceiveFSM xMBASCIITransmitFSM ascii_tx_left
proof (unfold_locales, goal_cases)
  case (1 s) then show ?case by (simp add: ascii_inv_def)
next
  case (2 s b l) then show ?case by (simp add: ascii_inv_def port_ok_def ascii_tx_left_def)
next
  case (3 s p) then show ?case by (simp add: ascii_inv_def port_ok_def ascii_tx_left_def)
next
  case (4 s w out) then show ?case by (simp add: ascii_inv_def port_ok_def ascii_tx_left_def)
next
  case (5 s) then show ?case by (rule ascii_rx_step)
next
  case (6 s) then show ?case by (rule ascii_tx_step)
qed

section \<open>A frame on the line\<close>

text \<open>What goes over an ASCII line: a colon, the digits of the address, the PDU and the LRC, CR and LF.\<close>

definition ascii_hex :: "u8 \<Rightarrow> u8 list" where
  "ascii_hex b = [hex_digit (drop_bit 4 b), hex_digit (b AND 15)]"

definition ascii_wire :: "u8 list \<Rightarrow> u8 \<Rightarrow> u8 list" where
  "ascii_wire data lf = 58 # concat (map ascii_hex data) @ [13, lf]"

lemma length_ascii_hex [simp]: "length (concat (map ascii_hex data)) = 2 * length data"
  by (induction data) (simp_all add: ascii_hex_def)

lemma length_ascii_wire [simp]: "length (ascii_wire data lf) = 2 * length data + 3"
  by (simp add: ascii_wire_def)

lemma prvucMBLRC_append: "prvucMBLRC (xs @ [prvucMBLRC xs]) = 0"
  by (simp add: prvucMBLRC_def)

text \<open>The receiver in the middle of a frame, with the data bytes \<open>bs\<close> collected so far.\<close>

definition ascii_collected :: "u8 list \<Rightarrow> 'a mb_ascii_scheme \<Rightarrow> bool" where
  "ascii_collected bs s \<longleftrightarrow>
     ascii_inv s \<and> bRxEnabled s \<and> asc_eRcvState s = ASC_RX_RCV \<and> eBytePos s = BYTE_HIGH_NIBBLE \<and>
     asc_usRcvBufferPos s = of_nat (length bs) \<and> length bs \<le> 256 \<and>
     take (length bs) (ucRTUBuf s) = bs"

text \<open>What the receiver leaves alone.\<close>

definition ascii_frame :: "'a mb_ascii_scheme \<Rightarrow> 'a mb_ascii_scheme \<Rightarrow> bool" where
  "ascii_frame s s' \<longleftrightarrow>
     ucBuffer s' = ucBuffer s \<and> os_line s' = os_line s \<and> ucMBLFCharacter s' = ucMBLFCharacter s"

lemma ascii_deliver_byte:
  assumes c: "ascii_collected bs s" and len: "length bs < 256" "Suc (uiRxBufferPos s) < BUF_SIZE"
    and buf: "ucBuffer s ! uiRxBufferPos s = hex_digit (drop_bit 4 b)"
      "ucBuffer s ! Suc (uiRxBufferPos s) = hex_digit (b AND 15)"
  shows "\<exists>s'. serial_deliver xMBASCIIReceiveFSM 2 s = Some s' \<and> ascii_collected (bs @ [b]) s' \<and>
    ascii_frame s s' \<and> uiRxBufferPos s' = Suc (Suc (uiRxBufferPos s))"
proof -
  have inv: "length (ucBuffer s) = 513" "length (ucRTUBuf s) = 256" "asc_eSndState s = ASC_TX_IDLE"
    using c by (auto simp: ascii_collected_def ascii_inv_def port_ok_def)
  obtain t t' where t: "os_clock s (os_ticks s) = Some t" "os_clock s (Suc (os_ticks s)) = Some t'"
    using c by (fastforce simp: ascii_collected_def ascii_inv_def port_ok_def)
  have pos: "unat (asc_usRcvBufferPos s) = length bs" "asc_usRcvBufferPos s < 256"
    using c len(1) by (simp_all add: ascii_collected_def unat_of_nat word_less_nat_alt)
  let ?h = "drop_bit 4 b" and ?l = "b AND 15"
  have hex: "prvucMBint8_t2BIN (hex_digit ?h) = ?h" "hex_digit ?h \<noteq> 58" "hex_digit ?h \<noteq> 13"
    "prvucMBint8_t2BIN (hex_digit ?l) = ?l" "hex_digit ?l \<noteq> 58" "hex_digit ?l \<noteq> 13"
    by (simp_all add: hex_simps)
  define s1 where "s1 = s\<lparr>uiRxBufferPos := Suc (uiRxBufferPos s), xTimeLast := t, bTimeoutEnable := True,
    os_ticks := Suc (os_ticks s), ucRTUBuf := (ucRTUBuf s)[length bs := push_bit 4 ?h],
    eBytePos := BYTE_LOW_NIBBLE\<rparr>"
  have 1: "xMBASCIIReceiveFSM s = Some (False, s1)"
    using c inv t pos len hex buf
    by (simp add: ascii_fsm_defs ascii_collected_def array_simps s1_def Let_def)
  define s2 where "s2 = s1\<lparr>uiRxBufferPos := Suc (Suc (uiRxBufferPos s)), xTimeLast := t',
    os_ticks := Suc (Suc (os_ticks s)), ucRTUBuf := (ucRTUBuf s)[length bs := b],
    asc_usRcvBufferPos := asc_usRcvBufferPos s + 1, eBytePos := BYTE_HIGH_NIBBLE\<rparr>"
  have 2: "xMBASCIIReceiveFSM s1 = Some (False, s2)"
    using c inv t pos len hex buf
    by (simp add: ascii_fsm_defs ascii_collected_def array_simps s1_def s2_def Let_def nibbles_join)
  have "ascii_inv s2" "bRxEnabled s2"
    using c len ascii_rx_step [of s] ascii_rx_step [of s1] 1 2
    by (auto simp: ascii_collected_def s1_def)
  then have "ascii_collected (bs @ [b]) s2"
    using c inv len(1) take_Suc_update [of "length bs" "ucRTUBuf s" b]
    by (simp add: ascii_collected_def s1_def s2_def)
  then show ?thesis
    using 1 2 by (simp add: numeral_2_eq_2 ascii_frame_def s1_def s2_def)
qed

lemma serial_deliver_add:
  "serial_deliver f m s = Some s' \<Longrightarrow> serial_deliver f (m + n) s = serial_deliver f n s'"
proof (induction m arbitrary: s)
  case (Suc m)
  then show ?case by (cases "f s") auto
qed simp

lemma ascii_deliver_bytes:
  "ascii_collected xs s \<Longrightarrow> length xs + length bs \<le> 256 \<Longrightarrow>
   uiRxBufferPos s + 2 * length bs \<le> BUF_SIZE \<Longrightarrow>
   take (2 * length bs) (drop (uiRxBufferPos s) (ucBuffer s)) = concat (map ascii_hex bs) \<Longrightarrow>
   \<exists>s'. serial_deliver xMBASCIIReceiveFSM (2 * length bs) s = Some s' \<and> ascii_collected (xs @ bs) s' \<and>
     ascii_frame s s' \<and> uiRxBufferPos s' = uiRxBufferPos s + 2 * length bs"
proof (induction bs arbitrary: xs s)
  case Nil
  then show ?case by (simp add: ascii_frame_def)
next
  case (Cons b bs)
  let ?i = "uiRxBufferPos s"
  have len: "length (ucBuffer s) = 513"
    using Cons.prems(1) by (simp add: ascii_collected_def ascii_inv_def port_ok_def)
  then have d: "drop ?i (ucBuffer s) = ucBuffer s ! ?i # ucBuffer s ! Suc ?i # drop (Suc (Suc ?i)) (ucBuffer s)"
    using Cons.prems(3) by (simp add: Cons_nth_drop_Suc)
  then have b: "ucBuffer s ! ?i = hex_digit (drop_bit 4 b)" "ucBuffer s ! Suc ?i = hex_digit (b AND 15)"
    and bs: "take (2 * length bs) (drop (Suc (Suc ?i)) (ucBuffer s)) = concat (map ascii_hex bs)"
    using Cons.prems(4) by (simp_all add: ascii_hex_def [of b])
  obtain s1 where s1: "serial_deliver xMBASCIIReceiveFSM 2 s = Some s1" "ascii_collected (xs @ [b]) s1"
    "ascii_frame s s1" "uiRxBufferPos s1 = Suc (Suc ?i)"
    using ascii_deliver_byte [OF Cons.prems(1) _ _ b] Cons.prems by auto
  obtain s2 where s2: "serial_deliver xMBASCIIReceiveFSM (2 * length bs) s1 = Some s2"
    "ascii_collected ((xs @ [b]) @ bs) s2" "ascii_frame s1 s2"
    "uiRxBufferPos s2 = uiRxBufferPos s1 + 2 * length bs"
    using Cons.IH [OF s1(2)] Cons.prems s1 bs by (auto simp: ascii_frame_def)
  show ?case
    using s1 s2 serial_deliver_add [OF s1(1), of "2 * length bs"]
    by (auto simp: ascii_frame_def)
qed

lemma ascii_deliver_end:
  assumes c: "ascii_collected bs s" and buf: "ucBuffer s ! uiRxBufferPos s = 13"
      "ucBuffer s ! Suc (uiRxBufferPos s) = lf" "ucMBLFCharacter s = lf"
    and len: "Suc (uiRxBufferPos s) < BUF_SIZE"
  shows "\<exists>s'. serial_deliver xMBASCIIReceiveFSM 2 s = Some s' \<and> ascii_inv s' \<and> bRxEnabled s' \<and>
    os_line s' = os_line s \<and> \<not> bTxEnabled s' \<and> \<not> bTimeoutEnable s' \<and> asc_eRcvState s' = ASC_RX_IDLE \<and>
    xEventInQueue s' \<and> eQueuedEvent s' = EV_FRAME_RECEIVED \<and>
    asc_usRcvBufferPos s' = of_nat (length bs) \<and> take (length bs) (ucRTUBuf s') = bs"
proof -
  have inv: "length (ucBuffer s) = 513" "asc_eSndState s = ASC_TX_IDLE"
    using c by (auto simp: ascii_collected_def ascii_inv_def port_ok_def)
  obtain t where t: "os_clock s (os_ticks s) = Some t"
    using c by (auto simp: ascii_collected_def ascii_inv_def port_ok_def)
  define s1 where "s1 = s\<lparr>uiRxBufferPos := Suc (uiRxBufferPos s), xTimeLast := t, bTimeoutEnable := True,
    os_ticks := Suc (os_ticks s), asc_eRcvState := ASC_RX_WAIT_EOF\<rparr>"
  have 1: "xMBASCIIReceiveFSM s = Some (False, s1)"
    using c inv t len buf by (simp add: ascii_fsm_defs ascii_collected_def array_simps s1_def)
  define s2 where "s2 = s1\<lparr>uiRxBufferPos := Suc (Suc (uiRxBufferPos s)), bTimeoutEnable := False,
    asc_eRcvState := ASC_RX_IDLE, xEventInQueue := True, eQueuedEvent := EV_FRAME_RECEIVED\<rparr>"
  have 2: "xMBASCIIReceiveFSM s1 = Some (True, s2)"
    using inv len buf by (simp add: ascii_fsm_defs array_simps s1_def s2_def)
  have "ascii_inv s2" "bRxEnabled s2" "\<not> bTxEnabled s2"
    using c len ascii_rx_step [of s] ascii_rx_step [of s1] 1 2
    by (auto simp: ascii_collected_def s1_def s2_def ascii_inv_def)
  then show ?thesis
    using 1 2 c by (simp add: numeral_2_eq_2 ascii_collected_def s1_def s2_def)
qed

definition ascii_listening :: "'a mb_ascii_scheme \<Rightarrow> bool" where
  "ascii_listening s \<longleftrightarrow>
     ascii_inv s \<and> bRxEnabled s \<and> uiRxBufferPos s = 0 \<and> asc_eRcvState s = ASC_RX_IDLE"

lemma ascii_deliver_wire:
  assumes s: "ascii_listening s" "ucMBLFCharacter s = lf"
    and buf: "take (length (ascii_wire data lf)) (ucBuffer s) = ascii_wire data lf"
    and len: "length data \<le> 255"
  shows "\<exists>s'. serial_deliver xMBASCIIReceiveFSM (length (ascii_wire data lf)) s = Some s' \<and>
    ascii_inv s' \<and> bRxEnabled s' \<and> os_line s' = os_line s \<and> \<not> bTxEnabled s' \<and>
    \<not> bTimeoutEnable s' \<and> asc_eRcvState s' = ASC_RX_IDLE \<and>
    xEventInQueue s' \<and> eQueuedEvent s' = EV_FRAME_RECEIVED \<and>
    asc_usRcvBufferPos s' = of_nat (length data) \<and> take (length data) (ucRTUBuf s') = data"
proof -
  have inv: "ascii_inv s" "bRxEnabled s" "uiRxBufferPos s = 0" "length (ucBuffer s) = 513"
    using s by (auto simp: ascii_listening_def ascii_inv_def port_ok_def)
  obtain t where t: "os_clock s (os_ticks s) = Some t"
    using s by (auto simp: ascii_listening_def ascii_inv_def port_ok_def)
  obtain c cs where b: "ucBuffer s = 58 # cs" "take (2 * length data + 2) cs = concat (map ascii_hex data) @ [13, lf]"
    using buf inv(4) by (cases "ucBuffer s") (auto simp: ascii_wire_def)
  obtain s1 where s1: "xMBASCIIReceiveFSM s = Some (False, s1)" "ascii_collected [] s1" "ascii_frame s s1"
    "uiRxBufferPos s1 = 1"
    using s inv t b ascii_rx_step [of s]
    by (auto simp: ascii_fsm_defs ascii_listening_def ascii_collected_def ascii_frame_def ascii_inv_def array_simps)
  have "take (2 * length data) (drop 1 (ucBuffer s)) = concat (map ascii_hex data)"
    using arg_cong [OF b(2), of "take (2 * length data)"] b(1) by (simp add: min_def)
  then obtain s2 where s2: "serial_deliver xMBASCIIReceiveFSM (2 * length data) s1 = Some s2"
    "ascii_collected data s2" "ascii_frame s s2" "uiRxBufferPos s2 = 1 + 2 * length data"
    using ascii_deliver_bytes [OF s1(2), of data] s1 len by (auto simp: ascii_frame_def)
  have "ucBuffer s ! (1 + 2 * length data) = 13" "ucBuffer s ! Suc (1 + 2 * length data) = lf"
    using arg_cong [OF b(2), of "\<lambda>xs. xs ! (2 * length data)"]
      arg_cong [OF b(2), of "\<lambda>xs. xs ! Suc (2 * length data)"] b(1)
    by (simp_all add: nth_append)
  then have cr: "ucBuffer s2 ! uiRxBufferPos s2 = 13" "ucBuffer s2 ! Suc (uiRxBufferPos s2) = lf"
    "ucMBLFCharacter s2 = lf" "os_line s2 = os_line s"
    using s2(3,4) s(2) by (simp_all add: ascii_frame_def)
  obtain s3 where s3: "serial_deliver xMBASCIIReceiveFSM 2 s2 = Some s3" "ascii_inv s3" "bRxEnabled s3"
    "os_line s3 = os_line s2" "\<not> bTxEnabled s3" "\<not> bTimeoutEnable s3" "asc_eRcvState s3 = ASC_RX_IDLE"
    "xEventInQueue s3" "eQueuedEvent s3 = EV_FRAME_RECEIVED"
    "asc_usRcvBufferPos s3 = of_nat (length data)" "take (length data) (ucRTUBuf s3) = data"
    using ascii_deliver_end [OF s2(2) cr(1,2,3)] s2(4) len by auto
  have "length (ascii_wire data lf) = Suc (2 * length data + 2)" by simp
  moreover have "serial_deliver xMBASCIIReceiveFSM (2 * length data + 2) s1 = Some s3"
    using serial_deliver_add [OF s2(1), of 2] s3(1) by simp
  ultimately show ?thesis
    using s1(1) s3 cr(4) by (auto simp only: serial_deliver.simps Option.bind.bind_lunit prod.case)
qed

text \<open>A whole frame on the line, polled: the frame is complete when its line feed arrives.\<close>

lemma ascii_receive_line:
  assumes r: "ascii_listening r" "ucMBLFCharacter r = lf" and len: "length data \<le> 255"
  shows "\<exists>r1. xMBPortSerialPoll xMBASCIIReceiveFSM xMBASCIITransmitFSM
      (r\<lparr>os_line := [LineBytes (ascii_wire data lf)]\<rparr>) = Some (True, r1) \<and>
    ascii_listening r1 \<and> \<not> bTimeoutEnable r1 \<and> xEventInQueue r1 \<and> eQueuedEvent r1 = EV_FRAME_RECEIVED \<and>
    asc_usRcvBufferPos r1 = of_nat (length data) \<and> take (length data) (ucRTUBuf r1) = data"
proof -
  let ?w = "ascii_wire data lf" and ?r = "r\<lparr>os_line := [LineBytes (ascii_wire data lf)]\<rparr>"
  define s where "s = ?r\<lparr>ucBuffer := ?w @ drop (length ?w) (ucBuffer ?r), os_line := []\<rparr>"
  have "length (ucBuffer r) = 513" using r by (simp add: ascii_listening_def ascii_inv_def port_ok_def)
  then have "ascii_listening s"
    using r len by (simp add: ascii_listening_def s_def ascii.inv_buffer)
  moreover have "ucMBLFCharacter s = lf" "take (length ?w) (ucBuffer s) = ?w" "os_line s = []"
    using r by (simp_all add: s_def)
  ultimately obtain s2 where s2: "serial_deliver xMBASCIIReceiveFSM (length ?w) s = Some s2"
    "ascii_inv s2" "bRxEnabled s2" "os_line s2 = []" "\<not> bTxEnabled s2" "\<not> bTimeoutEnable s2"
    "asc_eRcvState s2 = ASC_RX_IDLE" "xEventInQueue s2" "eQueuedEvent s2 = EV_FRAME_RECEIVED"
    "asc_usRcvBufferPos s2 = of_nat (length data)" "take (length data) (ucRTUBuf s2) = data"
    using ascii_deliver_wire [OF _ _ _ len] by metis
  have "xMBPortSerialPoll xMBASCIIReceiveFSM xMBASCIITransmitFSM ?r = Some (True, s2\<lparr>uiRxBufferPos := 0\<rparr>)"
    using r(1) len s2 by (intro serial_poll_burst) (auto simp: ascii_listening_def s_def ascii_wire_def)
  then show ?thesis
    using s2 by (simp add: ascii_listening_def ascii.inv_rxpos)
qed

lemma ascii_receive_bytes:
  assumes "take (length bs) (ucRTUBuf s) = bs" "length (ucRTUBuf s) = 256"
    "asc_usRcvBufferPos s = of_nat (length bs)" "length bs < 256"
  shows "eMBASCIIReceive s =
    Some (if 3 \<le> length bs \<and> prvucMBLRC bs = 0 then Inr (hd bs, 1, of_nat (length bs) - 2) else Inl MB_EIO)"
proof -
  have pos: "unat (asc_usRcvBufferPos s) = length bs"
    using assms(3,4) by (simp add: unat_of_nat)
  have "array_slice (ucRTUBuf s) 0 (length bs) = Some bs"
    using assms by (simp add: array_simps)
  moreover have "bs \<noteq> [] \<Longrightarrow> array_get (ucRTUBuf s) 0 = Some (hd bs)"
    using assms by (cases bs; cases "ucRTUBuf s") (auto simp: array_simps)
  moreover have "asc_usRcvBufferPos s < 256" "3 \<le> asc_usRcvBufferPos s \<longleftrightarrow> 3 \<le> length bs"
    using assms(4) pos by (simp_all add: word_less_nat_alt word_le_nat_alt)
  ultimately show ?thesis
    using pos assms(3) by (cases "bs = []") (auto simp: eMBASCIIReceive_def)
qed

section \<open>Sending a frame\<close>

text \<open>
  The transmitter in its data state at a byte boundary: \<open>out\<close> is in the port's buffer,
  \<open>bs\<close> has still to be written.
\<close>

definition ascii_sending :: "u8 list \<Rightarrow> u8 list \<Rightarrow> 'a mb_ascii_scheme \<Rightarrow> bool" where
  "ascii_sending out bs s \<longleftrightarrow>
     ascii_inv s \<and> bTxEnabled s \<and> asc_eSndState s = ASC_TX_DATA \<and> eBytePos s = BYTE_HIGH_NIBBLE \<and>
     uiTxBufferPos s = length out \<and> take (length out) (ucBuffer s) = out \<and>
     unat (asc_usSndBufferCount s) = length bs \<and>
     take (length bs) (drop (asc_pucSndBufferCur s) (ucRTUBuf s)) = bs"

definition ascii_output :: "'a mb_ascii_scheme \<Rightarrow> 'a mb_ascii_scheme \<Rightarrow> bool" where
  "ascii_output s s' \<longleftrightarrow>
     os_write s' = os_write s \<and> os_sent s' = os_sent s \<and> ucMBLFCharacter s' = ucMBLFCharacter s"

lemma ascii_send_byte:
  assumes s: "ascii_sending out (b # bs) s"
  shows "\<exists>s'. serial_tx_loop xMBASCIITransmitFSM s = serial_tx_loop xMBASCIITransmitFSM s' \<and>
    ascii_sending (out @ ascii_hex b) bs s' \<and> ascii_output s s'"
proof -
  let ?n = "asc_usSndBufferCount s" and ?c = "asc_pucSndBufferCur s" and ?i = "length out"
  have inv: "ascii_inv s" "bTxEnabled s" "length (ucBuffer s) = 513" "length (ucRTUBuf s) = 256"
    "asc_eRcvState s = ASC_RX_IDLE" "?c + unat ?n \<le> 256" "?i + 2 * unat ?n + 3 \<le> 514"
    "asc_eSndState s = ASC_TX_DATA" "eBytePos s = BYTE_HIGH_NIBBLE" "uiTxBufferPos s = ?i"
    using s by (auto simp: ascii_sending_def ascii_inv_def port_ok_def ascii_tx_left_def)
  have n1: "unat ?n = Suc (length bs)" "?n \<noteq> 0"
    using s by (auto simp: ascii_sending_def)
  then have n: "unat ?n = Suc (length bs)" "0 < ?n" "unat (?n - 1) = length bs"
    using unat_u16_pred [OF n1(2)] by (simp_all add: word_less_nat_alt)
  have d: "drop ?c (ucRTUBuf s) = ucRTUBuf s ! ?c # drop (Suc ?c) (ucRTUBuf s)"
    using inv n by (simp add: Cons_nth_drop_Suc)
  then have b: "ucRTUBuf s ! ?c = b" "take (length bs) (drop (Suc ?c) (ucRTUBuf s)) = bs"
    using s by (simp_all add: ascii_sending_def)
  define s1 where "s1 = s\<lparr>ucBuffer := (ucBuffer s)[?i := hex_digit (drop_bit 4 b)],
    uiTxBufferPos := Suc ?i, eBytePos := BYTE_LOW_NIBBLE\<rparr>"
  have 1: "xMBASCIITransmitFSM s = Some (False, s1)"
    using inv n b by (simp add: ascii_fsm_defs array_simps s1_def hex_simps)
  define s2 where "s2 = s1\<lparr>ucBuffer := (ucBuffer s1)[Suc ?i := hex_digit (b AND 15)],
    uiTxBufferPos := Suc (Suc ?i), asc_pucSndBufferCur := Suc ?c, eBytePos := BYTE_HIGH_NIBBLE,
    asc_usSndBufferCount := ?n - 1\<rparr>"
  have 2: "xMBASCIITransmitFSM s1 = Some (False, s2)"
    using inv n b by (simp add: ascii_fsm_defs array_simps s1_def s2_def hex_simps)
  have "ascii_inv s2"
    using ascii_tx_step [of s] ascii_tx_step [of s1] 1 2 inv by (auto simp: s1_def)
  moreover have "take (Suc (Suc ?i)) (ucBuffer s2) = out @ ascii_hex b"
    using s inv n take_Suc_update [of "Suc ?i" "ucBuffer s1"] take_Suc_update [of ?i "ucBuffer s"]
    by (simp add: s1_def s2_def ascii_hex_def ascii_sending_def)
  ultimately have "ascii_sending (out @ ascii_hex b) bs s2"
    using n b inv by (simp add: ascii_sending_def s1_def s2_def ascii_hex_def [of b])
  moreover have "serial_tx_loop xMBASCIITransmitFSM s = serial_tx_loop xMBASCIITransmitFSM s2"
    using serial_tx_loop_step [where tx = xMBASCIITransmitFSM, OF _ 1] serial_tx_loop_step [where tx = xMBASCIITransmitFSM, OF _ 2] inv by (simp add: s1_def)
  ultimately show ?thesis by (auto simp: ascii_output_def s1_def s2_def)
qed

lemma ascii_send_end:
  assumes s: "ascii_sending out [] s"
  shows "\<exists>s'. serial_tx_loop xMBASCIITransmitFSM s = Some s' \<and> ascii_output s s' \<and>
    take (uiTxBufferPos s') (ucBuffer s') = out @ [13, ucMBLFCharacter s] \<and>
    xEventInQueue s' \<and> eQueuedEvent s' = EV_FRAME_SENT \<and> bRxEnabled s' \<and> \<not> bTxEnabled s'"
proof -
  let ?i = "length out" and ?lf = "ucMBLFCharacter s"
  have inv: "bTxEnabled s" "length (ucBuffer s) = 513" "asc_eRcvState s = ASC_RX_IDLE" "?i + 3 \<le> 514"
    "asc_eSndState s = ASC_TX_DATA" "uiTxBufferPos s = ?i"
    using s by (auto simp: ascii_sending_def ascii_inv_def port_ok_def ascii_tx_left_def)
  have n: "asc_usSndBufferCount s = 0"
    using s by (auto simp: ascii_sending_def unat_eq_zero)
  define s1 where "s1 = s\<lparr>ucBuffer := (ucBuffer s)[?i := 13], uiTxBufferPos := Suc ?i,
    asc_eSndState := ASC_TX_END\<rparr>"
  have 1: "xMBASCIITransmitFSM s = Some (False, s1)"
    using inv n by (simp add: ascii_fsm_defs array_simps s1_def)
  define s2 where "s2 = s1\<lparr>ucBuffer := (ucBuffer s1)[Suc ?i := ?lf],
    uiTxBufferPos := Suc (Suc ?i), asc_eSndState := ASC_TX_NOTIFY\<rparr>"
  have 2: "xMBASCIITransmitFSM s1 = Some (False, s2)"
    using inv n by (simp add: ascii_fsm_defs array_simps s1_def s2_def)
  define s3 where "s3 = s2\<lparr>asc_eSndState := ASC_TX_IDLE, xEventInQueue := True, eQueuedEvent := EV_FRAME_SENT,
    uiRxBufferPos := 0, bRxEnabled := True, bTxEnabled := False\<rparr>"
  have 3: "xMBASCIITransmitFSM s2 = Some (True, s3)"
    using inv n by (simp add: ascii_fsm_defs s1_def s2_def s3_def)
  have "serial_tx_loop xMBASCIITransmitFSM s = Some s3"
    using serial_tx_loop_step [where tx = xMBASCIITransmitFSM, OF _ 1] serial_tx_loop_step [where tx = xMBASCIITransmitFSM, OF _ 2] serial_tx_loop_step [where tx = xMBASCIITransmitFSM, OF _ 3]
      serial_tx_loop_stop [of s3] inv
    by (simp add: s1_def s2_def s3_def)
  moreover have "take (Suc (Suc ?i)) (ucBuffer s2) = out @ [13, ?lf]"
    using s inv n take_Suc_update [of "Suc ?i" "ucBuffer s1"] take_Suc_update [of ?i "ucBuffer s"]
    by (simp add: s1_def s2_def ascii_sending_def)
  ultimately show ?thesis
    by (simp add: ascii_output_def s1_def s2_def s3_def)
qed

lemma ascii_tx_loop:
  "ascii_sending out bs s \<Longrightarrow>
   \<exists>s'. serial_tx_loop xMBASCIITransmitFSM s = Some s' \<and> ascii_output s s' \<and>
     take (uiTxBufferPos s') (ucBuffer s') = out @ concat (map ascii_hex bs) @ [13, ucMBLFCharacter s] \<and>
     xEventInQueue s' \<and> eQueuedEvent s' = EV_FRAME_SENT \<and> bRxEnabled s' \<and> \<not> bTxEnabled s'"
proof (induction bs arbitrary: out s)
  case Nil
  then show ?case using ascii_send_end by simp
next
  case (Cons b bs)
  from ascii_send_byte [OF Cons.prems] obtain s1 where
    s1: "serial_tx_loop xMBASCIITransmitFSM s = serial_tx_loop xMBASCIITransmitFSM s1"
      "ascii_sending (out @ ascii_hex b) bs s1" "ascii_output s s1" by blast
  from Cons.IH [OF s1(2)] s1 show ?case by (auto simp: ascii_output_def)
qed

lemma ascii_send_state:
  fixes a :: u8 and s :: "'a mb_ascii_scheme"
  assumes "ascii_inv s" "bRxEnabled s" "asc_eRcvState s = ASC_RX_IDLE" "unat n \<le> 253"
  defines "data \<equiv> a # take (unat n) (tl (ucRTUBuf s))"
  shows "\<exists>s1 s2. eMBASCIISend a 1 n s = Some (MB_ENOERR, s1) \<and> bTxEnabled s1 \<and> \<not> bRxEnabled s1 \<and>
    serial_tx_loop xMBASCIITransmitFSM s1 = serial_tx_loop xMBASCIITransmitFSM s2 \<and>
    ascii_sending [58] (data @ [prvucMBLRC data]) s2 \<and> ascii_output s s2"
proof -
  obtain x xs where buf: "ucRTUBuf s = x # xs" "length xs = 255"
    using assms(1) by (cases "ucRTUBuf s") (auto simp: ascii_inv_def)
  let ?k = "unat n"
  have c1: "unat (1 + n) = Suc ?k" and c2: "1 + n + 1 = n + 2" "unat (n + 2) = ?k + 2"
    using assms(4) by (simp_all add: unat_u16_add)
  have data: "data = a # take ?k xs" by (simp add: data_def buf)
  define buf' where "buf' = (a # xs)[Suc ?k := prvucMBLRC data]"
  have p1: "array_put (ucRTUBuf s) (1 - 1 + 0) a = Some (a # xs)"
    and p2: "array_slice (a # xs) (1 - 1) (Suc ?k) = Some data"
    and p3: "array_put (a # xs) (Suc ?k) (prvucMBLRC data) = Some buf'"
    using assms(4) buf by (simp_all add: array_simps data buf'_def)
  define s1 where "s1 = s\<lparr>ucRTUBuf := buf', asc_pucSndBufferCur := 0, asc_usSndBufferCount := n + 2,
    asc_eSndState := ASC_TX_START, bRxEnabled := False, bTxEnabled := True, uiTxBufferPos := 0\<rparr>"
  have send: "eMBASCIISend a 1 n s = Some (MB_ENOERR, s1)"
    unfolding eMBASCIISend_def Let_def assms(3) p1 c1 Option.bind.bind_lunit p2 p3 c2(1)
    by (simp add: vMBPortSerialEnable_def s1_def)
  have inv1: "ascii_inv s1"
    using assms buf c2(2) by (simp add: ascii_inv_def port_ok_def s1_def ascii_tx_left_def buf'_def)
  have len: "length (ucBuffer s) = 513"
    using assms(1) by (simp add: ascii_inv_def port_ok_def)
  define s2 where "s2 = s1\<lparr>ucBuffer := (ucBuffer s)[0 := 58], uiTxBufferPos := 1,
    asc_eSndState := ASC_TX_DATA, eBytePos := BYTE_HIGH_NIBBLE\<rparr>"
  have 1: "xMBASCIITransmitFSM s1 = Some (False, s2)"
    using assms len by (simp add: ascii_fsm_defs array_simps s1_def s2_def)
  have "ascii_inv s2" using ascii_tx_step [OF inv1] 1 by (simp add: s1_def)
  moreover have "take (?k + 2) buf' = data @ [prvucMBLRC data]"
    using assms(4) buf by (simp add: buf'_def data upd_conv_take_nth_drop)
  moreover have "take 1 (ucBuffer s2) = [58]"
    using len by (cases "ucBuffer s") (simp_all add: s2_def)
  ultimately have "ascii_sending [58] (data @ [prvucMBLRC data]) s2"
    using assms(4) buf c2(2) by (simp add: ascii_sending_def s1_def s2_def data)
  moreover have "serial_tx_loop xMBASCIITransmitFSM s1 = serial_tx_loop xMBASCIITransmitFSM s2"
    by (rule serial_tx_loop_step [where tx = xMBASCIITransmitFSM, OF _ 1]) (simp add: s1_def)
  ultimately show ?thesis
    using send by (auto simp: ascii_output_def s1_def s2_def)
qed

lemma ascii_send_line:
  fixes a :: u8 and s :: "'a mb_ascii_scheme"
  assumes s: "ascii_listening s" "os_write s = []" and n: "unat n \<le> 253"
  defines "data \<equiv> a # take (unat n) (tl (ucRTUBuf s))"
  shows "\<exists>s1 s2. eMBASCIISend a 1 n s = Some (MB_ENOERR, s1) \<and>
    xMBPortSerialPoll xMBASCIIReceiveFSM xMBASCIITransmitFSM s1 = Some (True, s2) \<and>
    os_sent s2 = os_sent s @ ascii_wire (data @ [prvucMBLRC data]) (ucMBLFCharacter s) \<and>
    xEventInQueue s2 \<and> eQueuedEvent s2 = EV_FRAME_SENT \<and> bRxEnabled s2"
proof -
  obtain s1 s2 where s1: "eMBASCIISend a 1 n s = Some (MB_ENOERR, s1)" "bTxEnabled s1" "\<not> bRxEnabled s1"
    "serial_tx_loop xMBASCIITransmitFSM s1 = serial_tx_loop xMBASCIITransmitFSM s2"
    "ascii_sending [58] (data @ [prvucMBLRC data]) s2" "ascii_output s s2"
    using ascii_send_state [of s n a] s n by (auto simp: ascii_listening_def data_def)
  from ascii_tx_loop [OF s1(5)] obtain s3 where
    s3: "serial_tx_loop xMBASCIITransmitFSM s2 = Some s3" "ascii_output s2 s3"
      "take (uiTxBufferPos s3) (ucBuffer s3)
        = [58] @ concat (map ascii_hex (data @ [prvucMBLRC data])) @ [13, ucMBLFCharacter s2]"
      "xEventInQueue s3" "eQueuedEvent s3 = EV_FRAME_SENT" "bRxEnabled s3" "\<not> bTxEnabled s3" by blast
  have "take (uiTxBufferPos s3) (ucBuffer s3) = ascii_wire (data @ [prvucMBLRC data]) (ucMBLFCharacter s)"
    using s3(3) s1(6) by (simp add: ascii_wire_def ascii_output_def)
  moreover have "os_write s3 = []" "os_sent s3 = os_sent s"
    using s1(6) s3(2) s(2) by (simp_all add: ascii_output_def)
  ultimately show ?thesis
    using s1 s3 by (simp add: xMBPortSerialPoll_def serial_rx_loop_stop prvbMBPortSerialWrite_def)
qed

section \<open>Properties\<close>

text \<open>A station that listens on a quiet ASCII line, for the examples below.\<close>

definition ascii_idle :: mb_ascii where
  "ascii_idle = mb_rtu.extend rtu_idle
     \<lparr>asc_eSndState = ASC_TX_IDLE, asc_eRcvState = ASC_RX_IDLE, asc_usRcvBufferPos = 0,
      eBytePos = BYTE_HIGH_NIBBLE, asc_pucSndBufferCur = 0, asc_usSndBufferCount = 0,
      ucMBLFCharacter = 10\<rparr>"

lemmas ascii_idle_defs = ascii_idle_def rtu_idle_def mb_rtu.defs

text \<open>
  C17: what one ASCII station sends, another receives: for an address and a PDU of 1 to 253
  bytes, \<^verbatim>\<open>eMBASCIISend\<close> and the transmit poll write a colon, hexadecimal digits, CR and LF;
  the other station posts \<^verbatim>\<open>EV_FRAME_RECEIVED\<close> as it polls them, and \<^verbatim>\<open>eMBASCIIReceive\<close> then
  returns that address and that PDU.
\<close>

theorem ascii_loopback:
  assumes s: "ascii_listening s" "os_write s = []" "os_sent s = []" and n: "1 \<le> unat n" "unat n \<le> 253"
    and r: "ascii_listening r" "ucMBLFCharacter r = ucMBLFCharacter s"
  shows "\<exists>s1 s2 r1. eMBASCIISend a 1 n s = Some (MB_ENOERR, s1) \<and>
    xMBPortSerialPoll xMBASCIIReceiveFSM xMBASCIITransmitFSM s1 = Some (True, s2) \<and>
    xMBPortSerialPoll xMBASCIIReceiveFSM xMBASCIITransmitFSM (r\<lparr>os_line := [LineBytes (os_sent s2)]\<rparr>)
      = Some (True, r1) \<and>
    xEventInQueue r1 \<and> eQueuedEvent r1 = EV_FRAME_RECEIVED \<and>
    eMBASCIIReceive r1 = Some (Inr (a, 1, n)) \<and>
    take (unat n) (tl (ucRTUBuf r1)) = take (unat n) (tl (ucRTUBuf s))"
proof -
  let ?pdu = "take (unat n) (tl (ucRTUBuf s))"
  let ?data = "(a # ?pdu) @ [prvucMBLRC (a # ?pdu)]"
  have pdu: "length ?pdu = unat n"
    using s n by (simp add: ascii_listening_def ascii_inv_def)
  obtain s1 s2 where send: "eMBASCIISend a 1 n s = Some (MB_ENOERR, s1)"
    "xMBPortSerialPoll xMBASCIIReceiveFSM xMBASCIITransmitFSM s1 = Some (True, s2)"
    "os_sent s2 = ascii_wire ?data (ucMBLFCharacter s)"
    using ascii_send_line [OF s(1,2) n(2), of a] s(3) by auto
  have len: "length ?data = unat n + 2" using pdu by simp
  then have "length ?data \<le> 255" using n by simp
  from ascii_receive_line [OF r this] obtain r1 where
    recv: "xMBPortSerialPoll xMBASCIIReceiveFSM xMBASCIITransmitFSM (r\<lparr>os_line := [LineBytes (os_sent s2)]\<rparr>)
      = Some (True, r1)" "xEventInQueue r1" "eQueuedEvent r1 = EV_FRAME_RECEIVED"
    and r1: "asc_usRcvBufferPos r1 = of_nat (length ?data)" "take (length ?data) (ucRTUBuf r1) = ?data"
      "length (ucRTUBuf r1) = 256"
    using send(3) by (auto simp: ascii_listening_def ascii_inv_def)
  have "eMBASCIIReceive r1 = Some (Inr (a, 1, n))"
    using ascii_receive_bytes [OF r1(2,3,1)] len n prvucMBLRC_append [of "a # ?pdu"] by simp
  moreover have "take (unat n) (tl (ucRTUBuf r1)) = ?pdu"
    using r1(2) len pdu by (cases "ucRTUBuf r1") (auto simp: take_Suc dest: arg_cong [of _ _ "take (unat n)"])
  ultimately show ?thesis using send(1,2) recv by blast
qed

theorem ascii_loopback_witness:
  "\<exists>s1 s2 r1. eMBASCIISend 17 1 2 (ascii_idle\<lparr>ucRTUBuf := [0, 7, 9] @ replicate 253 0\<rparr>)
      = Some (MB_ENOERR, s1) \<and>
    xMBPortSerialPoll xMBASCIIReceiveFSM xMBASCIITransmitFSM s1 = Some (True, s2) \<and>
    xMBPortSerialPoll xMBASCIIReceiveFSM xMBASCIITransmitFSM
      (ascii_idle\<lparr>os_line := [LineBytes (os_sent s2)]\<rparr>) = Some (True, r1) \<and>
    xEventInQueue r1 \<and> eQueuedEvent r1 = EV_FRAME_RECEIVED \<and>
    eMBASCIIReceive r1 = Some (Inr (17, 1, 2)) \<and> take 2 (tl (ucRTUBuf r1)) = [7, 9]"
  using ascii_loopback [of "ascii_idle\<lparr>ucRTUBuf := [0, 7, 9] @ replicate 253 0\<rparr>" 2 ascii_idle 17]
  by (simp add: ascii_listening_def ascii_idle_defs ascii_inv_def port_ok_def ascii_tx_left_def)

text \<open>
  polling the serial port with the ASCII callbacks never aborts and keeps the
  invariant, whatever characters and errors the line delivers.
\<close>

theorem ascii_poll_safe:
  assumes "ascii_inv s" "rx_ready s"
  shows "\<exists>b s'. xMBPortSerialPoll xMBASCIIReceiveFSM xMBASCIITransmitFSM s = Some (b, s') \<and>
    ascii_inv s' \<and> rx_ready s' \<and> \<not> bTxEnabled s'"
  using assms by (rule ascii.poll_total)

theorem ascii_poll_safe_witness:
  "\<exists>b s'. xMBPortSerialPoll xMBASCIIReceiveFSM xMBASCIITransmitFSM
      (ascii_idle\<lparr>os_line := [LineBytes [58, 0, 49, 13], LineSelErr, LineBytes [10]]\<rparr>) = Some (b, s') \<and>
    ascii_inv s' \<and> rx_ready s' \<and> \<not> bTxEnabled s'"
  by (rule ascii_poll_safe)
     (simp_all add: ascii_idle_defs ascii_inv_def port_ok_def ascii_tx_left_def rx_ready_def)

text \<open>
  C29: the timer of the ASCII layer can abort the stack. A frame that ends in CR and then a
  character other than LF and the colon sends the receiver back to idle without stopping
  the character timer; when the timer then runs out, \<^verbatim>\<open>xMBASCIITimerT1SExpired\<close> finds the
  receiver idle and its assertion fails.
\<close>

theorem ascii_bad_end_aborts:
  assumes r: "ascii_listening r" "\<not> xEventInQueue r" and c: "c \<noteq> ucMBLFCharacter r" "c \<noteq> 58"
    and clock: "os_clock r (os_ticks r + 1) = Some v" "os_clock r (os_ticks r + 2) = Some t"
      "ulTimeOut r < timer_delta t v"
  shows "(\<exists>r1. xMBPortSerialPoll xMBASCIIReceiveFSM xMBASCIITransmitFSM
      (r\<lparr>os_line := [LineBytes [58, 13, c]]\<rparr>) = Some (True, r1)) \<and>
    xMBPortEventGet xMBASCIIReceiveFSM xMBASCIITransmitFSM xMBASCIITimerT1SExpired
      (r\<lparr>os_line := [LineBytes [58, 13, c]]\<rparr>) = None"
proof -
  let ?r = "r\<lparr>os_line := [LineBytes [58, 13, c]]\<rparr>"
  let ?s = "?r\<lparr>ucBuffer := [58, 13, c] @ drop (length [58, 13, c]) (ucBuffer ?r), os_line := []\<rparr>"
  have inv: "length (ucBuffer r) = 513" "asc_eSndState r = ASC_TX_IDLE" "\<not> bTxEnabled r"
    using r by (auto simp: ascii_listening_def ascii_inv_def port_ok_def)
  obtain u where "os_clock r (os_ticks r) = Some u"
    using r by (auto simp: ascii_listening_def ascii_inv_def port_ok_def)
  then obtain s2 where s2: "serial_deliver xMBASCIIReceiveFSM (length [58, 13, c]) ?s = Some s2"
    "bRxEnabled s2" "\<not> bTxEnabled s2" "os_line s2 = []" "asc_eRcvState s2 = ASC_RX_IDLE"
    "bTimeoutEnable s2" "os_clock s2 (os_ticks s2) = Some t" "ulTimeOut s2 = ulTimeOut r" "xTimeLast s2 = v"
    using r inv c clock by (auto simp: ascii_listening_def ascii_fsm_defs array_simps)
  have "xMBPortSerialPoll xMBASCIIReceiveFSM xMBASCIITransmitFSM ?r = Some (True, s2\<lparr>uiRxBufferPos := 0\<rparr>)"
    using r(1) s2 by (intro serial_poll_burst) (auto simp: ascii_listening_def)
  moreover have "vMBPortTimerPoll xMBASCIITimerT1SExpired (s2\<lparr>uiRxBufferPos := 0\<rparr>) = None"
    using s2 clock(3) by (simp add: vMBPortTimerPoll_def xMBASCIITimerT1SExpired_def Let_def)
  ultimately show ?thesis
    using r(2) by (simp add: xMBPortEventGet_def)
qed

theorem ascii_bad_end_aborts_witness:
  "(\<exists>r1. xMBPortSerialPoll xMBASCIIReceiveFSM xMBASCIITransmitFSM
      (ascii_idle\<lparr>os_line := [LineBytes [58, 13, 65]]\<rparr>) = Some (True, r1)) \<and>
    xMBPortEventGet xMBASCIIReceiveFSM xMBASCIITransmitFSM xMBASCIITimerT1SExpired
      (ascii_idle\<lparr>os_line := [LineBytes [58, 13, 65]]\<rparr>) = None"
  by (rule ascii_bad_end_aborts
        [where v = "\<lparr>tv_sec = 1, tv_usec = 0\<rparr>" and t = "\<lparr>tv_sec = 2, tv_usec = 0\<rparr>"])
     (simp_all add: ascii_listening_def ascii_idle_defs ascii_inv_def port_ok_def ascii_tx_left_def
        timer_delta_def)



end
