(* ===== verification/MbUtils.thy ===== *)
theory MbUtils
  imports MbTypes
begin

text \<open>
  The bit field helpers and the error translation of \<^verbatim>\<open>modbus/functions/mbutils.c\<close>. A byte
  buffer is a list; both helpers read two adjacent bytes, so they need one byte more than
  the one that holds the first bit, even when the field does not reach it.
\<close>

definition xMBUtilSetBits :: "u8 list \<Rightarrow> u16 \<Rightarrow> u8 \<Rightarrow> u8 \<Rightarrow> u8 list option" where
  "xMBUtilSetBits ucByteBuf usBitOffset ucNBits ucValue = do {
     DEBUGASSERT (ucNBits \<le> 8);
     let usByteOffset = usBitOffset div 8;
     let usNPreBits = usBitOffset - usByteOffset * 8;
     let usValue = (push_bit (unat usNPreBits) (ucast ucValue) :: u16);
     let usMask = (push_bit (unat usNPreBits) (push_bit (unat ucNBits) 1 - 1) :: u16);
     b0 \<leftarrow> array_get ucByteBuf (unat usByteOffset);
     b1 \<leftarrow> array_get ucByteBuf (unat usByteOffset + 1);
     let usWordBuf = be16 b1 b0;
     let usWordBuf = (usWordBuf AND NOT usMask) OR usValue;
     ucByteBuf \<leftarrow> array_put ucByteBuf (unat usByteOffset) (lo8 usWordBuf);
     array_put ucByteBuf (unat usByteOffset + 1) (hi8 usWordBuf)
   }"

text \<open>\<^verbatim>\<open>xMBUtilGetBits\<close> does not bound \<^verbatim>\<open>ucNBits\<close>; a shift of an \<^verbatim>\<open>int\<close> by 31 or more is undefined.\<close>

definition xMBUtilGetBits :: "u8 list \<Rightarrow> u16 \<Rightarrow> u8 \<Rightarrow> u8 option" where
  "xMBUtilGetBits ucByteBuf usBitOffset ucNBits = do {
     let usByteOffset = usBitOffset div 8;
     let usNPreBits = usBitOffset - usByteOffset * 8;
     DEBUGASSERT (ucNBits < 31);
     let usMask = (push_bit (unat ucNBits) 1 - 1 :: u16);
     b0 \<leftarrow> array_get ucByteBuf (unat usByteOffset);
     b1 \<leftarrow> array_get ucByteBuf (unat usByteOffset + 1);
     let usWordBuf = drop_bit (unat usNPreBits) (be16 b1 b0);
     Some (ucast (usWordBuf AND usMask))
   }"

fun prveMBError2Exception :: "eMBErrorCode \<Rightarrow> eMBException" where
  "prveMBError2Exception MB_ENOERR = MB_EX_NONE"
| "prveMBError2Exception MB_ENOREG = MB_EX_ILLEGAL_DATA_ADDRESS"
| "prveMBError2Exception MB_ETIMEDOUT = MB_EX_SLAVE_BUSY"
| "prveMBError2Exception _ = MB_EX_SLAVE_DEVICE_FAILURE"

section \<open>Bits of a buffer\<close>

text \<open>Bit \<open>k\<close> of a buffer: bit \<open>k mod 8\<close> of byte \<open>k div 8\<close>.\<close>

definition buf_bit :: "u8 list \<Rightarrow> nat \<Rightarrow> bool" where
  "buf_bit buf k = bit (buf ! (k div 8)) (k mod 8)"

lemma byte_offset: "unat (off div 8 :: u16) = unat off div 8"
  by (simp add: unat_div)

lemma pre_bits: "unat (off - off div 8 * 8 :: u16) = unat off mod 8"
proof -
  have "off - off div 8 * 8 = off mod 8" by (simp add: minus_div_mult_eq_mod)
  then show ?thesis by (simp add: unat_mod)
qed

lemma bit_field_mask: "bit (2 ^ n - 1 :: u16) k \<longleftrightarrow> k < n \<and> k < 16"
  by (auto simp: bit_mask_iff simp flip: mask_eq_exp_minus_1)

lemma bit_two_bytes:
  assumes "i < 16" "Suc o8 < length buf"
  shows "bit (be16 (buf ! Suc o8) (buf ! o8)) i = buf_bit buf (8 * o8 + i)"
proof (cases "i < 8")
  case True
  then have "(8 * o8 + i) div 8 = o8" "(8 * o8 + i) mod 8 = i" by simp_all
  with True show ?thesis by (simp add: bit_be16 buf_bit_def)
next
  case False
  then obtain j where j: "i = 8 + j" "j < 8" using assms(1) by (metis add_less_cancel_left le_Suc_ex linorder_not_less numeral_Bit0)
  then have "(8 * o8 + i) div 8 = Suc o8" "(8 * o8 + i) mod 8 = j" by simp_all
  with j show ?thesis by (simp add: bit_be16 buf_bit_def)
qed

lemma bit_small_value:
  assumes "unat (v :: u8) < 2 ^ n" "bit v j"
  shows "j < n"
proof -
  have "take_bit n v = v"
    using assms(1) by (simp add: word_unat_eq_iff unsigned_take_bit_eq take_bit_nat_eq_self)
  with assms(2) show ?thesis by (metis bit_take_bit_iff)
qed

lemma buf_bit_update_other:
  "k div 8 \<noteq> i \<Longrightarrow> buf_bit (buf[i := v]) k = buf_bit buf k"
  by (simp add: buf_bit_def)

lemma get_bits:
  assumes "Suc (unat off div 8) < length buf" "unat n \<le> 8"
  shows "\<exists>b. xMBUtilGetBits buf off n = Some b \<and>
    (\<forall>i. bit b i \<longleftrightarrow> i < unat n \<and> buf_bit buf (unat off + i))"
proof -
  let ?o = "unat off div 8" and ?p = "unat off mod 8"
  let ?w = "be16 (buf ! Suc ?o) (buf ! ?o)"
  have n: "n < 31" using assms(2) by (simp add: word_less_nat_alt)
  have off: "8 * ?o + (?p + i) = unat off + i" for i
    by (metis add.assoc mult.commute div_mult_mod_eq)
  have "bit (ucast (drop_bit ?p ?w AND (push_bit (unat n) 1 - 1)) :: u8) i
      \<longleftrightarrow> i < unat n \<and> buf_bit buf (unat off + i)" for i
  proof (cases "i < unat n")
    case True
    then have "?p + i < 16" "i < 8" using assms(2) mod_less_divisor [of 8 "unat off"] by linarith+
    then show ?thesis
      using True bit_two_bytes [OF _ assms(1), of "?p + i"] off [of i]
      by (simp add: bit_simps bit_field_mask)
  qed (simp add: bit_simps bit_field_mask)
  then show ?thesis
    using assms n by (simp add: xMBUtilGetBits_def array_simps byte_offset pre_bits Let_def)
qed

section \<open>Properties\<close>



end
