(* ===== verification/MbFunctions.thy ===== *)
theory MbFunctions
  imports MbUtils
begin

text \<open>
  The request handlers, \<^verbatim>\<open>modbus/functions/mbfunc*.c\<close>. A handler gets the PDU in a buffer (the
  part of the frame array from the function code on) and the length of the request, and
  leaves the response in the same buffer: it returns the exception code, the buffer, the
  new length and the state of the application. \<open>None\<close> is an access outside the buffer or an
  abort of the application.

  The application provides the register callbacks; they are the fields of \<open>mb_app\<close>, over an
  application state \<open>'app\<close>. A callback gets the buffer from the pointer it is passed to the
  end of the array.
\<close>

type_synonym 'app reg_cb =
  "'app \<Rightarrow> u8 list \<Rightarrow> u16 \<Rightarrow> u16 \<Rightarrow> eMBRegisterMode \<Rightarrow> (eMBErrorCode \<times> u8 list \<times> 'app) option"

type_synonym 'app input_cb =
  "'app \<Rightarrow> u8 list \<Rightarrow> u16 \<Rightarrow> u16 \<Rightarrow> (eMBErrorCode \<times> u8 list \<times> 'app) option"

type_synonym 'app mb_result = "(eMBException \<times> u8 list \<times> u16 \<times> 'app) option"

record 'app mb_app =
  app_RegInputCB :: "'app input_cb"
  app_RegHoldingCB :: "'app reg_cb"
  app_RegCoilsCB :: "'app reg_cb"
  app_RegDiscreteCB :: "'app input_cb"

text \<open>A 16-bit field of a request, and a callback on the buffer from position \<open>i\<close>.\<close>

definition pdu_u16 :: "u8 list \<Rightarrow> nat \<Rightarrow> u16 option" where
  "pdu_u16 pucFrame i = do {
     hi \<leftarrow> array_get pucFrame i;
     lo \<leftarrow> array_get pucFrame (i + 1);
     Some (be16 hi lo)
   }"

definition cb_at ::
    "nat \<Rightarrow> (u8 list \<Rightarrow> (eMBErrorCode \<times> u8 list \<times> 'app) option) \<Rightarrow> u8 list
     \<Rightarrow> (eMBErrorCode \<times> u8 list \<times> 'app) option" where
  "cb_at i cb pucFrame = do {
     (e, buf, app) \<leftarrow> cb (drop i pucFrame);
     Some (e, take i pucFrame @ buf, app)
   }"

text \<open>The number of bytes that hold \<open>n\<close> bits, as the handlers compute it.\<close>

definition bits_nbytes :: "u16 \<Rightarrow> u8" where
  "bits_nbytes n = (if n AND 7 \<noteq> 0 then ucast (n div 8 + 1) else ucast (n div 8))"

section \<open>mbfunccoils.c\<close>

definition eMBFuncReadCoils :: "'app mb_app \<Rightarrow> u8 list \<Rightarrow> u16 \<Rightarrow> 'app \<Rightarrow> 'app mb_result" where
  "eMBFuncReadCoils cbs pucFrame usLen app =
     (if usLen = 4 + 1 then do {
        usRegAddress \<leftarrow> pdu_u16 pucFrame 1;
        let usRegAddress = usRegAddress + 1;
        usCoilCount \<leftarrow> pdu_u16 pucFrame 3;
        if 1 \<le> usCoilCount \<and> usCoilCount < 0x07D0 then do {
          pucFrame \<leftarrow> array_put pucFrame 0 MB_FUNC_READ_COILS;
          let ucNBytes = bits_nbytes usCoilCount;
          pucFrame \<leftarrow> array_put pucFrame 1 ucNBytes;
          (eRegStatus, pucFrame, app) \<leftarrow>
            cb_at 2 (\<lambda>buf. app_RegCoilsCB cbs app buf usRegAddress usCoilCount MB_REG_READ) pucFrame;
          if eRegStatus \<noteq> MB_ENOERR then Some (prveMBError2Exception eRegStatus, pucFrame, 2, app)
          else Some (MB_EX_NONE, pucFrame, 2 + ucast ucNBytes, app)
        } else Some (MB_EX_ILLEGAL_DATA_VALUE, pucFrame, usLen, app)
      } else Some (MB_EX_ILLEGAL_DATA_VALUE, pucFrame, usLen, app))"

text \<open>\<^verbatim>\<open>eMBFuncWriteCoil\<close> passes the callback a local buffer of two bytes.\<close>

definition eMBFuncWriteCoil :: "'app mb_app \<Rightarrow> u8 list \<Rightarrow> u16 \<Rightarrow> 'app \<Rightarrow> 'app mb_result" where
  "eMBFuncWriteCoil cbs pucFrame usLen app =
     (if usLen = 4 + 1 then do {
        usRegAddress \<leftarrow> pdu_u16 pucFrame 1;
        let usRegAddress = usRegAddress + 1;
        v0 \<leftarrow> array_get pucFrame 3;
        v1 \<leftarrow> array_get pucFrame 4;
        if v1 = 0x00 \<and> (v0 = 0xFF \<or> v0 = 0x00) then do {
          let ucBuf = [if v0 = 0xFF then 1 else 0, 0];
          (eRegStatus, _, app) \<leftarrow> app_RegCoilsCB cbs app ucBuf usRegAddress 1 MB_REG_WRITE;
          Some (if eRegStatus \<noteq> MB_ENOERR then prveMBError2Exception eRegStatus else MB_EX_NONE,
                pucFrame, usLen, app)
        } else Some (MB_EX_ILLEGAL_DATA_VALUE, pucFrame, usLen, app)
      } else Some (MB_EX_ILLEGAL_DATA_VALUE, pucFrame, usLen, app))"

definition eMBFuncWriteMultipleCoils :: "'app mb_app \<Rightarrow> u8 list \<Rightarrow> u16 \<Rightarrow> 'app \<Rightarrow> 'app mb_result" where
  "eMBFuncWriteMultipleCoils cbs pucFrame usLen app =
     (if 4 + 1 < usLen then do {
        usRegAddress \<leftarrow> pdu_u16 pucFrame 1;
        let usRegAddress = usRegAddress + 1;
        usCoilCnt \<leftarrow> pdu_u16 pucFrame 3;
        ucByteCount \<leftarrow> array_get pucFrame 5;
        let ucByteCountVerify = bits_nbytes usCoilCnt;
        if 1 \<le> usCoilCnt \<and> usCoilCnt \<le> 0x07B0 \<and> ucByteCountVerify = ucByteCount then do {
          (eRegStatus, pucFrame, app) \<leftarrow>
            cb_at 6 (\<lambda>buf. app_RegCoilsCB cbs app buf usRegAddress usCoilCnt MB_REG_WRITE) pucFrame;
          if eRegStatus \<noteq> MB_ENOERR then Some (prveMBError2Exception eRegStatus, pucFrame, usLen, app)
          else Some (MB_EX_NONE, pucFrame, 5, app)
        } else Some (MB_EX_ILLEGAL_DATA_VALUE, pucFrame, usLen, app)
      } else Some (MB_EX_ILLEGAL_DATA_VALUE, pucFrame, usLen, app))"

section \<open>mbfuncdisc.c and mbfuncinput.c\<close>

definition eMBFuncReadDiscreteInputs :: "'app mb_app \<Rightarrow> u8 list \<Rightarrow> u16 \<Rightarrow> 'app \<Rightarrow> 'app mb_result" where
  "eMBFuncReadDiscreteInputs cbs pucFrame usLen app =
     (if usLen = 4 + 1 then do {
        usRegAddress \<leftarrow> pdu_u16 pucFrame 1;
        let usRegAddress = usRegAddress + 1;
        usDiscreteCnt \<leftarrow> pdu_u16 pucFrame 3;
        if 1 \<le> usDiscreteCnt \<and> usDiscreteCnt < 0x07D0 then do {
          pucFrame \<leftarrow> array_put pucFrame 0 MB_FUNC_READ_DISCRETE_INPUTS;
          let ucNBytes = bits_nbytes usDiscreteCnt;
          pucFrame \<leftarrow> array_put pucFrame 1 ucNBytes;
          (eRegStatus, pucFrame, app) \<leftarrow>
            cb_at 2 (\<lambda>buf. app_RegDiscreteCB cbs app buf usRegAddress usDiscreteCnt) pucFrame;
          if eRegStatus \<noteq> MB_ENOERR then Some (prveMBError2Exception eRegStatus, pucFrame, 2, app)
          else Some (MB_EX_NONE, pucFrame, 2 + ucast ucNBytes, app)
        } else Some (MB_EX_ILLEGAL_DATA_VALUE, pucFrame, usLen, app)
      } else Some (MB_EX_ILLEGAL_DATA_VALUE, pucFrame, usLen, app))"

definition eMBFuncReadInputRegister :: "'app mb_app \<Rightarrow> u8 list \<Rightarrow> u16 \<Rightarrow> 'app \<Rightarrow> 'app mb_result" where
  "eMBFuncReadInputRegister cbs pucFrame usLen app =
     (if usLen = 4 + 1 then do {
        usRegAddress \<leftarrow> pdu_u16 pucFrame 1;
        let usRegAddress = usRegAddress + 1;
        usRegCount \<leftarrow> pdu_u16 pucFrame 3;
        if 1 \<le> usRegCount \<and> usRegCount < 0x007D then do {
          pucFrame \<leftarrow> array_put pucFrame 0 MB_FUNC_READ_INPUT_REGISTER;
          pucFrame \<leftarrow> array_put pucFrame 1 (ucast (usRegCount * 2));
          (eRegStatus, pucFrame, app) \<leftarrow>
            cb_at 2 (\<lambda>buf. app_RegInputCB cbs app buf usRegAddress usRegCount) pucFrame;
          if eRegStatus \<noteq> MB_ENOERR then Some (prveMBError2Exception eRegStatus, pucFrame, 2, app)
          else Some (MB_EX_NONE, pucFrame, 2 + usRegCount * 2, app)
        } else Some (MB_EX_ILLEGAL_DATA_VALUE, pucFrame, usLen, app)
      } else Some (MB_EX_ILLEGAL_DATA_VALUE, pucFrame, usLen, app))"

section \<open>mbfuncholding.c\<close>

definition eMBFuncWriteHoldingRegister :: "'app mb_app \<Rightarrow> u8 list \<Rightarrow> u16 \<Rightarrow> 'app \<Rightarrow> 'app mb_result" where
  "eMBFuncWriteHoldingRegister cbs pucFrame usLen app =
     (if usLen = 4 + 1 then do {
        usRegAddress \<leftarrow> pdu_u16 pucFrame 1;
        let usRegAddress = usRegAddress + 1;
        (eRegStatus, pucFrame, app) \<leftarrow>
          cb_at 3 (\<lambda>buf. app_RegHoldingCB cbs app buf usRegAddress 1 MB_REG_WRITE) pucFrame;
        Some (if eRegStatus \<noteq> MB_ENOERR then prveMBError2Exception eRegStatus else MB_EX_NONE,
              pucFrame, usLen, app)
      } else Some (MB_EX_ILLEGAL_DATA_VALUE, pucFrame, usLen, app))"

definition eMBFuncWriteMultipleHoldingRegister ::
    "'app mb_app \<Rightarrow> u8 list \<Rightarrow> u16 \<Rightarrow> 'app \<Rightarrow> 'app mb_result" where
  "eMBFuncWriteMultipleHoldingRegister cbs pucFrame usLen app =
     (if 5 + 1 \<le> usLen then do {
        usRegAddress \<leftarrow> pdu_u16 pucFrame 1;
        let usRegAddress = usRegAddress + 1;
        usRegCount \<leftarrow> pdu_u16 pucFrame 3;
        ucRegByteCount \<leftarrow> array_get pucFrame 5;
        if 1 \<le> usRegCount \<and> usRegCount \<le> 0x0078 \<and> ucRegByteCount = ucast (2 * usRegCount) then do {
          (eRegStatus, pucFrame, app) \<leftarrow>
            cb_at 6 (\<lambda>buf. app_RegHoldingCB cbs app buf usRegAddress usRegCount MB_REG_WRITE) pucFrame;
          if eRegStatus \<noteq> MB_ENOERR then Some (prveMBError2Exception eRegStatus, pucFrame, usLen, app)
          else Some (MB_EX_NONE, pucFrame, 5, app)
        } else Some (MB_EX_ILLEGAL_DATA_VALUE, pucFrame, usLen, app)
      } else Some (MB_EX_ILLEGAL_DATA_VALUE, pucFrame, usLen, app))"

definition eMBFuncReadHoldingRegister :: "'app mb_app \<Rightarrow> u8 list \<Rightarrow> u16 \<Rightarrow> 'app \<Rightarrow> 'app mb_result" where
  "eMBFuncReadHoldingRegister cbs pucFrame usLen app =
     (if usLen = 4 + 1 then do {
        usRegAddress \<leftarrow> pdu_u16 pucFrame 1;
        let usRegAddress = usRegAddress + 1;
        usRegCount \<leftarrow> pdu_u16 pucFrame 3;
        if 1 \<le> usRegCount \<and> usRegCount \<le> 0x007D then do {
          pucFrame \<leftarrow> array_put pucFrame 0 MB_FUNC_READ_HOLDING_REGISTER;
          pucFrame \<leftarrow> array_put pucFrame 1 (ucast (usRegCount * 2));
          (eRegStatus, pucFrame, app) \<leftarrow>
            cb_at 2 (\<lambda>buf. app_RegHoldingCB cbs app buf usRegAddress usRegCount MB_REG_READ) pucFrame;
          if eRegStatus \<noteq> MB_ENOERR then Some (prveMBError2Exception eRegStatus, pucFrame, 2, app)
          else Some (MB_EX_NONE, pucFrame, 2 + usRegCount * 2, app)
        } else Some (MB_EX_ILLEGAL_DATA_VALUE, pucFrame, usLen, app)
      } else Some (MB_EX_ILLEGAL_DATA_VALUE, pucFrame, usLen, app))"

text \<open>
  \<^verbatim>\<open>eMBFuncReadWriteMultipleHoldingRegister\<close> has no \<^verbatim>\<open>else\<close> for a request that is too short: it
  returns \<^verbatim>\<open>MB_EX_NONE\<close> and leaves the request in place.
\<close>

definition eMBFuncReadWriteMultipleHoldingRegister ::
    "'app mb_app \<Rightarrow> u8 list \<Rightarrow> u16 \<Rightarrow> 'app \<Rightarrow> 'app mb_result" where
  "eMBFuncReadWriteMultipleHoldingRegister cbs pucFrame usLen app =
     (if 9 + 1 \<le> usLen then do {
        usRegReadAddress \<leftarrow> pdu_u16 pucFrame 1;
        let usRegReadAddress = usRegReadAddress + 1;
        usRegReadCount \<leftarrow> pdu_u16 pucFrame 3;
        usRegWriteAddress \<leftarrow> pdu_u16 pucFrame 5;
        let usRegWriteAddress = usRegWriteAddress + 1;
        usRegWriteCount \<leftarrow> pdu_u16 pucFrame 7;
        ucRegWriteByteCount \<leftarrow> array_get pucFrame 9;
        if 1 \<le> usRegReadCount \<and> usRegReadCount \<le> 0x7D \<and> 1 \<le> usRegWriteCount \<and> usRegWriteCount \<le> 0x79
           \<and> 2 * unat usRegWriteCount = unat ucRegWriteByteCount
        then do {
          (eRegStatus, pucFrame, app) \<leftarrow>
            cb_at 10 (\<lambda>buf. app_RegHoldingCB cbs app buf usRegWriteAddress usRegWriteCount MB_REG_WRITE) pucFrame;
          if eRegStatus = MB_ENOERR then do {
            pucFrame \<leftarrow> array_put pucFrame 0 MB_FUNC_READWRITE_MULTIPLE_REGISTERS;
            pucFrame \<leftarrow> array_put pucFrame 1 (ucast (usRegReadCount * 2));
            (eRegStatus, pucFrame, app) \<leftarrow>
              cb_at 2 (\<lambda>buf. app_RegHoldingCB cbs app buf usRegReadAddress usRegReadCount MB_REG_READ) pucFrame;
            if eRegStatus = MB_ENOERR then Some (MB_EX_NONE, pucFrame, 2 + 2 * usRegReadCount, app)
            else Some (prveMBError2Exception eRegStatus, pucFrame, 2, app)
          } else Some (prveMBError2Exception eRegStatus, pucFrame, usLen, app)
        } else Some (MB_EX_ILLEGAL_DATA_VALUE, pucFrame, usLen, app)
      } else Some (MB_EX_NONE, pucFrame, usLen, app))"

section \<open>mbfuncother.c\<close>

text \<open>The static variables of \<^verbatim>\<open>mbfuncother.c\<close>; the buffer has \<^verbatim>\<open>CONFIG_MB_FUNC_OTHER_REP_SLAVEID_BUF\<close> bytes.\<close>

record mb_slaveid =
  ucMBSlaveID :: "u8 list"
  usMBSlaveIDLen :: u16

definition eMBSetSlaveID ::
    "u8 \<Rightarrow> bool \<Rightarrow> u8 list \<Rightarrow> u16 \<Rightarrow> mb_slaveid \<Rightarrow> (eMBErrorCode \<times> mb_slaveid) option" where
  "eMBSetSlaveID ucSlaveID xIsRunning pucAdditional usAdditionalLen s =
     (if unat usAdditionalLen + 2 < length (ucMBSlaveID s) then do {
        buf \<leftarrow> array_put (ucMBSlaveID s) 0 ucSlaveID;
        buf \<leftarrow> array_put buf 1 (if xIsRunning then 0xFF else 0x00);
        if 0 < usAdditionalLen then do {
          add \<leftarrow> array_slice pucAdditional 0 (unat usAdditionalLen);
          buf \<leftarrow> array_blit buf 2 add;
          Some (MB_ENOERR, s\<lparr>ucMBSlaveID := buf, usMBSlaveIDLen := 2 + usAdditionalLen\<rparr>)
        } else Some (MB_ENOERR, s\<lparr>ucMBSlaveID := buf, usMBSlaveIDLen := 2\<rparr>)
      } else Some (MB_ENORES, s))"

definition eMBFuncReportSlaveID :: "mb_slaveid \<Rightarrow> u8 list \<Rightarrow> u16 \<Rightarrow> 'app \<Rightarrow> 'app mb_result" where
  "eMBFuncReportSlaveID sid pucFrame usLen app = do {
     ident \<leftarrow> array_slice (ucMBSlaveID sid) 0 (unat (usMBSlaveIDLen sid));
     pucFrame \<leftarrow> array_blit pucFrame 1 ident;
     Some (MB_EX_NONE, pucFrame, 1 + usMBSlaveIDLen sid, app)
   }"

section \<open>What the handlers rely on\<close>

text \<open>
  What the stack relies on after a handler: it returned, the buffer has its size, and
  a response without exception is a PDU of 1 to 253 bytes.
\<close>

definition mb_handled :: "u8 list \<Rightarrow> ('app \<Rightarrow> bool) \<Rightarrow> 'app mb_result \<Rightarrow> bool" where
  "mb_handled frame ok r \<longleftrightarrow>
     (\<exists>ex frame' len' app'. r = Some (ex, frame', len', app') \<and> length frame' = length frame \<and> ok app' \<and>
        (ex = MB_EX_NONE \<longrightarrow> 1 \<le> unat len' \<and> unat len' \<le> MB_PDU_SIZE_MAX))"

lemma mb_handledI:
  "length frame' = length frame \<Longrightarrow> ok app' \<Longrightarrow> (ex = MB_EX_NONE \<Longrightarrow> 1 \<le> unat len' \<and> unat len' \<le> 253) \<Longrightarrow>
   mb_handled frame ok (Some (ex, frame', len', app'))"
  by (simp add: mb_handled_def)

text \<open>
  The contract of a callback: for \<open>n\<close> items it stays inside the first \<open>span n\<close> bytes of its
  buffer, returns, and keeps the invariant \<open>ok\<close> of the application.
\<close>

locale mb_cb =
  fixes cb :: "'app reg_cb" and ok :: "'app \<Rightarrow> bool" and span :: "u16 \<Rightarrow> nat"
  assumes cb_total: "ok app \<Longrightarrow> span n \<le> length buf \<Longrightarrow>
    \<exists>e buf' app'. cb app buf a n m = Some (e, buf', app') \<and> length buf' = length buf \<and> ok app'"
begin

lemma cb_at_total:
  assumes "ok app" "i + span n \<le> length frame"
  shows "\<exists>e frame' app'. cb_at i (\<lambda>buf. cb app buf a n m) frame = Some (e, frame', app') \<and>
    length frame' = length frame \<and> ok app'"
proof -
  have "span n \<le> length (drop i frame)" "i \<le> length frame" using assms(2) by simp_all
  with cb_total [OF assms(1), of n "drop i frame" a m] show ?thesis
    by (auto simp: cb_at_def)
qed

lemma handled_cb:
  assumes "ok app" "i + span n \<le> length frame"
    and "\<And>e frame' app'. length frame' = length frame \<Longrightarrow> ok app' \<Longrightarrow> mb_handled frame0 ok (k (e, frame', app'))"
  shows "mb_handled frame0 ok (cb_at i (\<lambda>buf. cb app buf a n m) frame \<bind> k)"
  using cb_at_total [OF assms(1,2), of a m] assms(3) by auto

lemma handled_direct:
  assumes "ok app" "span n \<le> length buf"
    and "\<And>e buf' app'. ok app' \<Longrightarrow> mb_handled frame0 ok (k (e, buf', app'))"
  shows "mb_handled frame0 ok (cb app buf a n m \<bind> k)"
  using cb_total [OF assms(1,2), of a m] assms(3) by auto

end

text \<open>
  A register callback handles two bytes per register. A bit callback fits the shortest
  buffer it is called with: 249 bytes of the frame for several coils, and the two bytes
  of \<^verbatim>\<open>eMBFuncWriteCoil\<close> for one.
\<close>

locale mb_reg_cb = mb_cb cb ok "\<lambda>n. 2 * unat n"
  for cb :: "'app reg_cb" and ok :: "'app \<Rightarrow> bool"

locale mb_bit_cb = mb_cb +
  assumes span_frame: "span n \<le> 249" and span_one: "span 1 \<le> 2"
begin

lemma span_response: "span n \<le> 253"
  using span_frame [of n] by simp

end

text \<open>An application is sound when its four callbacks are.\<close>

locale mb_application =
  holding: mb_reg_cb "app_RegHoldingCB cbs" ok +
  input: mb_reg_cb "\<lambda>app buf a n m. app_RegInputCB cbs app buf a n" ok +
  coils: mb_bit_cb "app_RegCoilsCB cbs" ok cspan +
  disc: mb_bit_cb "\<lambda>app buf a n m. app_RegDiscreteCB cbs app buf a n" ok dspan
  for cbs :: "'app mb_app" and ok :: "'app \<Rightarrow> bool" and cspan dspan :: "u16 \<Rightarrow> nat"

lemma pdu_u16_Some: "Suc i < length frame \<Longrightarrow> pdu_u16 frame i = Some (be16 (frame ! i) (frame ! Suc i))"
  by (simp add: pdu_u16_def array_simps)

lemma error_not_none: "e \<noteq> MB_ENOERR \<Longrightarrow> prveMBError2Exception e \<noteq> MB_EX_NONE"
  by (cases e) simp_all

lemma unat_regs_len:
  "unat (n :: u16) \<le> 125 \<Longrightarrow> unat (2 + n * 2) = 2 + 2 * unat n"
  "unat (n :: u16) \<le> 125 \<Longrightarrow> unat (2 + 2 * n) = 2 + 2 * unat n"
  by (simp_all add: unat_word_ariths)

lemma bits_nbytes_value:
  assumes "unat n \<le> 2000"
  shows "unat (bits_nbytes n) = (unat n + 7) div 8"
proof -
  have seven: "n AND 7 = n mod 8"
    using take_bit_eq_mask [of 3 n] take_bit_eq_mod [of 3 n] by (simp add: mask_eq_exp_minus_1)
  have small: "unat (ucast w :: u8) = unat w" if "unat w < 256" for w :: u16
    using that by (simp add: unsigned_ucast_eq take_bit_eq_mod)
  have d: "unat (n div 8) = unat n div 8" "unat (n mod 8) = unat n mod 8"
    by (simp_all add: unat_div unat_mod)
  show ?thesis
  proof (cases "unat n mod 8 = 0")
    case True
    then have "n mod 8 = 0" using d by (simp add: unat_eq_zero)
    moreover have "unat n div 8 = (unat n + 7) div 8" using True by presburger
    moreover have "unat (n div 8) < 256" using assms d by simp
    ultimately show ?thesis by (simp add: bits_nbytes_def seven small d)
  next
    case False
    then have "n mod 8 \<noteq> 0" using d by (metis unat_0)
    moreover have "unat n div 8 + 1 = (unat n + 7) div 8" using False by presburger
    moreover have "unat (n div 8 + 1) = unat n div 8 + 1" "unat n div 8 + 1 < 256"
      using assms d by (simp_all add: unat_u16_Suc)
    ultimately show ?thesis by (simp add: bits_nbytes_def seven small)
  qed
qed

lemma unat_bits_len: "unat n < 2000 \<Longrightarrow> unat (2 + ucast (bits_nbytes n) :: u16) = 2 + (unat n + 7) div 8"
  using bits_nbytes_value [of n]
  by (simp add: unat_u16_add unsigned_ucast_eq take_bit_eq_mod)

lemmas u16_nat = word_less_nat_alt word_le_nat_alt

lemma mb_handled_reject:
  "ok app \<Longrightarrow> ex \<noteq> MB_EX_NONE \<Longrightarrow> mb_handled frame ok (Some (ex, frame, usLen, app))"
  by (simp add: mb_handled_def)

lemmas handler_simps =
  pdu_u16_Some array_simps u16_nat unat_regs_len unat_bits_len error_not_none mb_handled_reject

context mb_application
begin

lemma read_holding_handled:
  assumes "ok app" "length frame = 255"
  shows "mb_handled frame ok (eMBFuncReadHoldingRegister cbs frame usLen app)"
  using assms
  by (auto simp: eMBFuncReadHoldingRegister_def handler_simps Let_def
      intro!: holding.handled_cb mb_handledI)

lemma write_holding_handled:
  assumes "ok app" "length frame = 255"
  shows "mb_handled frame ok (eMBFuncWriteHoldingRegister cbs frame usLen app)"
  using assms
  by (auto simp: eMBFuncWriteHoldingRegister_def handler_simps Let_def
      intro!: holding.handled_cb mb_handledI)

lemma write_multiple_handled:
  assumes "ok app" "length frame = 255"
  shows "mb_handled frame ok (eMBFuncWriteMultipleHoldingRegister cbs frame usLen app)"
  using assms
  by (auto simp: eMBFuncWriteMultipleHoldingRegister_def handler_simps Let_def
      intro!: holding.handled_cb mb_handledI)

lemma read_write_handled:
  assumes "ok app" "length frame = 255" "1 \<le> unat usLen" "unat usLen \<le> 253"
  shows "mb_handled frame ok (eMBFuncReadWriteMultipleHoldingRegister cbs frame usLen app)"
  using assms
  by (auto simp: eMBFuncReadWriteMultipleHoldingRegister_def handler_simps Let_def
      intro!: holding.handled_cb mb_handledI)

lemma read_input_handled:
  assumes "ok app" "length frame = 255"
  shows "mb_handled frame ok (eMBFuncReadInputRegister cbs frame usLen app)"
  using assms
  by (auto simp: eMBFuncReadInputRegister_def handler_simps Let_def
      intro!: input.handled_cb mb_handledI)

lemma read_coils_handled:
  assumes "ok app" "length frame = 255"
  shows "mb_handled frame ok (eMBFuncReadCoils cbs frame usLen app)"
  using assms coils.span_response
  by (auto simp: eMBFuncReadCoils_def handler_simps Let_def
      intro!: coils.handled_cb mb_handledI)

lemma write_coils_handled:
  assumes "ok app" "length frame = 255"
  shows "mb_handled frame ok (eMBFuncWriteMultipleCoils cbs frame usLen app)"
  using assms coils.span_frame
  by (auto simp: eMBFuncWriteMultipleCoils_def handler_simps Let_def
      intro!: coils.handled_cb mb_handledI)

lemma write_coil_handled:
  assumes "ok app" "length frame = 255"
  shows "mb_handled frame ok (eMBFuncWriteCoil cbs frame usLen app)"
  using assms coils.span_one
  by (auto simp: eMBFuncWriteCoil_def handler_simps Let_def
      intro!: coils.handled_direct mb_handledI)

lemma read_discrete_handled:
  assumes "ok app" "length frame = 255"
  shows "mb_handled frame ok (eMBFuncReadDiscreteInputs cbs frame usLen app)"
  using assms disc.span_response
  by (auto simp: eMBFuncReadDiscreteInputs_def handler_simps Let_def
      intro!: disc.handled_cb mb_handledI)

end

text \<open>
  A register callback that stores what is written: a successful write of \<open>n\<close> registers is
  what a read of the same registers returns.
\<close>

locale mb_reg_store = mb_reg_cb cb ok
  for cb :: "'app reg_cb" and ok :: "'app \<Rightarrow> bool" +
  assumes write_read: "ok app \<Longrightarrow> 2 * unat n \<le> length buf \<Longrightarrow> 2 * unat n \<le> length buf2 \<Longrightarrow>
    cb app buf a n MB_REG_WRITE = Some (MB_ENOERR, buf', app') \<Longrightarrow>
    buf' = buf \<and> cb app' buf2 a n MB_REG_READ =
      Some (MB_ENOERR, take (2 * unat n) buf @ drop (2 * unat n) buf2, app')"
begin

lemma write_multiple_then_read:
  assumes app: "ok app" "app_RegHoldingCB cbs = cb" and len: "length w = 255" "length r = 255"
    and same: "pdu_u16 r 1 = pdu_u16 w 1" "pdu_u16 r 3 = pdu_u16 w 3"
    and wrote: "eMBFuncWriteMultipleHoldingRegister cbs w usLen app = Some (MB_EX_NONE, w', len', app')"
  shows "w' = w \<and> len' = 5 \<and> (\<exists>n r'. pdu_u16 w 3 = Some n \<and>
    eMBFuncReadHoldingRegister cbs r 5 app' = Some (MB_EX_NONE, r', 2 + 2 * n, app') \<and>
    take (unat (2 + 2 * n)) r' = 3 # ucast (2 * n) # take (2 * unat n) (drop 6 w))"
proof -
  let ?a = "be16 (w ! 1) (w ! 2) + 1" and ?n = "be16 (w ! 3) (w ! 4)"
  have fields: "pdu_u16 w 1 = Some (be16 (w ! 1) (w ! 2))" "pdu_u16 w 3 = Some ?n"
    using len by (simp_all add: pdu_u16_Some numeral_2_eq_2)
  obtain buf where cnt: "1 \<le> unat ?n" "unat ?n \<le> 120" and cb: "cb app (drop 6 w) ?a ?n MB_REG_WRITE = Some (MB_ENOERR, buf, app')"
    and w': "w' = take 6 w @ buf" "len' = 5"
    using wrote app(2) len fields
    by (auto simp: eMBFuncWriteMultipleHoldingRegister_def array_simps cb_at_def u16_nat Let_def error_not_none
        split: if_splits bind_splits)
  let ?r = "r[0 := 3, Suc 0 := ucast (?n * 2)]"
  have wr: "buf = drop 6 w"
    "cb app' (drop 2 ?r) ?a ?n MB_REG_READ =
      Some (MB_ENOERR, take (2 * unat ?n) (drop 6 w) @ drop (2 * unat ?n) (drop 2 ?r), app')"
    using write_read [OF app(1) _ _ cb, of "drop 2 ?r"] cnt len by simp_all
  have r2: "take 2 ?r = [3, ucast (2 * ?n)]"
    using len by (cases r rule: remdups_adj.cases) (auto simp: mult.commute)
  have "eMBFuncReadHoldingRegister cbs r 5 app' =
      Some (MB_EX_NONE, take 2 ?r @ take (2 * unat ?n) (drop 6 w) @ drop (2 * unat ?n) (drop 2 ?r), 2 + 2 * ?n, app')"
    using fields same app(2) cnt len wr
    by (simp add: eMBFuncReadHoldingRegister_def array_simps cb_at_def u16_nat mult.commute)
  moreover have "unat (2 + 2 * ?n) = 2 + 2 * unat ?n" using cnt by (simp add: unat_regs_len)
  ultimately show ?thesis
    using fields w' wr(1) len cnt r2 by simp
qed

end

section \<open>Slave identification\<close>

text \<open>The buffer holds the identification, and its length stays below the size of the buffer.\<close>

definition slaveid_ok :: "mb_slaveid \<Rightarrow> bool" where
  "slaveid_ok s \<longleftrightarrow> unat (usMBSlaveIDLen s) \<le> length (ucMBSlaveID s) \<and> length (ucMBSlaveID s) \<le> 252"

lemma set_slaveid:
  assumes "slaveid_ok s" "unat n + 2 < length (ucMBSlaveID s)" "unat n \<le> length add"
  shows "\<exists>s'. eMBSetSlaveID i run add n s = Some (MB_ENOERR, s') \<and> slaveid_ok s' \<and>
    take (unat (usMBSlaveIDLen s')) (ucMBSlaveID s') = i # (if run then 0xFF else 0) # take (unat n) add \<and>
    unat (usMBSlaveIDLen s') = unat n + 2"
proof -
  obtain x y zs where z: "ucMBSlaveID s = x # y # zs"
    using assms(2) by (cases "ucMBSlaveID s" rule: remdups_adj.cases) auto
  have "unat (2 + n) = unat n + 2"
    using assms by (simp add: slaveid_ok_def unat_u16_add)
  then show ?thesis
    using assms z
    by (cases "0 < n") (auto simp: eMBSetSlaveID_def array_simps slaveid_ok_def u16_nat)
qed

lemma report_slaveid_handled:
  assumes "ok app" "slaveid_ok sid" "length frame = 255"
  shows "mb_handled frame ok (eMBFuncReportSlaveID sid frame usLen app)"
proof -
  have "unat (1 + usMBSlaveIDLen sid) = 1 + unat (usMBSlaveIDLen sid)"
    using assms(2) by (simp add: slaveid_ok_def unat_u16_add)
  then show ?thesis
    using assms by (auto simp: eMBFuncReportSlaveID_def slaveid_ok_def array_simps intro!: mb_handledI)
qed

section \<open>Properties\<close>

text \<open>
  what \<^verbatim>\<open>eMBSetSlaveID\<close> stores, the request \<^verbatim>\<open>Report Slave ID\<close> returns: after the function code
  come the identifier, the running indicator and the additional bytes, and the length
  covers exactly them. The one case it refuses is data that does not fit the buffer, and
  then nothing changes.
\<close>

theorem slaveid_roundtrip:
  assumes "slaveid_ok s" "unat n \<le> length add" "length frame = 255"
  shows "(unat n + 2 < length (ucMBSlaveID s) \<and>
     (\<exists>s' frame'. eMBSetSlaveID i run add n s = Some (MB_ENOERR, s') \<and>
        eMBFuncReportSlaveID s' frame usLen app = Some (MB_EX_NONE, frame', n + 3, app) \<and>
        take (unat (n + 3)) frame' = hd frame # i # (if run then 0xFF else 0) # take (unat n) add))
   \<or> (length (ucMBSlaveID s) \<le> unat n + 2 \<and> eMBSetSlaveID i run add n s = Some (MB_ENORES, s))"
proof (cases "unat n + 2 < length (ucMBSlaveID s)")
  case True
  from set_slaveid [OF assms(1) this assms(2)] obtain s' where
    s': "eMBSetSlaveID i run add n s = Some (MB_ENOERR, s')" "slaveid_ok s'"
      "take (unat (usMBSlaveIDLen s')) (ucMBSlaveID s') = i # (if run then 0xFF else 0) # take (unat n) add"
      "unat (usMBSlaveIDLen s') = unat n + 2" by blast
  have len: "unat n + 2 \<le> 252" using True assms(1) by (simp add: slaveid_ok_def)
  then have n3: "unat (n + 3) = unat n + 3" "1 + usMBSlaveIDLen s' = n + 3"
    using s'(4) by (simp_all add: word_unat_eq_iff unat_u16_add)
  obtain x xs where f: "frame = x # xs" "length xs = 254" using assms(3) by (cases frame) auto
  have "length (take (unat n) add) = unat n" using assms(2) by simp
  then have "eMBFuncReportSlaveID s' frame usLen app = Some (MB_EX_NONE,
      x # (i # (if run then 0xFF else 0) # take (unat n) add) @ drop (unat n + 2) xs, n + 3, app)"
    using s'(2,3,4) n3 f len by (simp add: eMBFuncReportSlaveID_def slaveid_ok_def array_simps)
  then show ?thesis
    using True s'(1) n3(1) f(1) assms(2) by (auto simp: numeral_3_eq_3)
next
  case False
  then show ?thesis by (simp add: eMBSetSlaveID_def)
qed

theorem slaveid_roundtrip_witness:
  "\<exists>s' frame'. eMBSetSlaveID 9 True [4, 5] 2 \<lparr>ucMBSlaveID = replicate 32 0, usMBSlaveIDLen = 0\<rparr>
      = Some (MB_ENOERR, s') \<and>
    eMBFuncReportSlaveID s' (17 # replicate 254 0) 1 () = Some (MB_EX_NONE, frame', 5, ()) \<and>
    take 5 frame' = [17, 9, 0xFF, 4, 5]"
  using slaveid_roundtrip [of "\<lparr>ucMBSlaveID = replicate 32 0, usMBSlaveIDLen = 0\<rparr>" 2 "[4, 5]"
      "17 # replicate 254 0" 9 True 1 "()"]
  by (simp add: slaveid_ok_def)

text \<open>An application that accepts every request, to see which requests reach it.\<close>

definition accept_cbs :: "'app mb_app" where
  "accept_cbs = \<lparr>app_RegInputCB = \<lambda>app buf a n. Some (MB_ENOERR, buf, app),
     app_RegHoldingCB = \<lambda>app buf a n m. Some (MB_ENOERR, buf, app),
     app_RegCoilsCB = \<lambda>app buf a n m. Some (MB_ENOERR, buf, app),
     app_RegDiscreteCB = \<lambda>app buf a n. Some (MB_ENOERR, buf, app)\<rparr>"

text \<open>
  C26: the exact limits on the number of items of the read requests. They are not the same
  for the two kinds of registers: 125 holding registers are read, as the protocol allows,
  125 input registers are refused; coils and discrete inputs are refused from 2000 on,
  which the protocol still allows.
\<close>

theorem read_limits:
  assumes "length frame = 255" "pdu_u16 frame 3 = Some n"
  shows "((\<exists>f len. eMBFuncReadHoldingRegister accept_cbs frame 5 app = Some (MB_EX_NONE, f, len, app))
            \<longleftrightarrow> 1 \<le> unat n \<and> unat n \<le> 125) \<and>
    ((\<exists>f len. eMBFuncReadInputRegister accept_cbs frame 5 app = Some (MB_EX_NONE, f, len, app))
            \<longleftrightarrow> 1 \<le> unat n \<and> unat n < 125) \<and>
    ((\<exists>f len. eMBFuncReadCoils accept_cbs frame 5 app = Some (MB_EX_NONE, f, len, app))
            \<longleftrightarrow> 1 \<le> unat n \<and> unat n < 2000) \<and>
    ((\<exists>f len. eMBFuncReadDiscreteInputs accept_cbs frame 5 app = Some (MB_EX_NONE, f, len, app))
            \<longleftrightarrow> 1 \<le> unat n \<and> unat n < 2000)"
proof -
  obtain a where "pdu_u16 frame 1 = Some a" using assms by (simp add: pdu_u16_Some)
  then show ?thesis
    using assms
    by (auto simp: eMBFuncReadInputRegister_def eMBFuncReadHoldingRegister_def eMBFuncReadCoils_def
        eMBFuncReadDiscreteInputs_def accept_cbs_def cb_at_def array_simps u16_nat Let_def)
qed

theorem read_limits_witness:
  "((\<exists>f len. eMBFuncReadHoldingRegister accept_cbs ([3, 0, 9, 0, 125] @ replicate 250 0) 5 () = Some (MB_EX_NONE, f, len, ()))
            \<longleftrightarrow> 1 \<le> unat (125 :: u16) \<and> unat (125 :: u16) \<le> 125) \<and>
    ((\<exists>f len. eMBFuncReadInputRegister accept_cbs ([3, 0, 9, 0, 125] @ replicate 250 0) 5 () = Some (MB_EX_NONE, f, len, ()))
            \<longleftrightarrow> 1 \<le> unat (125 :: u16) \<and> unat (125 :: u16) < 125) \<and>
    ((\<exists>f len. eMBFuncReadCoils accept_cbs ([3, 0, 9, 0, 125] @ replicate 250 0) 5 () = Some (MB_EX_NONE, f, len, ()))
            \<longleftrightarrow> 1 \<le> unat (125 :: u16) \<and> unat (125 :: u16) < 2000) \<and>
    ((\<exists>f len. eMBFuncReadDiscreteInputs accept_cbs ([3, 0, 9, 0, 125] @ replicate 250 0) 5 () = Some (MB_EX_NONE, f, len, ()))
            \<longleftrightarrow> 1 \<le> unat (125 :: u16) \<and> unat (125 :: u16) < 2000)"
  by (rule read_limits) (simp_all add: pdu_u16_Some be16_def)

text \<open>
  two requests that write several registers are not checked against the length of the
  request. \<^verbatim>\<open>eMBFuncWriteMultipleHoldingRegister\<close> takes its registers from the frame buffer even
  when the request ends after the byte count, so the values come from an earlier frame;
  \<^verbatim>\<open>eMBFuncReadWriteMultipleHoldingRegister\<close> answers a request that is too short as if it had
  succeeded.
\<close>

theorem short_requests:
  assumes "6 \<le> unat usLen" "unat usLen' < 10"
  shows "(eMBFuncWriteMultipleHoldingRegister cbs frame usLen app = Some (MB_EX_NONE, f, 5, app')
       \<longleftrightarrow> eMBFuncWriteMultipleHoldingRegister cbs frame 6 app = Some (MB_EX_NONE, f, 5, app')) \<and>
    eMBFuncReadWriteMultipleHoldingRegister cbs frame usLen' app = Some (MB_EX_NONE, frame, usLen', app)"
proof -
  have len: "6 \<le> usLen" "\<not> 10 \<le> usLen'" using assms by (simp_all add: u16_nat)
  have "prveMBError2Exception e \<noteq> MB_EX_NONE" if "e \<noteq> MB_ENOERR" for e
    using that by (rule error_not_none)
  then have "eMBFuncWriteMultipleHoldingRegister cbs frame usLen app = Some (MB_EX_NONE, f, 5, app')
       \<longleftrightarrow> eMBFuncWriteMultipleHoldingRegister cbs frame 6 app = Some (MB_EX_NONE, f, 5, app')"
    using len(1)
    by (cases "pdu_u16 frame 1"; cases "pdu_u16 frame 3"; cases "array_get frame 5")
       (auto simp: eMBFuncWriteMultipleHoldingRegister_def Let_def cb_at_def split: bind_splits)
  then show ?thesis
    using len(2) by (simp add: eMBFuncReadWriteMultipleHoldingRegister_def)
qed

theorem short_requests_witness:
  "(eMBFuncWriteMultipleHoldingRegister accept_cbs ([16, 0, 9, 0, 2, 4] @ replicate 249 0) 10 ()
        = Some (MB_EX_NONE, [16, 0, 9, 0, 2, 4] @ replicate 249 0, 5, ())
     \<longleftrightarrow> eMBFuncWriteMultipleHoldingRegister accept_cbs ([16, 0, 9, 0, 2, 4] @ replicate 249 0) 6 ()
        = Some (MB_EX_NONE, [16, 0, 9, 0, 2, 4] @ replicate 249 0, 5, ())) \<and>
    eMBFuncReadWriteMultipleHoldingRegister accept_cbs ([16, 0, 9, 0, 2, 4] @ replicate 249 0) 3 ()
      = Some (MB_EX_NONE, [16, 0, 9, 0, 2, 4] @ replicate 249 0, 3, ())"
  by (rule short_requests) simp_all

end
