(* ===== verification/MbTcp.thy ===== *)
theory MbTcp
  imports MbTypes
begin

text \<open>
  The TCP transmission layer, \<^verbatim>\<open>modbus/tcp/mbtcp.c\<close>. The port functions it calls are not part
  of the repository: they are the fields of \<open>tcp_port\<close>, over a network state \<open>'net\<close>. The buffer
  a request arrives in belongs to the port; a request is that buffer and the length of
  the application data unit in it.
\<close>

record 'net tcp_port =
  xMBTCPPortInit :: "u16 \<Rightarrow> 'net \<Rightarrow> bool \<times> 'net"
  vMBTCPPortDisable :: "'net \<Rightarrow> 'net"
  xMBTCPPortGetRequest :: "'net \<Rightarrow> (u8 list \<times> u16) option \<times> 'net"
  xMBTCPPortSendResponse :: "u8 list \<Rightarrow> u16 \<Rightarrow> 'net \<Rightarrow> bool \<times> 'net"
  vMBTCPPortClose :: "('net \<Rightarrow> 'net) option"

abbreviation (input) MB_TCP_PID :: nat where "MB_TCP_PID \<equiv> 2"
abbreviation (input) MB_TCP_LEN :: nat where "MB_TCP_LEN \<equiv> 4"
abbreviation (input) MB_TCP_FUNC :: nat where "MB_TCP_FUNC \<equiv> 7"
abbreviation (input) MB_TCP_PROTOCOL_ID :: u16 where "MB_TCP_PROTOCOL_ID \<equiv> 0"

definition eMBTCPDoInit :: "'net tcp_port \<Rightarrow> u16 \<Rightarrow> 'net \<Rightarrow> eMBErrorCode \<times> 'net" where
  "eMBTCPDoInit port ucTCPPort net =
     (let (ok, net) = xMBTCPPortInit port ucTCPPort net in (if ok then MB_ENOERR else MB_EPORTERR, net))"

definition eMBTCPStart :: "'net \<Rightarrow> 'net" where
  "eMBTCPStart net = net"

definition eMBTCPStop :: "'net tcp_port \<Rightarrow> 'net \<Rightarrow> 'net" where
  "eMBTCPStop port net = vMBTCPPortDisable port net"

text \<open>
  \<^verbatim>\<open>eMBTCPReceive\<close>: the error, or the pseudo address, the position of the PDU in the buffer
  and its length; then the buffer (unchanged without a request) and the network.
\<close>

definition eMBTCPReceive ::
    "'net tcp_port \<Rightarrow> u8 list \<Rightarrow> 'net \<Rightarrow> ((eMBErrorCode + u8 \<times> nat \<times> u16) \<times> u8 list \<times> 'net) option" where
  "eMBTCPReceive port buf net =
     (case xMBTCPPortGetRequest port net of
        (None, net) \<Rightarrow> Some (Inl MB_EIO, buf, net)
      | (Some (pucMBTCPFrame, usLength), net) \<Rightarrow> do {
          hi \<leftarrow> array_get pucMBTCPFrame MB_TCP_PID;
          lo \<leftarrow> array_get pucMBTCPFrame (MB_TCP_PID + 1);
          if be16 hi lo = MB_TCP_PROTOCOL_ID
          then Some (Inr (MB_TCP_PSEUDO_ADDRESS, MB_TCP_FUNC, usLength - 7), pucMBTCPFrame, net)
          else Some (Inl MB_EIO, pucMBTCPFrame, net)
        })"

definition eMBTCPSend ::
    "'net tcp_port \<Rightarrow> nat \<Rightarrow> u16 \<Rightarrow> u8 list \<Rightarrow> 'net \<Rightarrow> (eMBErrorCode \<times> u8 list \<times> 'net) option" where
  "eMBTCPSend port pucFrame usLength buf net = do {
     DEBUGASSERT (MB_TCP_FUNC \<le> pucFrame);
     let i = pucFrame - MB_TCP_FUNC;
     buf \<leftarrow> array_put buf (i + MB_TCP_LEN) (hi8 (usLength + 1));
     buf \<leftarrow> array_put buf (i + MB_TCP_LEN + 1) (lo8 (usLength + 1));
     let (ok, net) = xMBTCPPortSendResponse port (drop i buf) (usLength + 7) net;
     Some (if ok then MB_ENOERR else MB_EIO, buf, net)
   }"

section \<open>Properties\<close>

text \<open>
  an answer over TCP goes into the frame of its request. The port is handed a frame
  with the transaction identifier, the protocol identifier and the unit identifier of the
  request and with the PDU, seven bytes longer than the PDU, and its length field counts
  the unit identifier and the PDU.
\<close>

theorem tcp_send_header:
  assumes "length buf = 260" "unat n \<le> 253"
  shows "\<exists>f ok net'. xMBTCPPortSendResponse port f (n + 7) net = (ok, net') \<and>
    eMBTCPSend port 7 n buf net = Some (if ok then MB_ENOERR else MB_EIO, f, net') \<and>
    length f = 260 \<and> take 4 f = take 4 buf \<and> drop 6 f = drop 6 buf \<and>
    unat (be16 (f ! 4) (f ! 5)) = unat n + 1 \<and> unat (n + 7) = unat n + 7"
proof -
  define f where "f = buf[4 := hi8 (n + 1), 5 := lo8 (n + 1)]"
  obtain ok net' where send: "xMBTCPPortSendResponse port f (n + 7) net = (ok, net')"
    by (cases "xMBTCPPortSendResponse port f (n + 7) net")
  then have "eMBTCPSend port 7 n buf net = Some (if ok then MB_ENOERR else MB_EIO, f, net')"
    using assms(1) by (simp add: eMBTCPSend_def array_simps f_def)
  moreover have "unat (be16 (f ! 4) (f ! 5)) = unat n + 1" "unat (n + 7) = unat n + 7"
    using assms by (simp_all add: f_def unat_u16_add)
  moreover have "length f = 260" "take 4 f = take 4 buf" "drop 6 f = drop 6 buf"
    using assms(1) by (simp_all add: f_def)
  ultimately show ?thesis using send by blast
qed

text \<open>A port that always has the same request and records what is sent.\<close>

definition tcp_example :: "u8 list \<Rightarrow> u8 list tcp_port" where
  "tcp_example req = \<lparr>xMBTCPPortInit = \<lambda>_ net. (True, net), vMBTCPPortDisable = \<lambda>net. net,
     xMBTCPPortGetRequest = \<lambda>net. (Some (req, 12), net),
     xMBTCPPortSendResponse = \<lambda>f n net. (True, take (unat n) f), vMBTCPPortClose = None\<rparr>"

theorem tcp_send_header_witness:
  "\<exists>f. eMBTCPSend (tcp_example []) 7 5 ([1, 2, 0, 0, 9, 9, 17] @ replicate 253 0) []
      = Some (MB_ENOERR, f, take 12 f) \<and>
    length f = 260 \<and> take 4 f = [1, 2, 0, 0] \<and> unat (be16 (f ! 4) (f ! 5)) = 6"
  using tcp_send_header [of "[1, 2, 0, 0, 9, 9, 17] @ replicate 253 0" 5 "tcp_example []" "[]"]
  by (auto simp: tcp_example_def)

end
