(* ===== verification/MbStack.thy ===== *)
theory MbStack
  imports MbAscii MbFunctions MbTcp
begin

text \<open>
  The protocol stack, \<^verbatim>\<open>modbus/mb.c\<close>. Its static variables extend those of the transmission
  layers. The function pointers to the current layer, which are always set together, are
  one tag, \<open>peMBFrameCur\<close>; the callbacks of the porting layer are another, \<open>pxMBFrameCBCur\<close>,
  because \<^verbatim>\<open>eMBTCPInit\<close> leaves them alone. \<open>None\<close> is the null pointer, and calling it an
  abort. \<^verbatim>\<open>ucMBFrame\<close> is a position in the serial frame buffer or in the buffer of the TCP port.

  What the stack is linked with is the argument \<open>env\<close>: the callbacks of the application, the
  TCP port, the serial device and the handlers an application may register itself.
\<close>

datatype mb_layer = LAYER_RTU | LAYER_ASCII | LAYER_TCP

datatype eMBStackState = STATE_ENABLED | STATE_DISABLED | STATE_NOT_INITIALIZED

datatype mb_buffer = SerialBuf | TcpBuf

datatype pxMBFunctionHandler =
    H_ReportSlaveID | H_ReadInputRegister | H_ReadHoldingRegister | H_WriteMultipleHoldingRegister
  | H_WriteHoldingRegister | H_ReadWriteMultipleHoldingRegister | H_ReadCoils | H_WriteCoil
  | H_WriteMultipleCoils | H_ReadDiscreteInputs | H_User nat

type_synonym xMBFunctionHandler = "u8 \<times> pxMBFunctionHandler option"

record ('app, 'net) mb_env =
  env_cbs :: "'app mb_app"
  env_tcp :: "'net tcp_port"
  env_dev :: serial_dev
  env_ascii_timeout :: u32
  env_user :: "nat \<Rightarrow> u8 list \<Rightarrow> u16 \<Rightarrow> 'app \<Rightarrow> 'app mb_result"

record ('app, 'net) mb = mb_ascii +
  ucMBAddress :: u8
  eMBCurrentMode :: eMBMode
  eMBState :: eMBStackState
  peMBFrameCur :: "mb_layer option"
  pxMBFrameCBCur :: "mb_layer option"
  xFuncHandlers :: "xMBFunctionHandler list"
  ucMBFrame :: "(mb_buffer \<times> nat) option"
  ucRcvAddress :: u8
  ucFunctionCode :: u8
  usLength :: u16
  eException :: eMBException
  mb_ident :: mb_slaveid
  mb_appst :: 'app
  mb_net :: 'net
  ucTCPBuf :: "u8 list"

text \<open>
  The initial table of handlers, all of them configured, in an array of
  \<^verbatim>\<open>CONFIG_MB_FUNC_HANDLERS_MAX\<close> entries.
\<close>

definition xFuncHandlers_init :: "xMBFunctionHandler list" where
  "xFuncHandlers_init =
     [(MB_FUNC_OTHER_REPORT_SLAVEID, Some H_ReportSlaveID),
      (MB_FUNC_READ_INPUT_REGISTER, Some H_ReadInputRegister),
      (MB_FUNC_READ_HOLDING_REGISTER, Some H_ReadHoldingRegister),
      (MB_FUNC_WRITE_MULTIPLE_REGISTERS, Some H_WriteMultipleHoldingRegister),
      (MB_FUNC_WRITE_REGISTER, Some H_WriteHoldingRegister),
      (MB_FUNC_READWRITE_MULTIPLE_REGISTERS, Some H_ReadWriteMultipleHoldingRegister),
      (MB_FUNC_READ_COILS, Some H_ReadCoils),
      (MB_FUNC_WRITE_SINGLE_COIL, Some H_WriteCoil),
      (MB_FUNC_WRITE_MULTIPLE_COILS, Some H_WriteMultipleCoils),
      (MB_FUNC_READ_DISCRETE_INPUTS, Some H_ReadDiscreteInputs)] @ replicate 6 (0, None)"

section \<open>Calls through the function pointers\<close>

definition mb_start :: "('app, 'net) mb \<Rightarrow> ('app, 'net) mb option" where
  "mb_start s =
     (case peMBFrameCur s of
        None \<Rightarrow> None
      | Some LAYER_RTU \<Rightarrow> eMBRTUStart s
      | Some LAYER_ASCII \<Rightarrow> eMBASCIIStart s
      | Some LAYER_TCP \<Rightarrow> Some (s\<lparr>mb_net := eMBTCPStart (mb_net s)\<rparr>))"

definition mb_stop :: "('app, 'net) mb_env \<Rightarrow> ('app, 'net) mb \<Rightarrow> ('app, 'net) mb option" where
  "mb_stop env s =
     (case peMBFrameCur s of
        None \<Rightarrow> None
      | Some LAYER_RTU \<Rightarrow> eMBRTUStop s
      | Some LAYER_ASCII \<Rightarrow> eMBASCIIStop s
      | Some LAYER_TCP \<Rightarrow> Some (s\<lparr>mb_net := eMBTCPStop (env_tcp env) (mb_net s)\<rparr>))"

definition mb_close :: "('app, 'net) mb_env \<Rightarrow> ('app, 'net) mb \<Rightarrow> ('app, 'net) mb" where
  "mb_close env s =
     (case peMBFrameCur s of
        None \<Rightarrow> s
      | Some LAYER_RTU \<Rightarrow> vMBPortClose s
      | Some LAYER_ASCII \<Rightarrow> vMBPortClose s
      | Some LAYER_TCP \<Rightarrow>
          (case vMBTCPPortClose (env_tcp env) of
             None \<Rightarrow> s
           | Some close \<Rightarrow> s\<lparr>mb_net := close (mb_net s)\<rparr>))"

definition mb_receive ::
    "('app, 'net) mb_env \<Rightarrow> ('app, 'net) mb
     \<Rightarrow> ((eMBErrorCode + u8 \<times> (mb_buffer \<times> nat) \<times> u16) \<times> ('app, 'net) mb) option" where
  "mb_receive env s =
     (case peMBFrameCur s of
        None \<Rightarrow> None
      | Some LAYER_RTU \<Rightarrow> do {
          r \<leftarrow> eMBRTUReceive s;
          Some (map_sum id (\<lambda>(addr, i, len). (addr, (SerialBuf, i), len)) r, s)
        }
      | Some LAYER_ASCII \<Rightarrow> do {
          r \<leftarrow> eMBASCIIReceive s;
          Some (map_sum id (\<lambda>(addr, i, len). (addr, (SerialBuf, i), len)) r, s)
        }
      | Some LAYER_TCP \<Rightarrow> do {
          (r, buf, net) \<leftarrow> eMBTCPReceive (env_tcp env) (ucTCPBuf s) (mb_net s);
          Some (map_sum id (\<lambda>(addr, i, len). (addr, (TcpBuf, i), len)) r, s\<lparr>ucTCPBuf := buf, mb_net := net\<rparr>)
        })"

text \<open>The layers send from their own buffer: a frame pointer into the other one is an abort.\<close>

definition mb_send ::
    "('app, 'net) mb_env \<Rightarrow> u8 \<Rightarrow> mb_buffer \<times> nat \<Rightarrow> u16 \<Rightarrow> ('app, 'net) mb
     \<Rightarrow> (eMBErrorCode \<times> ('app, 'net) mb) option" where
  "mb_send env addr frame len s =
     (case (peMBFrameCur s, frame) of
        (Some LAYER_RTU, (SerialBuf, i)) \<Rightarrow> eMBRTUSend addr i len s
      | (Some LAYER_ASCII, (SerialBuf, i)) \<Rightarrow> eMBASCIISend addr i len s
      | (Some LAYER_TCP, (TcpBuf, i)) \<Rightarrow> do {
          (e, buf, net) \<leftarrow> eMBTCPSend (env_tcp env) i len (ucTCPBuf s) (mb_net s);
          Some (e, s\<lparr>ucTCPBuf := buf, mb_net := net\<rparr>)
        }
      | _ \<Rightarrow> None)"

definition mb_byte_received :: "mb_layer option \<Rightarrow> ('app, 'net) mb \<Rightarrow> (bool \<times> ('app, 'net) mb) option" where
  "mb_byte_received l =
     (case l of Some LAYER_RTU \<Rightarrow> xMBRTUReceiveFSM | Some LAYER_ASCII \<Rightarrow> xMBASCIIReceiveFSM | _ \<Rightarrow> (\<lambda>s. None))"

definition mb_transmitter_empty :: "mb_layer option \<Rightarrow> ('app, 'net) mb \<Rightarrow> (bool \<times> ('app, 'net) mb) option" where
  "mb_transmitter_empty l =
     (case l of Some LAYER_RTU \<Rightarrow> xMBRTUTransmitFSM | Some LAYER_ASCII \<Rightarrow> xMBASCIITransmitFSM | _ \<Rightarrow> (\<lambda>s. None))"

definition mb_timer_expired :: "mb_layer option \<Rightarrow> ('app, 'net) mb \<Rightarrow> (bool \<times> ('app, 'net) mb) option" where
  "mb_timer_expired l =
     (case l of Some LAYER_RTU \<Rightarrow> xMBRTUTimerT35Expired | Some LAYER_ASCII \<Rightarrow> xMBASCIITimerT1SExpired
      | _ \<Rightarrow> (\<lambda>s. None))"

fun mb_call_handler ::
    "('app, 'net) mb_env \<Rightarrow> mb_slaveid \<Rightarrow> pxMBFunctionHandler \<Rightarrow> u8 list \<Rightarrow> u16 \<Rightarrow> 'app \<Rightarrow> 'app mb_result" where
  "mb_call_handler env sid H_ReportSlaveID = eMBFuncReportSlaveID sid"
| "mb_call_handler env sid H_ReadInputRegister = eMBFuncReadInputRegister (env_cbs env)"
| "mb_call_handler env sid H_ReadHoldingRegister = eMBFuncReadHoldingRegister (env_cbs env)"
| "mb_call_handler env sid H_WriteMultipleHoldingRegister = eMBFuncWriteMultipleHoldingRegister (env_cbs env)"
| "mb_call_handler env sid H_WriteHoldingRegister = eMBFuncWriteHoldingRegister (env_cbs env)"
| "mb_call_handler env sid H_ReadWriteMultipleHoldingRegister =
     eMBFuncReadWriteMultipleHoldingRegister (env_cbs env)"
| "mb_call_handler env sid H_ReadCoils = eMBFuncReadCoils (env_cbs env)"
| "mb_call_handler env sid H_WriteCoil = eMBFuncWriteCoil (env_cbs env)"
| "mb_call_handler env sid H_WriteMultipleCoils = eMBFuncWriteMultipleCoils (env_cbs env)"
| "mb_call_handler env sid H_ReadDiscreteInputs = eMBFuncReadDiscreteInputs (env_cbs env)"
| "mb_call_handler env sid (H_User k) = env_user env k"

section \<open>The interface of the stack\<close>

definition eMBInit ::
    "('app, 'net) mb_env \<Rightarrow> eMBMode \<Rightarrow> u8 \<Rightarrow> u8 \<Rightarrow> u32 \<Rightarrow> eMBParity \<Rightarrow> ('app, 'net) mb
     \<Rightarrow> (eMBErrorCode \<times> ('app, 'net) mb) option" where
  "eMBInit env eMode ucSlaveAddress ucPort ulBaudRate eParity s =
     (if ucSlaveAddress = MB_ADDRESS_BROADCAST \<or> ucSlaveAddress < MB_ADDRESS_MIN \<or> MB_ADDRESS_MAX < ucSlaveAddress
      then Some (MB_EINVAL, s)
      else do {
        let s = s\<lparr>ucMBAddress := ucSlaveAddress\<rparr>;
        (eStatus, s) \<leftarrow> (case eMode of
            MB_RTU \<Rightarrow>
              eMBRTUInit (env_dev env) (ucMBAddress s) ucPort ulBaudRate eParity
                (s\<lparr>peMBFrameCur := Some LAYER_RTU, pxMBFrameCBCur := Some LAYER_RTU\<rparr>)
          | MB_ASCII \<Rightarrow>
              eMBASCIIInit (env_ascii_timeout env) (env_dev env) (ucMBAddress s) ucPort ulBaudRate eParity
                (s\<lparr>peMBFrameCur := Some LAYER_ASCII, pxMBFrameCBCur := Some LAYER_ASCII\<rparr>)
          | MB_TCP \<Rightarrow> Some (MB_EINVAL, s));
        if eStatus = MB_ENOERR then
          let (ok, s) = xMBPortEventInit s in
          if \<not> ok then Some (MB_EPORTERR, s)
          else Some (MB_ENOERR, s\<lparr>eMBCurrentMode := eMode, eMBState := STATE_DISABLED\<rparr>)
        else Some (eStatus, s)
      })"

definition eMBTCPInit ::
    "('app, 'net) mb_env \<Rightarrow> u16 \<Rightarrow> ('app, 'net) mb \<Rightarrow> eMBErrorCode \<times> ('app, 'net) mb" where
  "eMBTCPInit env ucTCPPort s =
     (let (eStatus, net) = eMBTCPDoInit (env_tcp env) ucTCPPort (mb_net s);
          s = s\<lparr>mb_net := net\<rparr>
      in if eStatus \<noteq> MB_ENOERR then (eStatus, s\<lparr>eMBState := STATE_DISABLED\<rparr>)
         else let (ok, s) = xMBPortEventInit s in
              if \<not> ok then (MB_EPORTERR, s)
              else (MB_ENOERR, s\<lparr>peMBFrameCur := Some LAYER_TCP, ucMBAddress := MB_TCP_PSEUDO_ADDRESS,
                                 eMBCurrentMode := MB_TCP, eMBState := STATE_DISABLED\<rparr>))"

text \<open>The two loops of \<^verbatim>\<open>eMBRegisterCB\<close>; \<open>None\<close> when no entry is free.\<close>

fun handlers_insert :: "u8 \<Rightarrow> pxMBFunctionHandler \<Rightarrow> xMBFunctionHandler list \<Rightarrow> xMBFunctionHandler list option" where
  "handlers_insert code h [] = None"
| "handlers_insert code h ((c, p) # tab) =
     (if p = None \<or> p = Some h then Some ((code, Some h) # tab)
      else map_option ((#) (c, p)) (handlers_insert code h tab))"

fun handlers_remove :: "u8 \<Rightarrow> xMBFunctionHandler list \<Rightarrow> xMBFunctionHandler list" where
  "handlers_remove code [] = []"
| "handlers_remove code ((c, p) # tab) =
     (if c = code then (0, None) # tab else (c, p) # handlers_remove code tab)"

definition eMBRegisterCB ::
    "u8 \<Rightarrow> pxMBFunctionHandler option \<Rightarrow> ('app, 'net) mb \<Rightarrow> eMBErrorCode \<times> ('app, 'net) mb" where
  "eMBRegisterCB code pxHandler s =
     (if 0 < code \<and> code \<le> 127 then
        (case pxHandler of
           Some h \<Rightarrow>
             (case handlers_insert code h (xFuncHandlers s) of
                None \<Rightarrow> (MB_ENORES, s)
              | Some tab \<Rightarrow> (MB_ENOERR, s\<lparr>xFuncHandlers := tab\<rparr>))
         | None \<Rightarrow> (MB_ENOERR, s\<lparr>xFuncHandlers := handlers_remove code (xFuncHandlers s)\<rparr>))
      else (MB_EINVAL, s))"

definition eMBClose :: "('app, 'net) mb_env \<Rightarrow> ('app, 'net) mb \<Rightarrow> eMBErrorCode \<times> ('app, 'net) mb" where
  "eMBClose env s =
     (if eMBState s = STATE_DISABLED then (MB_ENOERR, mb_close env s) else (MB_EILLSTATE, s))"

definition eMBEnable :: "('app, 'net) mb \<Rightarrow> (eMBErrorCode \<times> ('app, 'net) mb) option" where
  "eMBEnable s =
     (if eMBState s = STATE_DISABLED then do {
        s \<leftarrow> mb_start s;
        Some (MB_ENOERR, s\<lparr>eMBState := STATE_ENABLED\<rparr>)
      } else Some (MB_EILLSTATE, s))"

definition eMBDisable :: "('app, 'net) mb_env \<Rightarrow> ('app, 'net) mb \<Rightarrow> (eMBErrorCode \<times> ('app, 'net) mb) option" where
  "eMBDisable env s =
     (if eMBState s = STATE_ENABLED then do {
        s \<leftarrow> mb_stop env s;
        Some (MB_ENOERR, s\<lparr>eMBState := STATE_DISABLED\<rparr>)
      } else if eMBState s = STATE_DISABLED then Some (MB_ENOERR, s)
      else Some (MB_EILLSTATE, s))"

section \<open>eMBPoll\<close>

text \<open>
  The loop over the handlers: it ends at the first entry with function code 0. \<open>None\<close> is no
  handler; the inner option is the pointer of the entry.
\<close>

fun handlers_find :: "u8 \<Rightarrow> xMBFunctionHandler list \<Rightarrow> pxMBFunctionHandler option option" where
  "handlers_find code [] = None"
| "handlers_find code ((c, p) # tab) =
     (if c = 0 then None else if c = code then Some p else handlers_find code tab)"

text \<open>The memory a frame pointer points to, up to the end of its array.\<close>

fun frame_mem :: "mb_buffer \<times> nat \<Rightarrow> ('app, 'net) mb \<Rightarrow> u8 list" where
  "frame_mem (SerialBuf, i) s = drop i (ucRTUBuf s)"
| "frame_mem (TcpBuf, i) s = drop i (ucTCPBuf s)"

fun frame_upd :: "mb_buffer \<times> nat \<Rightarrow> u8 list \<Rightarrow> ('app, 'net) mb \<Rightarrow> ('app, 'net) mb" where
  "frame_upd (SerialBuf, i) mem s = s\<lparr>ucRTUBuf := take i (ucRTUBuf s) @ mem\<rparr>"
| "frame_upd (TcpBuf, i) mem s = s\<lparr>ucTCPBuf := take i (ucTCPBuf s) @ mem\<rparr>"

definition mb_frame_received :: "('app, 'net) mb_env \<Rightarrow> ('app, 'net) mb \<Rightarrow> ('app, 'net) mb option" where
  "mb_frame_received env s = do {
     (r, s) \<leftarrow> mb_receive env s;
     (case r of
        Inl e \<Rightarrow> Some s
      | Inr (addr, frame, len) \<Rightarrow>
          let s = s\<lparr>ucRcvAddress := addr, ucMBFrame := Some frame, usLength := len\<rparr>
          in Some (if ucRcvAddress s = ucMBAddress s \<or> ucRcvAddress s = MB_ADDRESS_BROADCAST
                   then snd (xMBPortEventPost EV_EXECUTE s) else s))
   }"

definition mb_dispatch :: "('app, 'net) mb_env \<Rightarrow> mb_buffer \<times> nat \<Rightarrow> ('app, 'net) mb \<Rightarrow> ('app, 'net) mb option" where
  "mb_dispatch env frame s =
     (case handlers_find (ucFunctionCode s) (xFuncHandlers s) of
        None \<Rightarrow> Some s
      | Some None \<Rightarrow> None
      | Some (Some h) \<Rightarrow> do {
          (ex, mem, len, app) \<leftarrow> mb_call_handler env (mb_ident s) h (frame_mem frame s) (usLength s) (mb_appst s);
          Some (frame_upd frame mem (s\<lparr>eException := ex, usLength := len, mb_appst := app\<rparr>))
        })"

definition mb_error_frame :: "mb_buffer \<times> nat \<Rightarrow> ('app, 'net) mb \<Rightarrow> ('app, 'net) mb option" where
  "mb_error_frame frame s = do {
     mem \<leftarrow> array_put (frame_mem frame s) 0 (ucFunctionCode s OR MB_FUNC_ERROR);
     mem \<leftarrow> array_put mem 1 (exception_code (eException s));
     Some (frame_upd frame mem (s\<lparr>usLength := 2\<rparr>))
   }"

definition mb_execute :: "('app, 'net) mb_env \<Rightarrow> ('app, 'net) mb \<Rightarrow> ('app, 'net) mb option" where
  "mb_execute env s = do {
     frame \<leftarrow> ucMBFrame s;
     code \<leftarrow> array_get (frame_mem frame s) MB_PDU_FUNC_OFF;
     s \<leftarrow> mb_dispatch env frame (s\<lparr>ucFunctionCode := code, eException := MB_EX_ILLEGAL_FUNCTION\<rparr>);
     if ucRcvAddress s \<noteq> MB_ADDRESS_BROADCAST then do {
       s \<leftarrow> (if eException s \<noteq> MB_EX_NONE then mb_error_frame frame s else Some s);
       (_, s) \<leftarrow> mb_send env (ucMBAddress s) frame (usLength s) s;
       Some s
     } else Some s
   }"

text \<open>
  The delay before an ASCII answer (\<^verbatim>\<open>CONFIG_MB_ASCII_TIMEOUT_WAIT_BEFORE_SEND_MS\<close>) changes no
  variable of the stack and is left out.
\<close>

definition eMBPoll :: "('app, 'net) mb_env \<Rightarrow> ('app, 'net) mb \<Rightarrow> (eMBErrorCode \<times> ('app, 'net) mb) option" where
  "eMBPoll env s =
     (if eMBState s \<noteq> STATE_ENABLED then Some (MB_EILLSTATE, s)
      else do {
        (eEvent, s) \<leftarrow> xMBPortEventGet (mb_byte_received (pxMBFrameCBCur s))
          (mb_transmitter_empty (pxMBFrameCBCur s)) (mb_timer_expired (pxMBFrameCBCur s)) s;
        s \<leftarrow> (case eEvent of
            Some EV_FRAME_RECEIVED \<Rightarrow> mb_frame_received env s
          | Some EV_EXECUTE \<Rightarrow> mb_execute env s
          | _ \<Rightarrow> Some s);
        Some (MB_ENOERR, s)
      })"

section \<open>The RTU layer below the stack\<close>

text \<open>
  Under the stack the line keeps more than the invariant of the RTU layer: it does not
  touch the variables of the layers above, and it never posts \<^verbatim>\<open>EV_EXECUTE\<close>.
\<close>

definition rtu_line_inv :: "'a \<Rightarrow> 'a mb_rtu_scheme \<Rightarrow> bool" where
  "rtu_line_inv m s \<longleftrightarrow>
     rtu_inv s \<and> mb_rtu.more s = m \<and> (xEventInQueue s \<longrightarrow> eQueuedEvent s \<noteq> EV_EXECUTE)"

lemma rtu_rx_more:
  "xMBRTUReceiveFSM s = Some (b, s') \<Longrightarrow>
   mb_rtu.more s' = mb_rtu.more s \<and> xEventInQueue s' = xEventInQueue s \<and> eQueuedEvent s' = eQueuedEvent s"
  by (auto simp: rtu_fsm_defs split: bind_splits eMBRcvState.splits option.splits if_splits)

lemma rtu_tx_more:
  "xMBRTUTransmitFSM s = Some (b, s') \<Longrightarrow> mb_rtu.more s' = mb_rtu.more s \<and>
   (xEventInQueue s' = xEventInQueue s \<and> eQueuedEvent s' = eQueuedEvent s \<or> eQueuedEvent s' = EV_FRAME_SENT)"
  by (auto simp: rtu_fsm_defs split: bind_splits eMBSndState.splits if_splits)

lemma rtu_timer_more:
  "xMBRTUTimerT35Expired s = Some (b, s') \<Longrightarrow> mb_rtu.more s' = mb_rtu.more s \<and>
   (xEventInQueue s' = xEventInQueue s \<and> eQueuedEvent s' = eQueuedEvent s \<or> eQueuedEvent s' \<noteq> EV_EXECUTE)"
  by (auto simp: rtu_fsm_defs split: bind_splits eMBRcvState.splits)

interpretation rtu_line: mb_timed_line "rtu_line_inv m" xMBRTUReceiveFSM xMBRTUTransmitFSM rtu_tx_left
  xMBRTUTimerT35Expired for m
proof (unfold_locales, goal_cases)
  case (1 s) then show ?case by (simp add: rtu_line_inv_def rtu_inv_def)
next
  case (2 s b l) then show ?case by (simp add: rtu_line_inv_def rtu.inv_buffer)
next
  case (3 s p) then show ?case by (simp add: rtu_line_inv_def rtu.inv_rxpos)
next
  case (4 s w out) then show ?case by (simp add: rtu_line_inv_def rtu.inv_sent)
next
  case (5 s)
  then show ?case using rtu_rx_step [of s] rtu_rx_more [of s] by (fastforce simp: rtu_line_inv_def)
next
  case (6 s)
  then show ?case using rtu_tx_step [of s] rtu_tx_more [of s] by (fastforce simp: rtu_line_inv_def)
next
  case (7 s n) then show ?case by (simp add: rtu_line_inv_def rtu.inv_ticks)
next
  case (8 s) then show ?case by (simp add: rtu_line_inv_def rtu.inv_queue)
next
  case (9 s)
  then show ?case
    using rtu_timer_step [of s] rtu_timer_more [of "s\<lparr>bTimeoutEnable := False\<rparr>"]
    by (fastforce simp: rtu_line_inv_def)
qed

section \<open>The invariant of an RTU slave\<close>

definition handlers_ok :: "xMBFunctionHandler list \<Rightarrow> bool" where
  "handlers_ok tab \<longleftrightarrow> list_all (\<lambda>(c, p). c \<noteq> 0 \<longrightarrow> p \<noteq> None) tab"

definition mb_rtu_inv :: "('app \<Rightarrow> bool) \<Rightarrow> ('app, 'net) mb \<Rightarrow> bool" where
  "mb_rtu_inv ok s \<longleftrightarrow>
     rtu_inv s \<and> rx_ready s \<and> peMBFrameCur s = Some LAYER_RTU \<and> pxMBFrameCBCur s = Some LAYER_RTU \<and>
     eMBState s = STATE_ENABLED \<and> slaveid_ok (mb_ident s) \<and> ok (mb_appst s) \<and> handlers_ok (xFuncHandlers s) \<and>
     (xEventInQueue s \<and> eQueuedEvent s = EV_EXECUTE \<longrightarrow>
        ucMBFrame s = Some (SerialBuf, 1) \<and> 1 \<le> unat (usLength s) \<and> unat (usLength s) \<le> 253)"

lemma handlers_find_ok: "handlers_ok tab \<Longrightarrow> handlers_find code tab \<noteq> Some None"
  by (induction tab) (auto simp: handlers_ok_def split: if_splits)

lemma handlers_insert_ok: "handlers_ok tab \<Longrightarrow> handlers_insert code h tab = Some tab' \<Longrightarrow> handlers_ok tab'"
  by (induction tab arbitrary: tab') (auto simp: handlers_ok_def split: if_splits)

lemma handlers_remove_ok: "handlers_ok tab \<Longrightarrow> handlers_ok (handlers_remove code tab)"
  by (induction tab) (auto simp: handlers_ok_def split: if_splits)

lemma rtu_inv_buf: "rtu_inv s \<Longrightarrow> length b = 256 \<Longrightarrow> rtu_inv (s\<lparr>ucRTUBuf := b\<rparr>)"
  by (simp add: rtu_inv_def port_ok_def)

text \<open>\<^verbatim>\<open>eMBRTUSend\<close> of a PDU in place never aborts and changes nothing above the RTU layer.\<close>

lemma rtu_send_total:
  assumes "rtu_inv s" "rx_ready s" "unat n \<le> 253"
  shows "\<exists>e s'. eMBRTUSend a 1 n s = Some (e, s') \<and> rtu_inv s' \<and> rx_ready s' \<and>
    mb_rtu.more s' = mb_rtu.more s \<and> xEventInQueue s' = xEventInQueue s \<and> eQueuedEvent s' = eQueuedEvent s"
proof (cases "rtu_eRcvState s = STATE_RX_IDLE")
  case True
  have len: "length (ucRTUBuf s) = 256" using assms(1) by (simp add: rtu_inv_def)
  note st = rtu_send_state [OF len True assms(3), of a]
  show ?thesis
    using rtu_send_inv [OF assms(1,3) st] st by (auto simp: rx_ready_def)
next
  case False
  then show ?thesis using assms by (simp add: eMBRTUSend_def)
qed

text \<open>\<^verbatim>\<open>eMBRTUReceive\<close> fails its assertion on a frame of 256 bytes, and only then.\<close>

lemma rtu_receive_total:
  assumes "rtu_inv s"
  shows "eMBRTUReceive s = None \<longleftrightarrow> rtu_usRcvBufferPos s = 256"
    "eMBRTUReceive s = Some (Inr (a, i, n)) \<Longrightarrow> i = 1 \<and> 1 \<le> unat n \<and> unat n \<le> 252"
proof -
  let ?p = "rtu_usRcvBufferPos s"
  have len: "length (ucRTUBuf s) = 256" "unat ?p \<le> 256"
    using assms by (simp_all add: rtu_inv_def word_le_nat_alt)
  then have "?p < 256 \<longleftrightarrow> ?p \<noteq> 256" by (auto simp: word_less_nat_alt word_unat_eq_iff)
  then show "eMBRTUReceive s = None \<longleftrightarrow> ?p = 256"
    using len by (auto simp: eMBRTUReceive_def array_simps word_le_nat_alt)
  show "i = 1 \<and> 1 \<le> unat n \<and> unat n \<le> 252" if r: "eMBRTUReceive s = Some (Inr (a, i, n))"
  proof -
    have p: "?p < 256" "4 \<le> ?p" "n = ?p - 3" "i = 1"
      using r by (auto simp: eMBRTUReceive_def split: bind_splits if_splits)
    then have "unat n = unat ?p - 3"
      by (simp add: unat_sub_if_size word_le_nat_alt word_less_nat_alt)
    moreover have "unat ?p < 256" "4 \<le> unat ?p" using p(1,2) by (simp_all add: word_less_nat_alt word_le_nat_alt)
    ultimately show ?thesis using p(4) by auto
  qed
qed

text \<open>What the RTU layer keeps of the stack.\<close>

lemma mb_more:
  assumes "mb_rtu.more s' = mb_rtu.more (s :: ('app, 'net) mb)"
  shows "peMBFrameCur s' = peMBFrameCur s" "pxMBFrameCBCur s' = pxMBFrameCBCur s" "eMBState s' = eMBState s"
    "mb_ident s' = mb_ident s" "mb_appst s' = mb_appst s" "xFuncHandlers s' = xFuncHandlers s"
    "ucMBFrame s' = ucMBFrame s" "usLength s' = usLength s" "ucMBAddress s' = ucMBAddress s"
    "ucRcvAddress s' = ucRcvAddress s" "ucFunctionCode s' = ucFunctionCode s" "eException s' = eException s"
  using assms by (cases s; cases s'; simp)+

section \<open>Polling an RTU slave\<close>

lemma event_get_quiet:
  "\<not> xEventInQueue s \<Longrightarrow> xMBPortEventGet rx tx tm s = Some (e, s') \<Longrightarrow> e = None"
  by (auto simp: xMBPortEventGet_def split: bind_splits)

lemma mb_rtu_callbacks:
  "mb_byte_received (Some LAYER_RTU) = xMBRTUReceiveFSM"
  "mb_transmitter_empty (Some LAYER_RTU) = xMBRTUTransmitFSM"
  "mb_timer_expired (Some LAYER_RTU) = xMBRTUTimerT35Expired"
  by (simp_all add: mb_byte_received_def mb_transmitter_empty_def mb_timer_expired_def)

lemma poll_event:
  assumes "eMBState s = STATE_ENABLED" "xEventInQueue s"
  shows "eMBPoll env s = map_option (Pair MB_ENOERR) (case eQueuedEvent s of
      EV_FRAME_RECEIVED \<Rightarrow> mb_frame_received env (s\<lparr>xEventInQueue := False\<rparr>)
    | EV_EXECUTE \<Rightarrow> mb_execute env (s\<lparr>xEventInQueue := False\<rparr>)
    | _ \<Rightarrow> Some (s\<lparr>xEventInQueue := False\<rparr>))"
  using assms
  by (cases "eQueuedEvent s") (simp_all add: eMBPoll_def xMBPortEventGet_def map_conv_bind_option comp_def)

lemma frame_received_rtu:
  assumes "peMBFrameCur s = Some LAYER_RTU"
  shows "eMBRTUReceive s = None \<Longrightarrow> mb_frame_received env s = None"
    "eMBRTUReceive s = Some (Inl e) \<Longrightarrow> mb_frame_received env s = Some s"
    "eMBRTUReceive s = Some (Inr (a, i, n)) \<Longrightarrow> mb_frame_received env s =
       Some (if a = ucMBAddress s \<or> a = 0
             then s\<lparr>ucRcvAddress := a, ucMBFrame := Some (SerialBuf, i), usLength := n, xEventInQueue := True,
                    eQueuedEvent := EV_EXECUTE\<rparr>
             else s\<lparr>ucRcvAddress := a, ucMBFrame := Some (SerialBuf, i), usLength := n\<rparr>)"
  using assms by (simp_all add: mb_frame_received_def mb_receive_def xMBPortEventPost_def Let_def)

text \<open>
  An environment is sound when the application is, and when the handlers an application
  may register meet the same contract as the built-in ones.
\<close>

locale mb_stack_env = mb_application "env_cbs env" ok cspan dspan
  for env :: "('app, 'net) mb_env" and ok :: "'app \<Rightarrow> bool" and cspan dspan :: "u16 \<Rightarrow> nat" +
  assumes user_handled: "ok app \<Longrightarrow> length frame = 255 \<Longrightarrow> 1 \<le> unat len \<Longrightarrow> unat len \<le> 253 \<Longrightarrow>
    mb_handled frame ok (env_user env k frame len app)"
begin

lemma call_handled:
  assumes "ok app" "slaveid_ok sid" "length frame = 255" "1 \<le> unat len" "unat len \<le> 253"
  shows "mb_handled frame ok (mb_call_handler env sid h frame len app)"
  using assms
  by (cases h) (simp_all add: report_slaveid_handled read_input_handled read_holding_handled
      write_multiple_handled write_holding_handled read_write_handled read_coils_handled write_coil_handled
      write_coils_handled read_discrete_handled user_handled)

lemma inv_frame:
  assumes "mb_rtu_inv ok s" "\<not> xEventInQueue s" "length b = 256" "ok app"
  shows "mb_rtu_inv ok (s\<lparr>eException := ex, usLength := n, mb_appst := app, ucRTUBuf := b\<rparr>)"
    "mb_rtu_inv ok (s\<lparr>usLength := n, ucRTUBuf := b\<rparr>)"
  using assms by (simp_all add: mb_rtu_inv_def rtu_inv_def port_ok_def rx_ready_def)

lemma dispatch_total:
  assumes s: "mb_rtu_inv ok s" "1 \<le> unat (usLength s)" "unat (usLength s) \<le> 253"
    and ex: "eException s \<noteq> MB_EX_NONE" and q: "\<not> xEventInQueue s"
  shows "\<exists>s'. mb_dispatch env (SerialBuf, 1) s = Some s' \<and> mb_rtu_inv ok s' \<and> \<not> xEventInQueue s' \<and>
    (eException s' = MB_EX_NONE \<longrightarrow> unat (usLength s') \<le> 253)"
proof (cases "handlers_find (ucFunctionCode s) (xFuncHandlers s)")
  case None
  then show ?thesis using s ex q by (simp add: mb_dispatch_def)
next
  case (Some p)
  then obtain h where h: "handlers_find (ucFunctionCode s) (xFuncHandlers s) = Some (Some h)"
    using s handlers_find_ok [of "xFuncHandlers s"] by (cases p) (auto simp: mb_rtu_inv_def)
  have len: "length (ucRTUBuf s) = 256" using s(1) by (simp add: mb_rtu_inv_def rtu_inv_def)
  have "mb_handled (drop 1 (ucRTUBuf s)) ok
      (mb_call_handler env (mb_ident s) h (drop 1 (ucRTUBuf s)) (usLength s) (mb_appst s))"
    using s len by (intro call_handled) (auto simp: mb_rtu_inv_def)
  then obtain ex mem n app where r:
    "mb_call_handler env (mb_ident s) h (drop 1 (ucRTUBuf s)) (usLength s) (mb_appst s) = Some (ex, mem, n, app)"
    "length mem = 255" "ok app" "ex = MB_EX_NONE \<Longrightarrow> unat n \<le> 253"
    using len by (auto simp: mb_handled_def)
  then have "mb_dispatch env (SerialBuf, 1) s =
      Some (s\<lparr>eException := ex, usLength := n, mb_appst := app, ucRTUBuf := take 1 (ucRTUBuf s) @ mem\<rparr>)"
    using h by (simp add: mb_dispatch_def)
  moreover have "length (take 1 (ucRTUBuf s) @ mem) = 256" using len r(2) by simp
  note inv_frame(1) [OF s(1) q this r(3), where ex = ex and n = n]
  ultimately show ?thesis using q r(4) by simp
qed

lemma error_frame_total:
  assumes s: "mb_rtu_inv ok s" and q: "\<not> xEventInQueue s"
  shows "\<exists>s'. mb_error_frame (SerialBuf, 1) s = Some s' \<and> mb_rtu_inv ok s' \<and> \<not> xEventInQueue s' \<and>
    usLength s' = 2"
proof -
  let ?b = "take 1 (ucRTUBuf s)
    @ (drop 1 (ucRTUBuf s))[0 := ucFunctionCode s OR 128, 1 := exception_code (eException s)]"
  have len: "length (ucRTUBuf s) = 256" "ok (mb_appst s)" using s by (simp_all add: mb_rtu_inv_def rtu_inv_def)
  then have "mb_error_frame (SerialBuf, 1) s = Some (s\<lparr>usLength := 2, ucRTUBuf := ?b\<rparr>)"
    by (simp add: mb_error_frame_def array_simps)
  moreover have "length ?b = 256" using len by simp
  note inv_frame(2) [OF s q this len(2), where n = 2]
  ultimately show ?thesis using q by simp
qed

lemma send_total:
  assumes s: "mb_rtu_inv ok s" and q: "\<not> xEventInQueue s" and n: "unat n \<le> 253"
  shows "\<exists>e s'. mb_send env a (SerialBuf, 1) n s = Some (e, s') \<and> mb_rtu_inv ok s'"
proof -
  have "rtu_inv s" "rx_ready s" "peMBFrameCur s = Some LAYER_RTU" using s by (simp_all add: mb_rtu_inv_def)
  then obtain e s' where s': "eMBRTUSend a 1 n s = Some (e, s')" "rtu_inv s'" "rx_ready s'"
    "mb_rtu.more s' = mb_rtu.more s" "xEventInQueue s' = xEventInQueue s"
    using rtu_send_total [of s n a] n by blast
  moreover have "mb_rtu_inv ok s'"
    using s q s' mb_more [OF s'(4)] by (simp add: mb_rtu_inv_def)
  ultimately show ?thesis using s by (simp add: mb_send_def mb_rtu_inv_def)
qed

lemma execute_total:
  assumes s: "mb_rtu_inv ok s" "ucMBFrame s = Some (SerialBuf, 1)"
    and len: "1 \<le> unat (usLength s)" "unat (usLength s) \<le> 253" and q: "\<not> xEventInQueue s"
  shows "\<exists>s'. mb_execute env s = Some s' \<and> mb_rtu_inv ok s'"
proof -
  have buf: "array_get (drop 1 (ucRTUBuf s)) 0 = Some (ucRTUBuf s ! 1)"
    using s(1) by (simp add: mb_rtu_inv_def rtu_inv_def array_simps)
  let ?s = "s\<lparr>ucFunctionCode := ucRTUBuf s ! 1, eException := MB_EX_ILLEGAL_FUNCTION\<rparr>"
  have "mb_rtu_inv ok ?s"
    using s(1) by (simp add: mb_rtu_inv_def rtu_inv_def port_ok_def rx_ready_def)
  then obtain s1 where s1: "mb_dispatch env (SerialBuf, 1) ?s = Some s1" "mb_rtu_inv ok s1" "\<not> xEventInQueue s1"
    "eException s1 = MB_EX_NONE \<longrightarrow> unat (usLength s1) \<le> 253"
    using dispatch_total [of ?s] len q by auto
  define r where "r = (if eException s1 \<noteq> MB_EX_NONE then mb_error_frame (SerialBuf, 1) s1 else Some s1)"
  obtain s2 where s2: "r = Some s2" "mb_rtu_inv ok s2" "\<not> xEventInQueue s2" "unat (usLength s2) \<le> 253"
    using s1(2,3,4) error_frame_total [OF s1(2,3)] by (cases "eException s1 = MB_EX_NONE") (auto simp: r_def)
  obtain e s3 where s3: "mb_send env (ucMBAddress s2) (SerialBuf, 1) (usLength s2) s2 = Some (e, s3)" "mb_rtu_inv ok s3"
    using send_total [OF s2(2,3,4)] by blast
  have "mb_execute env s = (if ucRcvAddress s1 \<noteq> 0 then Some s3 else Some s1)"
    unfolding mb_execute_def s(2) Option.bind.bind_lunit frame_mem.simps buf s1(1) r_def [symmetric] s2(1) s3(1)
    by simp
  then show ?thesis using s1(2) s3(2) by simp
qed

lemma inv_request:
  assumes "mb_rtu_inv ok s" "\<not> xEventInQueue s" "1 \<le> unat n" "unat n \<le> 253"
  shows "mb_rtu_inv ok (s\<lparr>ucRcvAddress := a, ucMBFrame := Some (SerialBuf, 1), usLength := n,
      xEventInQueue := True, eQueuedEvent := EV_EXECUTE\<rparr>)"
    "mb_rtu_inv ok (s\<lparr>ucRcvAddress := a, ucMBFrame := f, usLength := n\<rparr>)"
  using assms by (simp_all add: mb_rtu_inv_def rtu_inv_def port_ok_def rx_ready_def)

lemma frame_received_total:
  assumes s: "mb_rtu_inv ok s" and q: "\<not> xEventInQueue s"
  shows "mb_frame_received env s = None \<and> rtu_usRcvBufferPos s = 256 \<or>
    (\<exists>s'. mb_frame_received env s = Some s' \<and> mb_rtu_inv ok s' \<and> rtu_usRcvBufferPos s \<noteq> 256)"
proof -
  have inv: "rtu_inv s" "peMBFrameCur s = Some LAYER_RTU" using s by (simp_all add: mb_rtu_inv_def)
  note rcv = frame_received_rtu [OF inv(2)]
  consider "eMBRTUReceive s = None" | e where "eMBRTUReceive s = Some (Inl e)"
    | a i n where "eMBRTUReceive s = Some (Inr (a, i, n))"
    by (metis option.exhaust sum.exhaust prod_cases3)
  then show ?thesis
  proof cases
    case 1
    then show ?thesis using rcv(1) rtu_receive_total(1) [OF inv(1)] by simp
  next
    case 2
    then show ?thesis using rcv(2) [OF 2] rtu_receive_total(1) [OF inv(1)] s by simp
  next
    case 3
    from rtu_receive_total(2) [OF inv(1) 3] have n: "i = 1" "1 \<le> unat n" "unat n \<le> 253" by simp_all
    have "rtu_usRcvBufferPos s \<noteq> 256" using 3 rtu_receive_total(1) [OF inv(1)] by simp
    then show ?thesis
      unfolding rcv(3) [OF 3] n(1) using inv_request [OF s q n(2,3)] by simp
  qed
qed

lemma event_get_inv:
  assumes s: "mb_rtu_inv ok s" and q: "\<not> xEventInQueue s"
  shows "\<exists>s'. xMBPortEventGet xMBRTUReceiveFSM xMBRTUTransmitFSM xMBRTUTimerT35Expired s = Some (None, s') \<and>
    mb_rtu_inv ok s'"
proof -
  have pre: "rtu_line_inv (mb_rtu.more s) s" "rx_ready s"
    using s q by (simp_all add: rtu_line_inv_def mb_rtu_inv_def)
  from rtu_line.event_get_total [OF pre] obtain e s' where s': "xMBPortEventGet xMBRTUReceiveFSM xMBRTUTransmitFSM xMBRTUTimerT35Expired s = Some (e, s')"
    "rtu_line_inv (mb_rtu.more s) s'" "rx_ready s'"
    by (elim exE conjE)
  then have "e = None"
    using event_get_quiet [OF q] by blast
  have line: "rtu_inv s'" "mb_rtu.more s' = mb_rtu.more s" "xEventInQueue s' \<longrightarrow> eQueuedEvent s' \<noteq> EV_EXECUTE"
    using s'(2) by (simp_all add: rtu_line_inv_def)
  have "mb_rtu_inv ok s'"
    using s s'(3) line(1,3) by (auto simp: mb_rtu_inv_def mb_more [OF line(2)])
  with s'(1) \<open>e = None\<close> show ?thesis by simp
qed

text \<open>One poll of an RTU slave: what aborts it, and that it keeps the invariant.\<close>

lemma poll_total:
  assumes s: "mb_rtu_inv ok s"
  defines "overlong \<equiv> xEventInQueue s \<and> eQueuedEvent s = EV_FRAME_RECEIVED \<and> rtu_usRcvBufferPos s = 256"
  shows "eMBPoll env s = None \<and> overlong \<or>
    (\<exists>s'. eMBPoll env s = Some (MB_ENOERR, s') \<and> mb_rtu_inv ok s' \<and> \<not> overlong)"
proof (cases "xEventInQueue s")
  case False
  have st: "eMBState s = STATE_ENABLED" "pxMBFrameCBCur s = Some LAYER_RTU" using s by (simp_all add: mb_rtu_inv_def)
  from event_get_inv [OF s False] obtain s' where
    "xMBPortEventGet xMBRTUReceiveFSM xMBRTUTransmitFSM xMBRTUTimerT35Expired s = Some (None, s')" "mb_rtu_inv ok s'"
    by blast
  then show ?thesis
    using False st by (simp add: eMBPoll_def mb_rtu_callbacks overlong_def)
next
  case True
  let ?q = "s\<lparr>xEventInQueue := False\<rparr>"
  have st: "eMBState s = STATE_ENABLED" using s by (simp add: mb_rtu_inv_def)
  note poll = poll_event [OF st True, of env]
  have inv: "mb_rtu_inv ok ?q" "\<not> xEventInQueue ?q"
    using s by (simp_all add: mb_rtu_inv_def rtu.inv_queue rx_ready_def)
  show ?thesis
  proof (cases "eQueuedEvent s")
    case EV_FRAME_RECEIVED
    then show ?thesis
      using poll True frame_received_total [OF inv] by (auto simp: overlong_def)
  next
    case EV_EXECUTE
    then have "ucMBFrame s = Some (SerialBuf, 1)" "1 \<le> unat (usLength s)" "unat (usLength s) \<le> 253"
      using s True by (simp_all add: mb_rtu_inv_def)
    then have "\<exists>t. mb_execute env ?q = Some t \<and> mb_rtu_inv ok t"
      by (intro execute_total [OF inv(1)]) simp_all
    then show ?thesis using poll EV_EXECUTE by (auto simp: overlong_def)
  qed (use poll inv(1) in \<open>simp_all add: overlong_def\<close>)
qed

end

section \<open>The initial state\<close>

text \<open>
  The static variables as the C sources initialise them, with everything not initialised
  at zero; \<open>clk\<close> is the clock, \<open>app\<close> and \<open>net\<close> what the stack is linked with.
\<close>

definition mb_power_on :: "(nat \<Rightarrow> timeval option) \<Rightarrow> 'app \<Rightarrow> 'net \<Rightarrow> ('app, 'net) mb" where
  "mb_power_on clk app net = \<lparr>iSerialFd = -1, bRxEnabled = False, bTxEnabled = False, ulTimeoutMs = 0,
     ucBuffer = replicate 513 0, uiRxBufferPos = 0, uiTxBufferPos = 0, xOldTIO = ([], 0),
     eQueuedEvent = EV_READY, xEventInQueue = False, ulTimeOut = 0, bTimeoutEnable = False,
     xTimeLast = \<lparr>tv_sec = 0, tv_usec = 0\<rparr>, os_line = [], os_write = [], os_sent = [],
     os_clock = clk, os_ticks = 0, os_tio = ([], 0),
     rtu_eSndState = STATE_TX_IDLE, rtu_eRcvState = STATE_RX_INIT, ucRTUBuf = replicate 256 0,
     rtu_pucSndBufferCur = 0, rtu_usSndBufferCount = 0, rtu_usRcvBufferPos = 0,
     asc_eSndState = ASC_TX_IDLE, asc_eRcvState = ASC_RX_IDLE, asc_usRcvBufferPos = 0,
     eBytePos = BYTE_HIGH_NIBBLE, asc_pucSndBufferCur = 0, asc_usSndBufferCount = 0, ucMBLFCharacter = 0,
     ucMBAddress = 0, eMBCurrentMode = MB_RTU, eMBState = STATE_NOT_INITIALIZED, peMBFrameCur = None,
     pxMBFrameCBCur = None, xFuncHandlers = xFuncHandlers_init, ucMBFrame = None, ucRcvAddress = 0,
     ucFunctionCode = 0, usLength = 0, eException = MB_EX_NONE,
     mb_ident = \<lparr>ucMBSlaveID = replicate 32 0, usMBSlaveIDLen = 0\<rparr>, mb_appst = app, mb_net = net,
     ucTCPBuf = []\<rparr>"


section \<open>Properties\<close>

lemma handlers_find_append:
  "0 \<notin> fst ` set pre \<Longrightarrow> handlers_find c (pre @ post)
     = (case handlers_find c pre of None \<Rightarrow> handlers_find c post | r \<Rightarrow> r)"
  by (induction pre) auto

lemma handlers_insert_append:
  "\<forall>(c, p) \<in> set pre. p \<noteq> None \<and> p \<noteq> Some h \<Longrightarrow>
   handlers_insert code h (pre @ post) = map_option ((@) pre) (handlers_insert code h post)"
  by (cases "handlers_insert code h post"; induction pre) (auto split: if_splits)

lemma handlers_remove_append:
  "code \<notin> fst ` set pre \<Longrightarrow> handlers_remove code (pre @ (code, p) # post) = pre @ (0, None) # post"
  by (induction pre) auto

lemma handlers_find_hole: "c \<notin> fst ` set pre \<Longrightarrow> handlers_find c (pre @ (0, p) # post) = None"
  by (induction pre) auto

text \<open>
  registering a handler. In a table whose free entries are all at its end, a handler that
  is not in the table yet is added when an entry is free, and \<^verbatim>\<open>MB_ENORES\<close> is returned
  otherwise. Afterwards the search of \<^verbatim>\<open>eMBPoll\<close> finds what it found before, and the new
  handler for its code if that code had none: a second handler for a code has no effect.
\<close>

theorem register_lookup:
  assumes "xFuncHandlers s = pre @ replicate k (0, None)" "0 \<notin> fst ` set pre"
    and "\<forall>(c, p) \<in> set pre. p \<noteq> None \<and> p \<noteq> Some h" "0 < code" "code \<le> 127"
  shows "eMBRegisterCB code (Some h) s = (if k = 0 then (MB_ENORES, s)
      else (MB_ENOERR, s\<lparr>xFuncHandlers := pre @ (code, Some h) # replicate (k - 1) (0, None)\<rparr>)) \<and>
    (0 < k \<and> c \<noteq> 0 \<longrightarrow> handlers_find c (xFuncHandlers (snd (eMBRegisterCB code (Some h) s)))
      = (if c = code \<and> handlers_find code (xFuncHandlers s) = None then Some (Some h)
         else handlers_find c (xFuncHandlers s)))"
proof -
  have "handlers_insert code h (xFuncHandlers s) =
      (if k = 0 then None else Some (pre @ (code, Some h) # replicate (k - 1) (0, None)))"
    using handlers_insert_append [OF assms(3), of code "replicate k (0, None)"]
    by (cases k) (simp_all add: assms(1))
  moreover have "handlers_find c' (replicate j (0, None)) = None" for c' j by (cases j) simp_all
  ultimately show ?thesis
    using assms by (auto simp: eMBRegisterCB_def handlers_find_append split: option.splits)
qed

text \<open>
  C30: removing a handler hides others. \<^verbatim>\<open>eMBRegisterCB\<close> clears the entry of the code, and the
  search of \<^verbatim>\<open>eMBPoll\<close> stops at the first cleared entry: no handler behind it is found any
  more.
\<close>

theorem register_removal_hides:
  assumes "xFuncHandlers s = pre @ (code, p) # post" "code \<notin> fst ` set pre" "c \<notin> fst ` set pre"
    and "0 < code" "code \<le> 127"
  shows "\<exists>s'. eMBRegisterCB code None s = (MB_ENOERR, s') \<and> handlers_find c (xFuncHandlers s') = None"
  using assms by (simp add: eMBRegisterCB_def handlers_remove_append handlers_find_hole)

text \<open>The stack after power-on.\<close>

definition stack_example :: "(unit, unit) mb" where
  "stack_example = mb_power_on (\<lambda>n. Some \<lparr>tv_sec = int n, tv_usec = 0\<rparr>) () ()"

theorem register_lookup_witness:
  "fst (eMBRegisterCB 65 (Some (H_User 0)) stack_example) = MB_ENOERR \<and>
   handlers_find 65 (xFuncHandlers (snd (eMBRegisterCB 65 (Some (H_User 0)) stack_example)))
     = Some (Some (H_User 0))"
  using register_lookup [of stack_example "take 10 xFuncHandlers_init" 6 "H_User 0" 65 65]
  by (simp add: stack_example_def mb_power_on_def xFuncHandlers_init_def)

theorem register_removal_hides_witness:
  "handlers_find MB_FUNC_READ_COILS (xFuncHandlers stack_example) = Some (Some H_ReadCoils) \<and>
   (\<exists>s'. eMBRegisterCB MB_FUNC_READ_INPUT_REGISTER None stack_example = (MB_ENOERR, s') \<and>
     handlers_find MB_FUNC_READ_COILS (xFuncHandlers s') = None)"
  using register_removal_hides [of stack_example "take 1 xFuncHandlers_init" MB_FUNC_READ_INPUT_REGISTER
      "Some H_ReadInputRegister" "drop 2 xFuncHandlers_init" MB_FUNC_READ_COILS]
  by (simp add: stack_example_def mb_power_on_def xFuncHandlers_init_def)

end
