(* ===== verification/MbExample.thy ===== *)
theory MbExample
  imports MbFunctions
begin

text \<open>
  The register callbacks of the example application, \<^verbatim>\<open>examples/modbus/modbus_main.c\<close>, with the
  default configuration: four input registers from 1000, 130 holding registers from 2000
  and 32 coils from 3000. They provide the interface the handlers rely on.
\<close>

record modbus_state =
  reginput :: "u16 list"
  regholding :: "u16 list"
  regcoils :: "u16 list"

text \<open>
  The two loops of the callbacks: registers from \<open>index\<close> on are copied to or from the buffer
  at \<open>pos\<close>, low byte first.
\<close>

fun regs_read :: "u16 list \<Rightarrow> nat \<Rightarrow> u8 list \<Rightarrow> nat \<Rightarrow> nat \<Rightarrow> u8 list option" where
  "regs_read regs index buf pos 0 = Some buf"
| "regs_read regs index buf pos (Suc nregs) = do {
     v \<leftarrow> array_get regs index;
     buf \<leftarrow> array_put buf pos (lo8 v);
     buf \<leftarrow> array_put buf (pos + 1) (hi8 v);
     regs_read regs (index + 1) buf (pos + 2) nregs
   }"

fun regs_write :: "u16 list \<Rightarrow> nat \<Rightarrow> u8 list \<Rightarrow> nat \<Rightarrow> nat \<Rightarrow> u16 list option" where
  "regs_write regs index buf pos 0 = Some regs"
| "regs_write regs index buf pos (Suc nregs) = do {
     lo \<leftarrow> array_get buf pos;
     hi \<leftarrow> array_get buf (pos + 1);
     regs \<leftarrow> array_put regs index (be16 hi lo);
     regs_write regs (index + 1) buf (pos + 2) nregs
   }"

definition eMBRegInputCB :: "modbus_state input_cb" where
  "eMBRegInputCB g_modbus buffer address nregs =
     (if 1000 \<le> unat address \<and> unat address + unat nregs \<le> 1000 + 4 then do {
        buffer \<leftarrow> regs_read (reginput g_modbus) (unat address - 1000) buffer 0 (unat nregs);
        Some (MB_ENOERR, buffer, g_modbus)
      } else Some (MB_ENOREG, buffer, g_modbus))"

definition eMBRegHoldingCB :: "modbus_state reg_cb" where
  "eMBRegHoldingCB g_modbus buffer address nregs mode =
     (if 2000 \<le> unat address \<and> unat address + unat nregs \<le> 2000 + 130 then
        (case mode of
           MB_REG_READ \<Rightarrow> do {
             buffer \<leftarrow> regs_read (regholding g_modbus) (unat address - 2000) buffer 0 (unat nregs);
             Some (MB_ENOERR, buffer, g_modbus)
           }
         | MB_REG_WRITE \<Rightarrow> do {
             regs \<leftarrow> regs_write (regholding g_modbus) (unat address - 2000) buffer 0 (unat nregs);
             Some (MB_ENOERR, buffer, g_modbus\<lparr>regholding := regs\<rparr>)
           })
      else Some (MB_ENOREG, buffer, g_modbus))"

definition eMBRegCoilsCB :: "modbus_state reg_cb" where
  "eMBRegCoilsCB g_modbus buffer address ncoils mode =
     (if 3000 \<le> unat address \<and> unat address + unat ncoils \<le> 3000 + 32 then
        (case mode of
           MB_REG_READ \<Rightarrow> do {
             buffer \<leftarrow> regs_read (regcoils g_modbus) (unat address - 3000) buffer 0 (unat ncoils);
             Some (MB_ENOERR, buffer, g_modbus)
           }
         | MB_REG_WRITE \<Rightarrow> do {
             regs \<leftarrow> regs_write (regcoils g_modbus) (unat address - 3000) buffer 0 (unat ncoils);
             Some (MB_ENOERR, buffer, g_modbus\<lparr>regcoils := regs\<rparr>)
           })
      else Some (MB_ENOREG, buffer, g_modbus))"

definition eMBRegDiscreteCB :: "modbus_state input_cb" where
  "eMBRegDiscreteCB g_modbus buffer address ndiscrete = Some (MB_ENOREG, buffer, g_modbus)"

definition modbus_cbs :: "modbus_state mb_app" where
  "modbus_cbs = \<lparr>app_RegInputCB = eMBRegInputCB, app_RegHoldingCB = eMBRegHoldingCB,
     app_RegCoilsCB = eMBRegCoilsCB, app_RegDiscreteCB = eMBRegDiscreteCB\<rparr>"

text \<open>The arrays have their declared sizes.\<close>

definition modbus_ok :: "modbus_state \<Rightarrow> bool" where
  "modbus_ok g \<longleftrightarrow> length (reginput g) = 4 \<and> length (regholding g) = 130 \<and> length (regcoils g) = 32"

section \<open>The copy loops\<close>

definition regs_bytes :: "u16 list \<Rightarrow> u8 list" where
  "regs_bytes regs = concat (map (\<lambda>v. [lo8 v, hi8 v]) regs)"

lemma length_regs_bytes [simp]: "length (regs_bytes regs) = 2 * length regs"
  by (induction regs) (simp_all add: regs_bytes_def)

lemma regs_bytes_Cons: "regs_bytes (v # vs) = lo8 v # hi8 v # regs_bytes vs"
  by (simp add: regs_bytes_def)

lemma regs_read_value:
  "index + n \<le> length regs \<Longrightarrow> pos + 2 * n \<le> length buf \<Longrightarrow>
   regs_read regs index buf pos n =
     Some (take pos buf @ regs_bytes (take n (drop index regs)) @ drop (pos + 2 * n) buf)"
proof (induction n arbitrary: index pos buf)
  case 0
  then show ?case by (simp add: regs_bytes_def)
next
  case (Suc n)
  let ?v = "regs ! index" and ?buf = "buf[pos := lo8 (regs ! index), Suc pos := hi8 (regs ! index)]"
  have "take (pos + 2) ?buf = take pos buf @ [lo8 ?v, hi8 ?v]"
    using Suc.prems take_Suc_update [of pos buf] take_Suc_update [of "Suc pos" "buf[pos := lo8 ?v]"] by simp
  moreover have "take (Suc n) (drop index regs) = ?v # take n (drop (Suc index) regs)"
    using Suc.prems by (simp add: take_Suc_conv_app_nth flip: Cons_nth_drop_Suc)
  ultimately show ?case
    using Suc by (simp add: array_simps regs_bytes_Cons)
qed

lemma regs_write_value:
  "index + n \<le> length regs \<Longrightarrow> pos + 2 * n \<le> length buf \<Longrightarrow>
   \<exists>vs. regs_write regs index buf pos n = Some (take index regs @ vs @ drop (index + n) regs) \<and>
     length vs = n \<and> regs_bytes vs = take (2 * n) (drop pos buf)"
proof (induction n arbitrary: index pos regs)
  case 0
  then show ?case by (simp add: regs_bytes_def)
next
  case (Suc n)
  let ?v = "be16 (buf ! Suc pos) (buf ! pos)"
  obtain vs where vs: "regs_write (regs[index := ?v]) (Suc index) buf (pos + 2) n
      = Some (take (Suc index) (regs[index := ?v]) @ vs @ drop (Suc index + n) (regs[index := ?v]))"
    "length vs = n" "regs_bytes vs = take (2 * n) (drop (pos + 2) buf)"
    using Suc.IH [of "Suc index" "regs[index := ?v]" "pos + 2"] Suc.prems by auto
  have "take (Suc index) (regs[index := ?v]) = take index regs @ [?v]"
    using Suc.prems by (simp add: take_Suc_update)
  moreover have "drop pos buf = buf ! pos # buf ! Suc pos # drop (pos + 2) buf"
    using Suc.prems by (simp add: Cons_nth_drop_Suc)
  ultimately show ?case
    using vs Suc.prems by (intro exI [of _ "?v # vs"]) (simp add: array_simps regs_bytes_Cons)
qed

section \<open>The interfaces of the handlers\<close>

lemma holding_total:
  assumes "modbus_ok g" "2 * unat n \<le> length buf"
  shows "\<exists>e buf' g'. eMBRegHoldingCB g buf a n m = Some (e, buf', g') \<and> length buf' = length buf \<and> modbus_ok g'"
  using assms regs_write_value [of "unat a - 2000" "unat n" "regholding g" 0 buf]
  by (cases m) (auto simp: eMBRegHoldingCB_def modbus_ok_def regs_read_value le_diff_conv)

lemma input_total:
  assumes "modbus_ok g" "2 * unat n \<le> length buf"
  shows "\<exists>e buf' g'. eMBRegInputCB g buf a n = Some (e, buf', g') \<and> length buf' = length buf \<and> modbus_ok g'"
  using assms by (auto simp: eMBRegInputCB_def modbus_ok_def regs_read_value)

text \<open>The coil callback handles two bytes for every coil of a request it accepts.\<close>

definition coil_span :: "u16 \<Rightarrow> nat" where
  "coil_span n = (if unat n \<le> 32 then 2 * unat n else 0)"

lemma coils_total:
  assumes "modbus_ok g" "coil_span n \<le> length buf"
  shows "\<exists>e buf' g'. eMBRegCoilsCB g buf a n m = Some (e, buf', g') \<and> length buf' = length buf \<and> modbus_ok g'"
proof (cases "3000 \<le> unat a \<and> unat a + unat n \<le> 3032")
  case True
  then have "unat n \<le> 32" "2 * unat n \<le> length buf" using assms(2) by (auto simp: coil_span_def)
  then show ?thesis
    using True assms(1) regs_write_value [of "unat a - 3000" "unat n" "regcoils g" 0 buf]
    by (cases m) (auto simp: eMBRegCoilsCB_def modbus_ok_def regs_read_value le_diff_conv)
next
  case False
  then show ?thesis using assms(1) by (auto simp: eMBRegCoilsCB_def)
qed

lemma holding_write_read:
  assumes g: "modbus_ok g" and len: "2 * unat n \<le> length buf" "2 * unat n \<le> length buf2"
    and w: "eMBRegHoldingCB g buf a n MB_REG_WRITE = Some (MB_ENOERR, buf', g')"
  shows "buf' = buf \<and> eMBRegHoldingCB g' buf2 a n MB_REG_READ =
    Some (MB_ENOERR, take (2 * unat n) buf @ drop (2 * unat n) buf2, g')"
proof -
  let ?i = "unat a - 2000"
  have a: "2000 \<le> unat a" "unat a + unat n \<le> 2130"
    using w by (auto simp: eMBRegHoldingCB_def split: if_splits)
  then obtain vs where vs: "regs_write (regholding g) ?i buf 0 (unat n)
      = Some (take ?i (regholding g) @ vs @ drop (?i + unat n) (regholding g))"
    "length vs = unat n" "regs_bytes vs = take (2 * unat n) buf"
    using regs_write_value [of ?i "unat n" "regholding g" 0 buf] g len by (auto simp: modbus_ok_def le_diff_conv)
  then have g': "buf' = buf" "regholding g' = take ?i (regholding g) @ vs @ drop (?i + unat n) (regholding g)"
    using w a by (auto simp: eMBRegHoldingCB_def)
  moreover have "?i + unat n \<le> length (regholding g)" using a g by (simp add: modbus_ok_def)
  ultimately show ?thesis
    using a len vs(2,3) by (simp add: eMBRegHoldingCB_def regs_read_value)
qed

interpretation modbus: mb_application modbus_cbs modbus_ok coil_span "\<lambda>n. 0"
proof (unfold_locales, goal_cases)
  case (1 g n buf a m) then show ?case by (simp add: modbus_cbs_def holding_total)
next
  case (2 g n buf a m) then show ?case by (simp add: modbus_cbs_def input_total)
next
  case (3 g n buf a m) then show ?case by (simp add: modbus_cbs_def coils_total)
next
  case (4 n) then show ?case by (simp add: coil_span_def)
next
  case 5 then show ?case by (simp add: coil_span_def)
next
  case (6 g n buf a m) then show ?case by (simp add: modbus_cbs_def eMBRegDiscreteCB_def)
qed simp_all

interpretation holding: mb_reg_store eMBRegHoldingCB modbus_ok
proof (unfold_locales, goal_cases)
  case (1 g n buf a m) then show ?case by (rule holding_total)
next
  case (2 g n buf buf2 a buf' g') then show ?case by (rule holding_write_read)
qed

section \<open>Properties\<close>

definition holding_range :: "u16 \<Rightarrow> u16 \<Rightarrow> bool" where
  "holding_range a n \<longleftrightarrow> 1999 \<le> unat a \<and> unat a + unat n \<le> 2129"

lemma write_multiple_in_range:
  assumes g: "modbus_ok g" and len: "length w = 255" "6 \<le> unat usLen"
    and req: "pdu_u16 w 1 = Some a" "pdu_u16 w 3 = Some n" "w ! 5 = ucast (2 * n)"
    and n: "1 \<le> unat n" "unat n \<le> 120" and range: "holding_range a n"
  shows "\<exists>g'. eMBFuncWriteMultipleHoldingRegister modbus_cbs w usLen g = Some (MB_EX_NONE, w, 5, g')"
proof -
  have a: "unat (a + 1) = unat a + 1"
    using range by (simp add: holding_range_def unat_u16_Suc)
  then have r: "2000 \<le> unat (a + 1)" "unat (a + 1) + unat n \<le> 2130" "unat (a + 1) - 2000 + unat n \<le> 130"
    using range by (auto simp: holding_range_def)
  obtain regs where "regs_write (regholding g) (unat (a + 1) - 2000) (drop 6 w) 0 (unat n) = Some regs"
    using regs_write_value [of "unat (a + 1) - 2000" "unat n" "regholding g" 0 "drop 6 w"] r g n len
    by (auto simp: modbus_ok_def)
  then have "eMBRegHoldingCB g (drop 6 w) (a + 1) n MB_REG_WRITE = Some (MB_ENOERR, drop 6 w, g\<lparr>regholding := regs\<rparr>)"
    using r by (simp add: eMBRegHoldingCB_def)
  then show ?thesis
    using req n len
    by (simp add: eMBFuncWriteMultipleHoldingRegister_def array_simps u16_nat cb_at_def modbus_cbs_def)
qed

text \<open>
  C22: registers written by a Write Multiple Registers request are what a Read Holding
  Registers request for the same registers returns. For a block of 1 to 120 registers
  inside the range of the example application the write succeeds with the five bytes of
  its own header as the response, and the read returns the byte count and the written
  bytes, unchanged and in order.
\<close>

theorem holding_write_then_read:
  assumes g: "modbus_ok g" and len: "length w = 255" "length r = 255" "6 \<le> unat usLen"
    and req: "pdu_u16 w 1 = Some a" "pdu_u16 w 3 = Some n" "w ! 5 = ucast (2 * n)"
    and same: "pdu_u16 r 1 = Some a" "pdu_u16 r 3 = Some n"
    and n: "1 \<le> unat n" "unat n \<le> 120" and range: "holding_range a n"
  shows "\<exists>g' r'. eMBFuncWriteMultipleHoldingRegister modbus_cbs w usLen g = Some (MB_EX_NONE, w, 5, g') \<and>
    eMBFuncReadHoldingRegister modbus_cbs r 5 g' = Some (MB_EX_NONE, r', 2 + 2 * n, g') \<and>
    take (unat (2 + 2 * n)) r' = 3 # ucast (2 * n) # take (2 * unat n) (drop 6 w)"
proof -
  obtain g' where w: "eMBFuncWriteMultipleHoldingRegister modbus_cbs w usLen g = Some (MB_EX_NONE, w, 5, g')"
    using write_multiple_in_range [OF g len(1,3) req n range] by blast
  have "app_RegHoldingCB modbus_cbs = eMBRegHoldingCB" by (simp add: modbus_cbs_def)
  with holding.write_multiple_then_read [OF g _ len(1,2) _ _ w] req same w show ?thesis by auto
qed

definition modbus_example :: modbus_state where
  "modbus_example = \<lparr>reginput = replicate 4 0, regholding = replicate 130 0, regcoils = replicate 32 0\<rparr>"

theorem holding_write_then_read_witness:
  "\<exists>g' r'. eMBFuncWriteMultipleHoldingRegister modbus_cbs ([16, 7, 208, 0, 2, 4, 11, 22, 33, 44] @ replicate 245 0)
      10 modbus_example = Some (MB_EX_NONE, [16, 7, 208, 0, 2, 4, 11, 22, 33, 44] @ replicate 245 0, 5, g') \<and>
    eMBFuncReadHoldingRegister modbus_cbs ([3, 7, 208, 0, 2] @ replicate 250 0) 5 g' = Some (MB_EX_NONE, r', 6, g') \<and>
    take 6 r' = [3, 4, 11, 22, 33, 44]"
  using holding_write_then_read [of modbus_example "[16, 7, 208, 0, 2, 4, 11, 22, 33, 44] @ replicate 245 0"
      "[3, 7, 208, 0, 2] @ replicate 250 0" 10 2000 2]
  by (simp add: modbus_ok_def modbus_example_def pdu_u16_Some be16_def holding_range_def)

text \<open>
  the coil callback of the example does not pack coils into bits. A request for two
  coils is answered with one byte, which holds the first coil only: the second coil is
  lost, whatever its value.
\<close>

theorem coils_not_packed:
  assumes g: "modbus_ok g" and f: "length frame = 255" "pdu_u16 frame 1 = Some a" "pdu_u16 frame 3 = Some 2"
    and a: "2999 \<le> unat a" "unat a \<le> 3029"
  shows "\<exists>f'. eMBFuncReadCoils modbus_cbs frame 5 g = Some (MB_EX_NONE, f', 3, g) \<and>
    take 3 f' = [1, 1, lo8 (regcoils g ! (unat a - 2999))]"
proof -
  have a1: "unat (a + 1) = unat a + 1" using a by (simp add: unat_u16_Suc)
  let ?i = "unat a - 2999" and ?f = "frame[0 := 1, Suc 0 := 1]"
  have i: "Suc (unat a) - 3000 = ?i" "?i + 2 \<le> 32" using a by auto
  have "bits_nbytes 2 = 1" by (simp add: bits_nbytes_def)
  moreover have "drop ?i (regcoils g) = regcoils g ! ?i # drop (Suc ?i) (regcoils g)"
    using i g by (simp add: Cons_nth_drop_Suc modbus_ok_def)
  then have "take 1 (regs_bytes (take 2 (drop ?i (regcoils g)))) = [lo8 (regcoils g ! ?i)]"
    by (simp add: regs_bytes_Cons numeral_2_eq_2)
  moreover have "take 2 ?f = [1, 1]"
    using f(1) by (cases frame rule: remdups_adj.cases) auto
  ultimately show ?thesis
    using f a a1 i g
    by (simp add: eMBFuncReadCoils_def modbus_cbs_def array_simps cb_at_def eMBRegCoilsCB_def
        regs_read_value modbus_ok_def)
qed

theorem coils_not_packed_witness:
  "\<exists>f'. eMBFuncReadCoils modbus_cbs ([1, 11, 183, 0, 2] @ replicate 250 0) 5
        (modbus_example\<lparr>regcoils := 0 # 1 # replicate 30 0\<rparr>)
      = Some (MB_EX_NONE, f', 3, modbus_example\<lparr>regcoils := 0 # 1 # replicate 30 0\<rparr>) \<and>
    take 3 f' = [1, 1, 0]"
  using coils_not_packed [of "modbus_example\<lparr>regcoils := 0 # 1 # replicate 30 0\<rparr>"
      "[1, 11, 183, 0, 2] @ replicate 250 0" 2999]
  by (simp add: modbus_ok_def modbus_example_def pdu_u16_Some be16_def lo8_def)

end
