(* ===== verification/MbSlave.thy ===== *)
theory MbSlave
  imports MbStack MbExample
begin

text \<open>
  The Modbus slave as a whole: what a master on the line sees of it. The abstract
  specification \<open>mb_answer\<close> maps a request PDU to a response PDU and a new state of the
  application; polling the RTU slave refines it, from the bytes of the request on the line
  to the bytes of the response. The example application provides the environment.
\<close>

section \<open>The specification of a slave\<close>

text \<open>
  The response to the PDU of length \<open>n\<close> in the buffer \<open>mem\<close>: what the handler of the function
  code leaves, or the function code with its top bit set and the exception code.
\<close>

definition mb_answer ::
    "('app, 'net) mb_env \<Rightarrow> mb_slaveid \<Rightarrow> xMBFunctionHandler list \<Rightarrow> u8 list \<Rightarrow> u16 \<Rightarrow> 'app
     \<Rightarrow> (u8 list \<times> 'app) option" where
  "mb_answer env sid tab mem n app =
     (case handlers_find (hd mem) tab of
        None \<Rightarrow> Some ([hd mem OR MB_FUNC_ERROR, exception_code MB_EX_ILLEGAL_FUNCTION], app)
      | Some None \<Rightarrow> None
      | Some (Some h) \<Rightarrow> do {
          (ex, mem', n', app') \<leftarrow> mb_call_handler env sid h mem n app;
          Some (if ex = MB_EX_NONE then take (unat n') mem'
                else [hd mem OR MB_FUNC_ERROR, exception_code ex], app')
        })"

fun mb_polls :: "('app, 'net) mb_env \<Rightarrow> nat \<Rightarrow> ('app, 'net) mb \<Rightarrow> ('app, 'net) mb option" where
  "mb_polls env 0 s = Some s"
| "mb_polls env (Suc k) s = do {
     (_, s') \<leftarrow> eMBPoll env s;
     mb_polls env k s'
   }"

lemma mb_polls_step: "eMBPoll env s = Some (e, s') \<Longrightarrow> mb_polls env (Suc k) s = mb_polls env k s'"
  by simp

section \<open>The four polls of a request\<close>

text \<open>A slave that waits for a request: the line is quiet, nothing is queued.\<close>

definition mb_waiting :: "('app \<Rightarrow> bool) \<Rightarrow> ('app, 'net) mb \<Rightarrow> bool" where
  "mb_waiting ok s \<longleftrightarrow> mb_rtu_inv ok s \<and> rtu_listening s \<and> \<not> xEventInQueue s \<and> os_write s = []"

text \<open>The clock reading after the last byte of a frame of \<open>n\<close> bytes lies beyond the timeout.\<close>

definition silence_after :: "nat \<Rightarrow> 'a mb_rtu_scheme \<Rightarrow> bool" where
  "silence_after n s \<longleftrightarrow>
     ulTimeOut s < timer_delta (the (os_clock s (os_ticks s + n))) (the (os_clock s (os_ticks s + n - 1)))"

text \<open>First poll: the bytes are collected and the silence ends the frame.\<close>

lemma poll_collect:
  assumes s: "mb_waiting ok s" and bs: "bs \<noteq> []" "length bs \<le> 256" and t: "silence_after (length bs) s"
  shows "eMBPoll env (s\<lparr>os_line := [LineBytes bs]\<rparr>) = Some (MB_ENOERR, s\<lparr>
    ucBuffer := bs @ drop (length bs) (ucBuffer s), os_line := [],
    ucRTUBuf := bs @ drop (length bs) (ucRTUBuf s), rtu_usRcvBufferPos := of_nat (length bs),
    os_ticks := Suc (os_ticks s + length bs), xTimeLast := rtu_last_time (length bs) s, uiRxBufferPos := 0,
    xEventInQueue := True, eQueuedEvent := EV_FRAME_RECEIVED, bTimeoutEnable := False,
    rtu_eRcvState := STATE_RX_IDLE\<rparr>)"
proof -
  let ?r = "s\<lparr>os_line := [LineBytes bs]\<rparr>"
  have inv: "rtu_inv ?r" "bRxEnabled ?r" "uiRxBufferPos ?r = 0" "rtu_eRcvState ?r = STATE_RX_IDLE"
    and st: "eMBState s = STATE_ENABLED" "pxMBFrameCBCur s = Some LAYER_RTU" "\<not> xEventInQueue s"
    using s by (auto simp: mb_waiting_def rtu_listening_def mb_rtu_inv_def rtu_inv_def port_ok_def)
  have lt: "rtu_last_time (length bs) ?r = rtu_last_time (length bs) s" by (simp add: rtu_last_time_def)
  note poll = rtu_poll_receive [OF inv _ bs, simplified, unfolded lt]
  obtain c where c: "os_clock s (os_ticks s + length bs) = Some c"
    using s by (auto simp: mb_waiting_def mb_rtu_inv_def rtu_inv_def port_ok_def)
  have "ulTimeOut s < timer_delta c (rtu_last_time (length bs) s)"
    using t bs(1) c by (simp add: silence_after_def rtu_last_time_def)
  then show ?thesis
    using st poll c
    by (simp add: eMBPoll_def mb_rtu_callbacks xMBPortEventGet_def vMBPortTimerPoll_def
        rtu_fsm_defs Let_def)
qed

text \<open>Second poll: the frame is checked and, when it is for this slave, to be executed.\<close>

lemma poll_accept:
  assumes st: "eMBState s = STATE_ENABLED" "peMBFrameCur s = Some LAYER_RTU"
    and q: "xEventInQueue s" "eQueuedEvent s = EV_FRAME_RECEIVED"
    and pdu: "1 \<le> length pdu" "length pdu \<le> 252" and a: "a = ucMBAddress s \<or> a = 0"
    and buf: "length (ucRTUBuf s) = 256" "take (length pdu + 3) (ucRTUBuf s) = rtu_wire a pdu"
      "rtu_usRcvBufferPos s = of_nat (length pdu + 3)"
  shows "eMBPoll env s = Some (MB_ENOERR, s\<lparr>xEventInQueue := True, ucRcvAddress := a,
    ucMBFrame := Some (SerialBuf, 1), usLength := of_nat (length pdu), eQueuedEvent := EV_EXECUTE\<rparr>)"
proof -
  let ?q = "s\<lparr>xEventInQueue := False\<rparr>"
  have "hd (rtu_wire a pdu) = a" by (simp add: rtu_wire_def Let_def)
  then have r: "eMBRTUReceive ?q = Some (Inr (a, 1, of_nat (length pdu)))"
    using rtu_receive_bytes [of "rtu_wire a pdu" ?q] buf pdu by (simp add: rtu_wire_crc)
  have f: "peMBFrameCur ?q = Some LAYER_RTU" "a = ucMBAddress ?q \<or> a = 0" using st a by simp_all
  show ?thesis
    unfolding poll_event [OF st(1) q(1)] q(2) eMBEventType.case frame_received_rtu(3) [OF f(1) r]
    using f(2) by auto
qed

text \<open>Third poll: the handler runs and the response is handed to the RTU layer.\<close>

lemma dispatch_answer:
  assumes len: "length (ucRTUBuf s) = 256"
    and ans: "mb_answer env (mb_ident s) (xFuncHandlers s) (drop 1 (ucRTUBuf s)) (usLength s) (mb_appst s)
      = Some (resp, app')"
    and ok: "\<And>h. mb_handled (drop 1 (ucRTUBuf s)) ok
      (mb_call_handler env (mb_ident s) h (drop 1 (ucRTUBuf s)) (usLength s) (mb_appst s))"
  shows "\<exists>ex n b. mb_dispatch env (SerialBuf, 1)
      (s\<lparr>ucFunctionCode := ucRTUBuf s ! 1, eException := MB_EX_ILLEGAL_FUNCTION\<rparr>) \<bind>
      (\<lambda>s. if eException s \<noteq> MB_EX_NONE then mb_error_frame (SerialBuf, 1) s else Some s)
    = Some (s\<lparr>ucFunctionCode := ucRTUBuf s ! 1, eException := ex, usLength := n, mb_appst := app', ucRTUBuf := b\<rparr>) \<and>
    length b = 256 \<and> unat n = length resp \<and> length resp \<le> 253 \<and> take (unat n) (tl b) = resp"
proof -
  obtain x c xs where b: "ucRTUBuf s = x # c # xs" "length xs = 254"
    using len by (cases "ucRTUBuf s" rule: remdups_adj.cases) auto
  obtain d ys where xs: "xs = d # ys" using b(2) by (cases xs) auto
  show ?thesis
  proof (cases "handlers_find c (xFuncHandlers s)")
    case None
    then have r: "resp = [c OR 128, 1]" "app' = mb_appst s"
      using ans b by (simp_all add: mb_answer_def)
    have "s\<lparr>mb_appst := mb_appst s\<rparr> = s" by simp
    with None r b xs show ?thesis
      by (intro exI [of _ MB_EX_ILLEGAL_FUNCTION] exI [of _ "2 :: u16"] exI [of _ "x # (c OR 128) # 1 # ys"])
         (simp add: mb_dispatch_def mb_error_frame_def array_simps)
  next
    case (Some p)
    then obtain h where h: "p = Some h" using ans b by (cases p) (auto simp: mb_answer_def)
    from ok [of h] obtain ex mem n where call:
      "mb_call_handler env (mb_ident s) h (c # xs) (usLength s) (mb_appst s) = Some (ex, mem, n, app')"
      and mem: "length mem = 255" "ex = MB_EX_NONE \<longrightarrow> unat n \<le> 253"
      and resp: "resp = (if ex = MB_EX_NONE then take (unat n) mem else [c OR 128, exception_code ex])"
      using ans Some h b by (auto simp: mb_handled_def mb_answer_def)
    obtain m m' ms where ms: "mem = m # m' # ms" using mem(1) by (cases mem rule: remdups_adj.cases) auto
    show ?thesis
    proof (cases "ex = MB_EX_NONE")
      case True
      with Some h call mem resp b show ?thesis
        by (intro exI [of _ ex] exI [of _ n] exI [of _ "x # mem"]) (simp add: mb_dispatch_def)
    next
      case False
      with Some h call mem resp b ms show ?thesis
        by (intro exI [of _ ex] exI [of _ "2 :: u16"] exI [of _ "x # (c OR 128) # exception_code ex # ms"])
           (simp add: mb_dispatch_def mb_error_frame_def array_simps)
    qed
  qed
qed

lemma error_frame_address: "mb_error_frame (SerialBuf, i) s = Some s' \<Longrightarrow> ucRcvAddress s' = ucRcvAddress s"
  by (auto simp: mb_error_frame_def split: bind_splits)

lemma execute_answer:
  assumes inv: "rtu_inv s" "rtu_eRcvState s = STATE_RX_IDLE" "peMBFrameCur s = Some LAYER_RTU"
    and req: "ucMBFrame s = Some (SerialBuf, 1)" "ucRcvAddress s \<noteq> 0"
    and ans: "mb_answer env (mb_ident s) (xFuncHandlers s) (drop 1 (ucRTUBuf s)) (usLength s) (mb_appst s)
      = Some (resp, app')"
    and ok: "\<And>h. mb_handled (drop 1 (ucRTUBuf s)) ok
      (mb_call_handler env (mb_ident s) h (drop 1 (ucRTUBuf s)) (usLength s) (mb_appst s))"
  shows "\<exists>s'. mb_execute env s = Some s' \<and> rtu_inv s' \<and> bTxEnabled s' \<and> uiTxBufferPos s' = 0 \<and>
    rtu_pucSndBufferCur s' = 0 \<and> unat (rtu_usSndBufferCount s') = length resp + 3 \<and>
    take (length resp + 3) (ucRTUBuf s') = rtu_wire (ucMBAddress s) resp \<and> mb_appst s' = app' \<and>
    os_write s' = os_write s \<and> os_sent s' = os_sent s \<and> xEventInQueue s' = xEventInQueue s"
proof -
  have len: "length (ucRTUBuf s) = 256" using inv(1) by (simp add: rtu_inv_def)
  from dispatch_answer [OF len ans ok] obtain ex n b where
    d: "mb_dispatch env (SerialBuf, 1)
      (s\<lparr>ucFunctionCode := ucRTUBuf s ! 1, eException := MB_EX_ILLEGAL_FUNCTION\<rparr>) \<bind>
      (\<lambda>s. if eException s \<noteq> MB_EX_NONE then mb_error_frame (SerialBuf, 1) s else Some s)
    = Some (s\<lparr>ucFunctionCode := ucRTUBuf s ! 1, eException := ex, usLength := n, mb_appst := app', ucRTUBuf := b\<rparr>)"
    and b: "length b = 256" "unat n = length resp" "length resp \<le> 253" "take (unat n) (tl b) = resp"
    by (elim exE conjE)
  define s1 where "s1 = s\<lparr>ucFunctionCode := ucRTUBuf s ! 1, eException := ex, usLength := n, mb_appst := app',
    ucRTUBuf := b\<rparr>"
  have inv1: "rtu_inv s1" using inv(1) b(1) by (simp add: s1_def rtu_inv_def port_ok_def)
  have n: "unat n \<le> 253" using b by simp
  have s1: "length (ucRTUBuf s1) = 256" "rtu_eRcvState s1 = STATE_RX_IDLE" using inv(2) b(1) by (simp_all add: s1_def)
  note send = rtu_send_state [OF s1 n, of "ucMBAddress s"]
  define s2 where "s2 = s1\<lparr>
    ucRTUBuf := rtu_wire (ucMBAddress s) (take (unat n) (tl (ucRTUBuf s1))) @ drop (unat n + 3) (ucRTUBuf s1),
    rtu_pucSndBufferCur := 0, rtu_usSndBufferCount := n + 3, rtu_eSndState := STATE_TX_XMIT,
    bRxEnabled := False, bTxEnabled := True, uiTxBufferPos := 0\<rparr>"
  obtain d1 where d1: "mb_dispatch env (SerialBuf, 1)
      (s\<lparr>ucFunctionCode := ucRTUBuf s ! 1, eException := MB_EX_ILLEGAL_FUNCTION\<rparr>) = Some d1"
    "(if eException d1 \<noteq> MB_EX_NONE then mb_error_frame (SerialBuf, 1) d1 else Some d1) = Some s1"
    using d by (auto simp: s1_def Option.bind_eq_Some_conv)
  then have "ucRcvAddress d1 = ucRcvAddress s1"
    using error_frame_address [of 1 d1 s1] by (auto split: if_splits)
  then have addr: "ucRcvAddress d1 \<noteq> 0" using req(2) by (simp add: s1_def)
  have mem: "array_get (drop 1 (ucRTUBuf s)) 0 = Some (ucRTUBuf s ! 1)" using len by (simp add: array_simps)
  have sent: "mb_send env (ucMBAddress s1) (SerialBuf, 1) (usLength s1) s1 = Some (MB_ENOERR, s2)"
    using send inv(3) by (simp add: mb_send_def s1_def s2_def)
  have "mb_execute env s = Some s2"
    unfolding mb_execute_def req(1) Option.bind.bind_lunit frame_mem.simps mem d1 if_P [OF addr] sent by simp
  moreover have "rtu_inv s2"
    using rtu_send_inv [OF inv1 n send] by (simp add: s2_def)
  moreover have "unat (n + 3) = length resp + 3" using n b(2) by (simp add: unat_u16_add)
  ultimately show ?thesis
    using b by (simp add: s2_def s1_def)
qed

text \<open>Fourth poll: the response goes over the line.\<close>

lemma poll_transmit:
  assumes st: "eMBState s = STATE_ENABLED" "pxMBFrameCBCur s = Some LAYER_RTU" "\<not> xEventInQueue s"
    and tx: "rtu_inv s" "bTxEnabled s" "uiTxBufferPos s = 0" "os_write s = []" "rtu_pucSndBufferCur s = 0"
    and w: "take (unat (rtu_usSndBufferCount s)) (ucRTUBuf s) = wire"
  shows "\<exists>s'. eMBPoll env s = Some (MB_ENOERR, s') \<and> os_sent s' = os_sent s @ wire \<and>
    mb_rtu.more s' = mb_rtu.more s \<and> xEventInQueue s' \<and> eQueuedEvent s' = EV_FRAME_SENT \<and> bRxEnabled s' \<and>
    uiRxBufferPos s' = 0 \<and> rtu_eRcvState s' = STATE_RX_IDLE \<and> os_write s' = []"
proof -
  from rtu_poll_send [OF tx(1-4)] obtain s' where
    p: "xMBPortSerialPoll xMBRTUReceiveFSM xMBRTUTransmitFSM s = Some (True, s')"
    and s': "os_sent s' = os_sent s @ wire" "mb_rtu.more s' = mb_rtu.more s" "xEventInQueue s'"
      "eQueuedEvent s' = EV_FRAME_SENT" "bRxEnabled s'" "uiRxBufferPos s' = 0" "rtu_eRcvState s' = STATE_RX_IDLE"
      "os_write s' = []" "\<not> bTimeoutEnable s'"
    using tx(5) w by (elim exE conjE) (simp del: take_append)
  have "eMBPoll env s = Some (MB_ENOERR, s')"
    using st p s'(9) by (simp add: eMBPoll_def mb_rtu_callbacks xMBPortEventGet_def vMBPortTimerPoll_def)
  then show ?thesis using s' by blast
qed

context mb_stack_env
begin

lemma poll_inv: "mb_rtu_inv ok s \<Longrightarrow> eMBPoll env s = Some (e, s') \<Longrightarrow> mb_rtu_inv ok s'"
  using poll_total [of s] by auto

lemma answer_total:
  assumes "ok app" "slaveid_ok sid" "handlers_ok tab" "length mem = 255" "1 \<le> unat n" "unat n \<le> 253"
  shows "\<exists>resp app'. mb_answer env sid tab mem n app = Some (resp, app')"
proof (cases "handlers_find (hd mem) tab")
  case (Some p)
  then obtain h where "p = Some h" using handlers_find_ok [OF assms(3), of "hd mem"] by (cases p) auto
  then show ?thesis
    using Some call_handled [OF assms(1,2,4,5,6), of h] by (auto simp: mb_answer_def mb_handled_def)
qed (simp add: mb_answer_def)

lemma request_answered:
  assumes s: "mb_waiting ok s" "ucMBAddress s \<noteq> 0" and pdu: "1 \<le> length pdu" "length pdu \<le> 252"
    and t: "silence_after (length pdu + 3) s"
  shows "\<exists>resp app' s'. mb_answer env (mb_ident s) (xFuncHandlers s)
      (tl (rtu_wire (ucMBAddress s) pdu) @ drop (length pdu + 3) (ucRTUBuf s)) (of_nat (length pdu)) (mb_appst s)
        = Some (resp, app') \<and>
    mb_polls env 5 (s\<lparr>os_line := [LineBytes (rtu_wire (ucMBAddress s) pdu)]\<rparr>) = Some s' \<and>
    os_sent s' = os_sent s @ rtu_wire (ucMBAddress s) resp \<and> mb_appst s' = app' \<and> mb_waiting ok s'"
proof -
  let ?w = "rtu_wire (ucMBAddress s) pdu" and ?n = "of_nat (length pdu) :: u16"
  have inv: "mb_rtu_inv ok s" "length (ucRTUBuf s) = 256" "\<not> xEventInQueue s"
    using s(1) by (auto simp: mb_waiting_def mb_rtu_inv_def rtu_inv_def)
  have w: "?w \<noteq> []" "length ?w \<le> 256" "silence_after (length ?w) s" "drop 1 ?w = tl ?w"
    using pdu t by (auto simp add: rtu_wire_def [of _ "[]"] drop_Suc simp flip: length_greater_0_conv)
  have n: "unat ?n = length pdu" using pdu by (simp add: unat_u16_of_nat)
  define s1 where "s1 = s\<lparr>
    ucBuffer := ?w @ drop (length ?w) (ucBuffer s), os_line := [],
    ucRTUBuf := ?w @ drop (length ?w) (ucRTUBuf s), rtu_usRcvBufferPos := of_nat (length ?w),
    os_ticks := Suc (os_ticks s + length ?w), xTimeLast := rtu_last_time (length ?w) s, uiRxBufferPos := 0,
    xEventInQueue := True, eQueuedEvent := EV_FRAME_RECEIVED, bTimeoutEnable := False,
    rtu_eRcvState := STATE_RX_IDLE\<rparr>"
  note p1 = poll_collect [OF s(1) w(1,2,3), of env, folded s1_def]
  have "mb_rtu_inv ok (s\<lparr>os_line := [LineBytes ?w]\<rparr>)"
    using inv(1) by (simp add: mb_rtu_inv_def rtu_inv_def port_ok_def rx_ready_def)
  from poll_inv [OF this p1] have inv1: "mb_rtu_inv ok s1" .
  define s2 where "s2 = s1\<lparr>xEventInQueue := True, ucRcvAddress := ucMBAddress s,
    ucMBFrame := Some (SerialBuf, 1), usLength := ?n, eQueuedEvent := EV_EXECUTE\<rparr>"
  have p2: "eMBPoll env s1 = Some (MB_ENOERR, s2)"
    unfolding s2_def
    by (rule poll_accept [OF _ _ _ _ pdu]) (use inv1 pdu inv in \<open>auto simp: s1_def mb_rtu_inv_def\<close>)
  from poll_inv [OF inv1 p2] have inv2: "mb_rtu_inv ok s2" .
  let ?q = "s2\<lparr>xEventInQueue := False\<rparr>"
  have mem: "drop 1 (ucRTUBuf ?q) = tl ?w @ drop (length pdu + 3) (ucRTUBuf s)"
    using w(1,4) by (simp add: s2_def s1_def)
  obtain resp app' where ans: "mb_answer env (mb_ident s) (xFuncHandlers s)
      (tl ?w @ drop (length pdu + 3) (ucRTUBuf s)) ?n (mb_appst s) = Some (resp, app')"
    using answer_total [of "mb_appst s" "mb_ident s" "xFuncHandlers s"
        "tl ?w @ drop (length pdu + 3) (ucRTUBuf s)" ?n] inv n pdu
    by (auto simp: mb_rtu_inv_def)
  have ans2: "mb_answer env (mb_ident ?q) (xFuncHandlers ?q) (drop 1 (ucRTUBuf ?q)) (usLength ?q) (mb_appst ?q)
      = Some (resp, app')"
    unfolding mem using ans by (simp add: s2_def s1_def)
  have ok2: "mb_handled (drop 1 (ucRTUBuf ?q)) ok
      (mb_call_handler env (mb_ident ?q) h (drop 1 (ucRTUBuf ?q)) (usLength ?q) (mb_appst ?q))" for h
    using inv2 n pdu by (intro call_handled) (auto simp: mb_rtu_inv_def rtu_inv_def s2_def)
  have q1: "rtu_inv ?q" using inv2 by (intro rtu.inv_queue) (simp add: mb_rtu_inv_def)
  have q: "rtu_eRcvState ?q = STATE_RX_IDLE" "peMBFrameCur ?q = Some LAYER_RTU" "ucMBFrame ?q = Some (SerialBuf, 1)" "ucRcvAddress ?q \<noteq> 0" "ucMBAddress ?q = ucMBAddress s"
    "os_write ?q = []" "os_sent ?q = os_sent s"
    using inv(1) s by (simp_all add: mb_rtu_inv_def s2_def s1_def mb_waiting_def)
  from execute_answer [OF q1 q(1-4) ans2 ok2] obtain s3 where
    p3: "mb_execute env ?q = Some s3" and s3: "rtu_inv s3" "bTxEnabled s3" "uiTxBufferPos s3 = 0"
      "rtu_pucSndBufferCur s3 = 0" "unat (rtu_usSndBufferCount s3) = length resp + 3"
      "take (length resp + 3) (ucRTUBuf s3) = rtu_wire (ucMBAddress s) resp" "mb_appst s3 = app'"
      "os_write s3 = []" "os_sent s3 = os_sent s" "\<not> xEventInQueue s3"
    unfolding q(5-7) by (elim exE conjE) (simp del: take_append)
  have p3': "eMBPoll env s2 = Some (MB_ENOERR, s3)"
    using inv2 p3 poll_event [of s2 env] by (simp add: mb_rtu_inv_def s2_def)
  from poll_inv [OF inv2 p3'] have inv3: "mb_rtu_inv ok s3" .
  then have st3: "eMBState s3 = STATE_ENABLED" "pxMBFrameCBCur s3 = Some LAYER_RTU" by (simp_all add: mb_rtu_inv_def)
  from poll_transmit [OF st3 s3(10,1,2,3,8,4) s3(6) [folded s3(5)], of env] obtain s4 where
    p4: "eMBPoll env s3 = Some (MB_ENOERR, s4)" and s4: "os_sent s4 = os_sent s3 @ rtu_wire (ucMBAddress s) resp"
      "mb_rtu.more s4 = mb_rtu.more s3" "xEventInQueue s4" "eQueuedEvent s4 = EV_FRAME_SENT" "bRxEnabled s4"
      "uiRxBufferPos s4 = 0" "rtu_eRcvState s4 = STATE_RX_IDLE" "os_write s4 = []"
    by (elim exE conjE)
  from poll_inv [OF inv3 p4] have inv4: "mb_rtu_inv ok s4" .
  let ?s5 = "s4\<lparr>xEventInQueue := False\<rparr>"
  have p5: "eMBPoll env s4 = Some (MB_ENOERR, ?s5)"
    using inv4 s4(3,4) poll_event [of s4 env] by (simp add: mb_rtu_inv_def)
  from poll_inv [OF inv4 p5] have "mb_waiting ok ?s5"
    using s4 by (simp add: mb_waiting_def rtu_listening_def mb_rtu_inv_def)
  moreover have "mb_polls env 5 (s\<lparr>os_line := [LineBytes ?w]\<rparr>) = Some ?s5"
    by (simp add: p1 p2 p3' p4 p5 eval_nat_numeral)
  moreover have "mb_appst ?s5 = app'" using mb_more(5) [OF s4(2)] s3(7) by simp
  ultimately show ?thesis using ans s4(1) s3(9) by auto
qed

end

section \<open>Sessions\<close>

text \<open>
  A session of an RTU slave: it is initialised and enabled, then it is polled, handlers are
  registered and removed, the identification is set, the application changes its own
  state and bytes arrive on the line, in any order.
\<close>

inductive mb_session :: "('app, 'net) mb_env \<Rightarrow> ('app \<Rightarrow> bool) \<Rightarrow> ('app, 'net) mb \<Rightarrow> bool"
  for env :: "('app, 'net) mb_env" and ok :: "'app \<Rightarrow> bool" where
  start: "mb_session env ok s2"
    if "\<And>n. clk n \<noteq> None" and "ok app"
    and "eMBInit env MB_RTU a p baud par (mb_power_on clk app net) = Some (MB_ENOERR, s1)"
    and "eMBEnable s1 = Some (MB_ENOERR, s2)"
| poll: "mb_session env ok s'" if "mb_session env ok s" and "eMBPoll env s = Some (e, s')"
| register: "mb_session env ok s'" if "mb_session env ok s" and "eMBRegisterCB c h s = (e, s')"
| ident: "mb_session env ok (s\<lparr>mb_ident := sid\<rparr>)"
    if "mb_session env ok s" and "eMBSetSlaveID i run add n (mb_ident s) = Some (e, sid)"
| app: "mb_session env ok (s\<lparr>mb_appst := app\<rparr>)" if "mb_session env ok s" and "ok app"
| line: "mb_session env ok (s\<lparr>os_line := l, os_write := w\<rparr>)" if "mb_session env ok s"

text \<open>Initialisation leaves the RTU layer at rest.\<close>

definition rtu_at_rest :: "'a mb_rtu_scheme \<Rightarrow> bool" where
  "rtu_at_rest s \<longleftrightarrow>
     port_ok s \<and> length (ucRTUBuf s) = 256 \<and> rtu_usRcvBufferPos s \<le> 256 \<and> \<not> bRxEnabled s \<and> \<not> bTxEnabled s \<and>
     \<not> bTimeoutEnable s \<and> rtu_eSndState s = STATE_TX_IDLE"

lemma serial_init_rest:
  assumes "rtu_at_rest s" "xMBPortSerialInit dev p baud bits par s = Some (b, s')"
  shows "rtu_at_rest s' \<and> mb_rtu.more s' = mb_rtu.more s"
  using assms
  by (auto simp: xMBPortSerialInit_def vMBPortSerialEnable_def rtu_at_rest_def port_ok_def Let_def
      split: if_splits bind_splits prod.splits)

lemma rtu_init_rest:
  assumes "rtu_at_rest s" "eMBRTUInit dev a p baud par s = Some (e, s')"
  shows "rtu_at_rest s' \<and> mb_rtu.more s' = mb_rtu.more s"
proof -
  from assms(2) obtain b s1 where s1: "xMBPortSerialInit dev p baud 8 par s = Some (b, s1)"
    by (auto simp: eMBRTUInit_def split: bind_splits)
  have "rtu_at_rest s1 \<and> mb_rtu.more s1 = mb_rtu.more s" using serial_init_rest [OF assms(1) s1] .
  then show ?thesis
    using assms(2) s1
    by (auto simp: eMBRTUInit_def xMBPortTimersInit_def xMBPortSerialSetTimeout_def rtu_at_rest_def port_ok_def
        Let_def split: bind_splits if_splits)
qed

lemma rtu_start_inv:
  assumes "rtu_at_rest s" "eMBRTUStart s = Some s'"
  shows "rtu_inv s' \<and> rx_ready s' \<and> mb_rtu.more s' = mb_rtu.more s \<and> xEventInQueue s' = xEventInQueue s"
proof -
  obtain t where "os_clock s (os_ticks s) = Some t" using assms(1) by (auto simp: rtu_at_rest_def port_ok_def)
  then have s': "s' = s\<lparr>rtu_eRcvState := STATE_RX_INIT, uiRxBufferPos := 0, bRxEnabled := True, bTxEnabled := False,
      xTimeLast := t, bTimeoutEnable := True, os_ticks := Suc (os_ticks s)\<rparr>"
    using assms(2) by (simp add: eMBRTUStart_def vMBPortSerialEnable_def vMBPortTimersEnable_def Let_def)
  then show ?thesis
    using assms(1) by (simp add: rtu_at_rest_def rtu_inv_def port_ok_def rx_ready_def)
qed

lemma slaveid_set_ok:
  assumes "slaveid_ok s" "eMBSetSlaveID i run add n s = Some (e, s')"
  shows "slaveid_ok s'"
proof (cases "unat n + 2 < length (ucMBSlaveID s)")
  case True
  then have "unat (2 + n) = unat n + 2"
    using assms(1) by (simp add: slaveid_ok_def unat_u16_add)
  then show ?thesis
    using assms True
    by (auto simp: eMBSetSlaveID_def slaveid_ok_def array_put_eq_Some array_blit_eq_Some array_slice_eq_Some
        split: bind_splits if_splits)
next
  case False
  then show ?thesis using assms by (simp add: eMBSetSlaveID_def)
qed

lemma handlers_init_ok: "handlers_ok xFuncHandlers_init"
  by (simp add: handlers_ok_def xFuncHandlers_init_def list_all_iff)

lemma register_handlers:
  assumes "eMBRegisterCB c h s = (e, s')"
  shows "\<exists>tab. s' = s\<lparr>xFuncHandlers := tab\<rparr> \<and> (handlers_ok (xFuncHandlers s) \<longrightarrow> handlers_ok tab)"
proof -
  have "s' = s\<lparr>xFuncHandlers := xFuncHandlers s'\<rparr>"
    "handlers_ok (xFuncHandlers s) \<longrightarrow> handlers_ok (xFuncHandlers s')"
    using assms handlers_insert_ok [of "xFuncHandlers s"] handlers_remove_ok [of "xFuncHandlers s"]
    by (auto simp: eMBRegisterCB_def split: if_splits option.splits)
  then show ?thesis by blast
qed

lemma session_start:
  assumes clk: "\<And>n. clk n \<noteq> None" and app: "ok app"
    and init: "eMBInit env MB_RTU a p baud par (mb_power_on clk app net) = Some (MB_ENOERR, s1)"
    and enable: "eMBEnable s1 = Some (MB_ENOERR, s2)"
  shows "mb_rtu_inv ok s2"
proof -
  let ?s = "(mb_power_on clk app net)\<lparr>ucMBAddress := a, peMBFrameCur := Some LAYER_RTU, pxMBFrameCBCur := Some LAYER_RTU\<rparr>"
  have rest: "rtu_at_rest ?s" using clk by (simp add: rtu_at_rest_def port_ok_def mb_power_on_def)
  from init obtain s0 where s0: "eMBRTUInit (env_dev env) a p baud par ?s = Some (MB_ENOERR, s0)"
    and s1: "s1 = s0\<lparr>xEventInQueue := False, eMBCurrentMode := MB_RTU, eMBState := STATE_DISABLED\<rparr>"
    by (auto simp: eMBInit_def xMBPortEventInit_def split: if_splits bind_splits)
  have more: "rtu_at_rest s0" "mb_rtu.more s0 = mb_rtu.more ?s" using rtu_init_rest [OF rest s0] by simp_all
  have f0: "peMBFrameCur s0 = Some LAYER_RTU" "pxMBFrameCBCur s0 = Some LAYER_RTU" "slaveid_ok (mb_ident s0)"
    "ok (mb_appst s0)" "handlers_ok (xFuncHandlers s0)"
    using mb_more [OF more(2)] app handlers_init_ok by (simp_all add: mb_power_on_def slaveid_ok_def)
  have "rtu_at_rest s1" using more(1) by (simp add: s1 rtu_at_rest_def port_ok_def)
  moreover from enable obtain s3 where s3: "eMBRTUStart s1 = Some s3" "s2 = s3\<lparr>eMBState := STATE_ENABLED\<rparr>"
    using f0 by (auto simp: eMBEnable_def mb_start_def s1 split: bind_splits)
  ultimately have inv3: "rtu_inv s3" "rx_ready s3" "mb_rtu.more s3 = mb_rtu.more s1" "\<not> xEventInQueue s3"
    using rtu_start_inv [of s1 s3] by (simp_all add: s1)
  then show ?thesis
    using mb_more [OF inv3(3)] f0 by (simp add: s3(2) mb_rtu_inv_def rtu_inv_def port_ok_def rx_ready_def s1)
qed

context mb_stack_env
begin

lemma session_inv: "mb_session env ok s \<Longrightarrow> mb_rtu_inv ok s"
proof (induction rule: mb_session.induct)
  case (start clk app a p baud par net s1 s2)
  show ?case by (rule session_start [where clk = clk and ok = ok, OF start])
next
  case (poll s e s')
  show ?case by (rule poll_inv [OF poll.IH poll.hyps(2)])
next
  case (register s c h e s')
  then obtain tab where "s' = s\<lparr>xFuncHandlers := tab\<rparr>" "handlers_ok (xFuncHandlers s) \<Longrightarrow> handlers_ok tab"
    using register_handlers [of c h s e s'] by blast
  then show ?case using register.IH by (simp add: mb_rtu_inv_def rtu_inv_def port_ok_def rx_ready_def)
next
  case (ident s i run add n e sid)
  then have "slaveid_ok sid"
    using slaveid_set_ok [of "mb_ident s"] by (auto simp: mb_rtu_inv_def)
  then show ?case using ident by (simp add: mb_rtu_inv_def rtu_inv_def port_ok_def rx_ready_def)
next
  case (app s app)
  then show ?case by (simp add: mb_rtu_inv_def rtu_inv_def port_ok_def rx_ready_def)
next
  case (line s l w)
  then show ?case by (simp add: mb_rtu_inv_def rtu_inv_def port_ok_def rx_ready_def)
qed

end

section \<open>Broadcasts\<close>

lemma dispatch_app:
  assumes len: "length (ucRTUBuf s) = 256"
    and ans: "mb_answer env (mb_ident s) (xFuncHandlers s) (drop 1 (ucRTUBuf s)) (usLength s) (mb_appst s)
      = Some (resp, app')"
  shows "\<exists>ex n b. mb_dispatch env (SerialBuf, 1)
      (s\<lparr>ucFunctionCode := ucRTUBuf s ! 1, eException := MB_EX_ILLEGAL_FUNCTION\<rparr>)
    = Some (s\<lparr>ucFunctionCode := ucRTUBuf s ! 1, eException := ex, usLength := n, mb_appst := app', ucRTUBuf := b\<rparr>)"
proof -
  obtain x c xs where b: "ucRTUBuf s = x # c # xs"
    using len by (cases "ucRTUBuf s" rule: remdups_adj.cases) auto
  have id: "s\<lparr>ucFunctionCode := c, eException := MB_EX_ILLEGAL_FUNCTION, usLength := usLength s,
      mb_appst := mb_appst s, ucRTUBuf := ucRTUBuf s\<rparr>
    = s\<lparr>ucFunctionCode := c, eException := MB_EX_ILLEGAL_FUNCTION\<rparr>" by (cases s) simp
  show ?thesis
  proof (cases "handlers_find c (xFuncHandlers s)")
    case None
    then have "app' = mb_appst s" using ans b by (simp add: mb_answer_def)
    then show ?thesis
      using None b id
      by (intro exI [of _ MB_EX_ILLEGAL_FUNCTION] exI [of _ "usLength s"] exI [of _ "ucRTUBuf s"])
         (simp add: mb_dispatch_def)
  next
    case (Some p)
    then obtain h ex mem n where "p = Some h"
      "mb_call_handler env (mb_ident s) h (c # xs) (usLength s) (mb_appst s) = Some (ex, mem, n, app')"
      using ans b by (cases p) (auto simp: mb_answer_def split: bind_splits)
    with Some b show ?thesis by (auto simp: mb_dispatch_def)
  qed
qed

context mb_stack_env
begin

lemma broadcast_executed:
  assumes s: "mb_waiting ok s" and pdu: "1 \<le> length pdu" "length pdu \<le> 252"
    and t: "silence_after (length pdu + 3) s"
  shows "\<exists>resp app' s'. mb_answer env (mb_ident s) (xFuncHandlers s)
      (tl (rtu_wire 0 pdu) @ drop (length pdu + 3) (ucRTUBuf s)) (of_nat (length pdu)) (mb_appst s)
        = Some (resp, app') \<and>
    mb_polls env 3 (s\<lparr>os_line := [LineBytes (rtu_wire 0 pdu)]\<rparr>) = Some s' \<and>
    os_sent s' = os_sent s \<and> mb_appst s' = app' \<and> mb_waiting ok s'"
proof -
  let ?w = "rtu_wire 0 pdu" and ?n = "of_nat (length pdu) :: u16"
  have inv: "mb_rtu_inv ok s" "length (ucRTUBuf s) = 256" "\<not> xEventInQueue s" "rtu_listening s" "os_write s = []"
    using s by (auto simp: mb_waiting_def mb_rtu_inv_def rtu_inv_def)
  have w: "?w \<noteq> []" "length ?w \<le> 256" "silence_after (length ?w) s" "drop 1 ?w = tl ?w"
    using pdu t by (auto simp add: drop_Suc simp flip: length_greater_0_conv)
  have n: "unat ?n = length pdu" using pdu by (simp add: unat_u16_of_nat)
  define s1 where "s1 = s\<lparr>
    ucBuffer := ?w @ drop (length ?w) (ucBuffer s), os_line := [],
    ucRTUBuf := ?w @ drop (length ?w) (ucRTUBuf s), rtu_usRcvBufferPos := of_nat (length ?w),
    os_ticks := Suc (os_ticks s + length ?w), xTimeLast := rtu_last_time (length ?w) s, uiRxBufferPos := 0,
    xEventInQueue := True, eQueuedEvent := EV_FRAME_RECEIVED, bTimeoutEnable := False,
    rtu_eRcvState := STATE_RX_IDLE\<rparr>"
  note p1 = poll_collect [OF s(1) w(1,2,3), of env, folded s1_def]
  have "mb_rtu_inv ok (s\<lparr>os_line := [LineBytes ?w]\<rparr>)"
    using inv(1) by (simp add: mb_rtu_inv_def rtu_inv_def port_ok_def rx_ready_def)
  from poll_inv [OF this p1] have inv1: "mb_rtu_inv ok s1" .
  define s2 where "s2 = s1\<lparr>xEventInQueue := True, ucRcvAddress := 0,
    ucMBFrame := Some (SerialBuf, 1), usLength := ?n, eQueuedEvent := EV_EXECUTE\<rparr>"
  have p2: "eMBPoll env s1 = Some (MB_ENOERR, s2)"
    unfolding s2_def
    by (rule poll_accept [OF _ _ _ _ pdu]) (use inv1 pdu inv in \<open>auto simp: s1_def mb_rtu_inv_def\<close>)
  from poll_inv [OF inv1 p2] have inv2: "mb_rtu_inv ok s2" .
  let ?q = "s2\<lparr>xEventInQueue := False\<rparr>"
  obtain resp app' where ans: "mb_answer env (mb_ident s) (xFuncHandlers s)
      (tl ?w @ drop (length pdu + 3) (ucRTUBuf s)) ?n (mb_appst s) = Some (resp, app')"
    using answer_total [of "mb_appst s" "mb_ident s" "xFuncHandlers s"
        "tl ?w @ drop (length pdu + 3) (ucRTUBuf s)" ?n] inv n pdu
    by (auto simp: mb_rtu_inv_def)
  have mem: "drop 1 (ucRTUBuf ?q) = tl ?w @ drop (length pdu + 3) (ucRTUBuf s)"
    using w(1,4) by (simp add: s2_def s1_def)
  have len2: "length (ucRTUBuf ?q) = 256" using inv2 by (simp add: mb_rtu_inv_def rtu_inv_def)
  have ans2: "mb_answer env (mb_ident ?q) (xFuncHandlers ?q) (drop 1 (ucRTUBuf ?q)) (usLength ?q) (mb_appst ?q)
      = Some (resp, app')"
    unfolding mem using ans by (simp add: s2_def s1_def)
  from dispatch_app [OF len2 ans2] obtain ex m b where d: "mb_dispatch env (SerialBuf, 1)
      (?q\<lparr>ucFunctionCode := ucRTUBuf ?q ! 1, eException := MB_EX_ILLEGAL_FUNCTION\<rparr>)
    = Some (?q\<lparr>ucFunctionCode := ucRTUBuf ?q ! 1, eException := ex, usLength := m, mb_appst := app', ucRTUBuf := b\<rparr>)"
    by (elim exE)
  let ?s3 = "?q\<lparr>ucFunctionCode := ucRTUBuf ?q ! 1, eException := ex, usLength := m, mb_appst := app', ucRTUBuf := b\<rparr>"
  have mem1: "array_get (drop 1 (ucRTUBuf ?q)) 0 = Some (ucRTUBuf ?q ! 1)" using len2 by (simp add: array_simps)
  have frame: "ucMBFrame ?q = Some (SerialBuf, 1)" "\<not> ucRcvAddress ?s3 \<noteq> 0" by (simp_all add: s2_def)
  have "mb_execute env ?q = Some ?s3"
    unfolding mb_execute_def frame(1) Option.bind.bind_lunit frame_mem.simps mem1 d if_not_P [OF frame(2)] by (rule refl)
  then have p3: "eMBPoll env s2 = Some (MB_ENOERR, ?s3)"
    using inv2 poll_event [of s2 env] by (simp add: mb_rtu_inv_def s2_def)
  have inv3: "mb_rtu_inv ok ?s3" using poll_inv [OF inv2 p3] .
  then have "rtu_inv ?s3" by (simp add: mb_rtu_inv_def)
  then have "mb_waiting ok ?s3"
    using inv inv3 by (simp add: mb_waiting_def rtu_listening_def s2_def s1_def)
  moreover have "mb_polls env 3 (s\<lparr>os_line := [LineBytes ?w]\<rparr>) = Some ?s3"
    by (simp add: p1 p2 p3 eval_nat_numeral)
  moreover have "mb_appst ?s3 = app'" "os_sent ?s3 = os_sent s" by (simp_all add: s2_def s1_def)
  ultimately show ?thesis using ans by blast
qed

end

section \<open>The example application\<close>

text \<open>
  The environment of \<^verbatim>\<open>modbus_main.c\<close>. It registers no handler of its own, so \<open>env_user\<close> is never
  called; the TCP port and the serial device stay arguments.
\<close>

definition modbus_env :: "'net tcp_port \<Rightarrow> serial_dev \<Rightarrow> (modbus_state, 'net) mb_env" where
  "modbus_env tcp dev = \<lparr>env_cbs = modbus_cbs, env_tcp = tcp, env_dev = dev, env_ascii_timeout = 1,
     env_user = \<lambda>k frame n app. Some (MB_EX_ILLEGAL_FUNCTION, frame, n, app)\<rparr>"

interpretation slave: mb_stack_env "modbus_env tcp dev" modbus_ok coil_span "\<lambda>n. 0" for tcp dev
  unfolding mb_stack_env_def mb_stack_env_axioms_def
  using modbus.mb_application_axioms by (simp add: modbus_env_def mb_handled_def)

section \<open>Properties\<close>

text \<open>
  C1: the RTU slave answers requests. A slave that waits gets a frame with its address and
  a PDU of 1 to 252 bytes on the line, followed by silence. Five polls later it has written
  to the line exactly one frame, with its address and the response the specification
  gives for the PDU (the result of the handler, or an exception); the state of the
  application is the one the specification gives, and the slave waits again.
\<close>

theorem modbus_request_answered:
  assumes "mb_waiting modbus_ok s" "ucMBAddress s \<noteq> 0" "1 \<le> length pdu" "length pdu \<le> 252"
    and "silence_after (length pdu + 3) s"
  shows "\<exists>resp app' s'. mb_answer (modbus_env tcp dev) (mb_ident s) (xFuncHandlers s)
      (tl (rtu_wire (ucMBAddress s) pdu) @ drop (length pdu + 3) (ucRTUBuf s)) (of_nat (length pdu)) (mb_appst s)
        = Some (resp, app') \<and>
    mb_polls (modbus_env tcp dev) 5 (s\<lparr>os_line := [LineBytes (rtu_wire (ucMBAddress s) pdu)]\<rparr>) = Some s' \<and>
    os_sent s' = os_sent s @ rtu_wire (ucMBAddress s) resp \<and> mb_appst s' = app' \<and> mb_waiting modbus_ok s'"
  using assms by (rule slave.request_answered)

text \<open>
  C21: a broadcast is executed and not answered. Three polls after a frame with address 0 the
  application is in the state the specification gives, nothing was written to the line,
  and the slave waits again.
\<close>

theorem modbus_broadcast_silent:
  assumes "mb_waiting modbus_ok s" "1 \<le> length pdu" "length pdu \<le> 252" "silence_after (length pdu + 3) s"
  shows "\<exists>resp app' s'. mb_answer (modbus_env tcp dev) (mb_ident s) (xFuncHandlers s)
      (tl (rtu_wire 0 pdu) @ drop (length pdu + 3) (ucRTUBuf s)) (of_nat (length pdu)) (mb_appst s)
        = Some (resp, app') \<and>
    mb_polls (modbus_env tcp dev) 3 (s\<lparr>os_line := [LineBytes (rtu_wire 0 pdu)]\<rparr>) = Some s' \<and>
    os_sent s' = os_sent s \<and> mb_appst s' = app' \<and> mb_waiting modbus_ok s'"
  using assms by (rule slave.broadcast_executed)


text \<open>
  after a failed \<^verbatim>\<open>eMBTCPInit\<close> the stack is in \<^verbatim>\<open>STATE_DISABLED\<close> with no layer, and \<^verbatim>\<open>eMBEnable\<close>
  calls a null pointer.
\<close>

theorem tcp_init_failure_enable:
  assumes "xMBTCPPortInit (env_tcp env) port (mb_net s) = (False, net)" "peMBFrameCur s = None"
  shows "\<exists>s'. eMBTCPInit env port s = (MB_EPORTERR, s') \<and> eMBEnable s' = None"
  using assms by (simp add: eMBTCPInit_def eMBTCPDoInit_def eMBEnable_def mb_start_def)
text \<open>A TCP port that cannot be opened.\<close>

definition tcp_broken :: "unit tcp_port" where
  "tcp_broken = \<lparr>xMBTCPPortInit = \<lambda>_ net. (False, net), vMBTCPPortDisable = \<lambda>net. net,
     xMBTCPPortGetRequest = \<lambda>net. (None, net), xMBTCPPortSendResponse = \<lambda>f n net. (False, net),
     vMBTCPPortClose = None\<rparr>"

text \<open>
  A slave with address 10 that waits on a line of 38400 baud, a clock that advances by one
  second per reading, and a device that opens.
\<close>

definition slave_clock :: "nat \<Rightarrow> timeval option" where
  "slave_clock n = Some \<lparr>tv_sec = int n, tv_usec = 0\<rparr>"

definition slave_dev :: serial_dev where
  "slave_dev = \<lparr>dev_open = \<lambda>_. 3, dev_tcgetattr = True, dev_cfsetispeed = True, dev_tcsetattr = True\<rparr>"

definition slave_example :: "(modbus_state, unit) mb" where
  "slave_example = (mb_power_on slave_clock modbus_example ())\<lparr>iSerialFd := 3, bRxEnabled := True, ulTimeoutMs := 2,
     ulTimeOut := 2, os_ticks := 2, rtu_eRcvState := STATE_RX_IDLE, ucMBAddress := 10, eMBState := STATE_ENABLED,
     peMBFrameCur := Some LAYER_RTU, pxMBFrameCBCur := Some LAYER_RTU\<rparr>"

lemma slave_example_waiting: "mb_waiting modbus_ok slave_example"
  by (simp add: mb_waiting_def mb_rtu_inv_def rtu_listening_def rtu_inv_def port_ok_def rx_ready_def slave_example_def
      mb_power_on_def slave_clock_def slaveid_ok_def modbus_ok_def modbus_example_def handlers_init_ok)

lemma slave_example_silence: "0 < n \<Longrightarrow> silence_after n slave_example"
  by (simp add: silence_after_def slave_example_def mb_power_on_def slave_clock_def timer_delta_def word_less_nat_alt)

theorem modbus_request_answered_witness:
  "\<exists>resp app' s'. mb_polls (modbus_env tcp_broken slave_dev) 5
      (slave_example\<lparr>os_line := [LineBytes (rtu_wire (ucMBAddress slave_example) [3, 7, 208, 0, 2])]\<rparr>) = Some s' \<and>
    os_sent s' = os_sent slave_example @ rtu_wire (ucMBAddress slave_example) resp \<and> mb_appst s' = app' \<and>
    mb_waiting modbus_ok s'"
  using modbus_request_answered [of slave_example "[3, 7, 208, 0, 2]" tcp_broken slave_dev]
    slave_example_waiting slave_example_silence [of 8]
  by (auto simp: slave_example_def)

theorem modbus_broadcast_silent_witness:
  "\<exists>s'. mb_polls (modbus_env tcp_broken slave_dev) 3
      (slave_example\<lparr>os_line := [LineBytes (rtu_wire 0 [6, 7, 208, 0, 2])]\<rparr>) = Some s' \<and>
    os_sent s' = os_sent slave_example \<and> mb_waiting modbus_ok s'"
  using modbus_broadcast_silent [of slave_example "[6, 7, 208, 0, 2]" tcp_broken slave_dev]
    slave_example_waiting slave_example_silence [of 8]
  by auto

lemma slave_session:
  "\<exists>s. mb_session (modbus_env tcp_broken slave_dev) modbus_ok s"
proof -
  let ?init = "eMBInit (modbus_env tcp_broken slave_dev) MB_RTU 10 0 38400 MB_PAR_EVEN
    (mb_power_on slave_clock modbus_example ())"
  have "\<exists>s1 s2. ?init = Some (MB_ENOERR, s1) \<and> eMBEnable s1 = Some (MB_ENOERR, s2)"
    by (simp add: eMBInit_def eMBRTUInit_def xMBPortSerialInit_def vMBPortSerialEnable_def xMBPortTimersInit_def
        xMBPortSerialSetTimeout_def xMBPortEventInit_def eMBEnable_def mb_start_def eMBRTUStart_def
        vMBPortTimersEnable_def modbus_env_def slave_dev_def mb_power_on_def slave_clock_def Let_def)
  then show ?thesis
    using mb_session.start [of slave_clock modbus_ok modbus_example]
    by (fastforce simp: slave_clock_def modbus_ok_def modbus_example_def)
qed


theorem tcp_init_failure_enable_witness:
  "\<exists>s'. eMBTCPInit (modbus_env tcp_broken slave_dev) 502 (mb_power_on slave_clock modbus_example ())
      = (MB_EPORTERR, s') \<and> eMBEnable s' = None"
  by (rule tcp_init_failure_enable [where net = "()"])
     (simp_all add: tcp_broken_def mb_power_on_def modbus_env_def)

end
