(* ===== verification/NxFlash.thy ===== *)
theory NxFlash
  imports Prelude
begin

text \<open>
  The flash partitions of the bootloader, \<^verbatim>\<open>boot/nxboot/loader/flash.c\<close>, over a model of the
  devices below it. A partition is a byte device with a geometry; the arguments of its
  record say how the driver answers: whether it opens, how many bytes a read or a write at
  an offset transfers, whether it erases. The descriptor of a partition is its number.

  The bootloader has to survive a loss of power. \<open>os_power\<close> is the number of writes and
  erasures until then (\<open>None\<close> when power stays): later ones have no effect on the flash, so
  that the flash after a run is the flash at the moment power was lost. A single write or
  erasure is done entirely or not at all.
\<close>

section \<open>The devices\<close>

record mtd_geometry =
  geo_blocksize :: u32
  geo_erasesize :: u32
  geo_neraseblocks :: u32

record partition =
  pt_open :: bool
  pt_geometry :: "mtd_geometry option"
  pt_bytes :: "u8 list"
  pt_read :: "nat \<Rightarrow> nat \<Rightarrow> nat"
  pt_write :: "nat \<Rightarrow> nat \<Rightarrow> nat"
  pt_erase :: bool

record nx_os =
  os_part :: "nat \<Rightarrow> partition"
  os_fds :: "nat list"
  os_malloc :: "int \<Rightarrow> bool"
  os_power :: "nat option"

abbreviation (input) OK :: int where "OK \<equiv> 0"
abbreviation (input) ERROR :: int where "ERROR \<equiv> -1"

text \<open>The conversion of an \<^verbatim>\<open>int\<close> to \<^verbatim>\<open>size_t\<close>, both of 32 bits.\<close>

definition size_t :: "int \<Rightarrow> nat" where
  "size_t i = nat (i mod 2 ^ 32)"

definition powered :: "nx_os \<Rightarrow> bool" where
  "powered w \<longleftrightarrow> os_power w \<noteq> Some 0"

text \<open>A change of the flash, if there is power for it.\<close>

definition flash_change :: "nat \<Rightarrow> (u8 list \<Rightarrow> u8 list) \<Rightarrow> nx_os \<Rightarrow> nx_os" where
  "flash_change fd f w =
     (if powered w
      then w\<lparr>os_part := (os_part w)(fd := (os_part w fd)\<lparr>pt_bytes := f (pt_bytes (os_part w fd))\<rparr>),
             os_power := map_option (\<lambda>n. n - 1) (os_power w)\<rparr>
      else w)"

text \<open>A \<^verbatim>\<open>read\<close> that returns all \<open>count\<close> bytes; a \<^verbatim>\<open>write\<close> returns how many it wrote.\<close>

definition dev_read :: "partition \<Rightarrow> nat \<Rightarrow> nat \<Rightarrow> u8 list option" where
  "dev_read p off count =
     (if off + count \<le> length (pt_bytes p) \<and> pt_read p off count = count
      then Some (take count (drop off (pt_bytes p))) else None)"

definition dev_write :: "nat \<Rightarrow> nat \<Rightarrow> u8 list \<Rightarrow> nx_os \<Rightarrow> nat \<times> nx_os" where
  "dev_write fd off buf w =
     (let p = os_part w fd;
          n = min (pt_write p off (length buf)) (min (length buf) (length (pt_bytes p) - off))
      in (n, flash_change fd (\<lambda>bs. take off bs @ take n buf @ drop (off + n) bs) w))"

section \<open>flash.c\<close>

definition flash_partition_open :: "nat \<Rightarrow> nx_os \<Rightarrow> nat option \<times> nx_os" where
  "flash_partition_open path w =
     (if pt_open (os_part w path) then (Some path, w\<lparr>os_fds := path # os_fds w\<rparr>) else (None, w))"

definition flash_partition_close :: "nat \<Rightarrow> nx_os \<Rightarrow> nx_os" where
  "flash_partition_close fd w = w\<lparr>os_fds := remove1 fd (os_fds w)\<rparr>"

text \<open>The size of a partition; the product of two 32-bit numbers wraps around.\<close>

definition geo_size :: "mtd_geometry \<Rightarrow> u32" where
  "geo_size g = geo_erasesize g * geo_neraseblocks g"

text \<open>
  \<^verbatim>\<open>flash_partition_read\<close> and \<^verbatim>\<open>flash_partition_write\<close>. The result of the read is the bytes
  read, or \<open>None\<close> for \<^verbatim>\<open>ERROR\<close>. \<^verbatim>\<open>lseek\<close> fails for a negative offset.
\<close>

definition flash_partition_write :: "nat \<Rightarrow> u8 list \<Rightarrow> int \<Rightarrow> nx_os \<Rightarrow> int \<times> nx_os" where
  "flash_partition_write fd buf off w =
     (case pt_geometry (os_part w fd) of
        None \<Rightarrow> (ERROR, w)
      | Some g \<Rightarrow>
          if unat (geo_size g) < size_t (int (length buf) + off) then (ERROR, w)
          else if off < 0 then (ERROR, w)
          else let (nbytes, w) = dev_write fd (nat off) buf w in
               if nbytes \<noteq> length buf then (ERROR, w) else (OK, w))"

definition flash_partition_read :: "nat \<Rightarrow> int \<Rightarrow> int \<Rightarrow> nx_os \<Rightarrow> u8 list option" where
  "flash_partition_read fd count off w =
     (case pt_geometry (os_part w fd) of
        None \<Rightarrow> None
      | Some g \<Rightarrow>
          if unat (geo_size g) < size_t (count + off) then None
          else if off < 0 then None
          else dev_read (os_part w fd) (nat off) (size_t count))"

definition flash_partition_erase :: "nat \<Rightarrow> nx_os \<Rightarrow> int \<times> nx_os" where
  "flash_partition_erase fd w =
     (if \<not> pt_erase (os_part w fd) then (ERROR, w)
      else (OK, flash_change fd (\<lambda>bs. replicate (length bs) 0xFF) w))"

definition flash_partition_erase_first_sector :: "nat \<Rightarrow> nx_os \<Rightarrow> int \<times> nx_os" where
  "flash_partition_erase_first_sector fd w =
     (case pt_geometry (os_part w fd) of
        Some g \<Rightarrow>
          if \<not> pt_erase (os_part w fd) then (ERROR, w)
          else (OK, flash_change fd
                 (\<lambda>bs. replicate (min (unat (geo_erasesize g)) (length bs)) 0xFF @ drop (unat (geo_erasesize g)) bs) w)
      | None \<Rightarrow> (ERROR, w))"

record flash_partition_info_s =
  info_size :: int
  info_blocksize :: int
  info_neraseblocks :: int
  info_erasesize :: int

definition flash_partition_info :: "nat \<Rightarrow> nx_os \<Rightarrow> flash_partition_info_s option" where
  "flash_partition_info fd w =
     map_option (\<lambda>g. \<lparr>info_size = sint (geo_size g), info_blocksize = sint (geo_blocksize g),
                      info_neraseblocks = sint (geo_neraseblocks g), info_erasesize = sint (geo_erasesize g)\<rparr>)
       (pt_geometry (os_part w fd))"

end
