(* ===== verification/NxBoot.thy ===== *)
theory NxBoot
  imports NxFlash
begin

text \<open>
  The bootloader, \<^verbatim>\<open>boot/nxboot/loader/boot.c\<close>: image headers, the CRC of an image, copying
  an image between partitions, the state of the three slots, update, revert and
  confirmation, and the \<^verbatim>\<open>main\<close> of \<^verbatim>\<open>nxboot_main.c\<close>.

  \<open>None\<close> is a loop that does not end (a block size of zero) or a write through a null
  pointer; an error the code reports is a value. What the bootloader is configured and
  linked with is the argument \<open>cfg\<close>: \<^verbatim>\<open>crc32part\<close> of the C library,
  \<^verbatim>\<open>CONFIG_NXBOOT_PLATFORM_IDENTIFIER\<close> and \<^verbatim>\<open>CONFIG_NXBOOT_PREVENT_DOWNGRADE\<close>. Messages to the
  system log are left out. Headers are read as on a little-endian machine.
\<close>

section \<open>nxboot.h\<close>

record nx_cfg =
  cfg_crc32part :: "u8 list \<Rightarrow> u32 \<Rightarrow> u32"
  cfg_identifier :: u64
  cfg_prevent_downgrade :: bool

abbreviation (input) NXBOOT_PRIMARY_SLOT_NUM :: nat where "NXBOOT_PRIMARY_SLOT_NUM \<equiv> 0"
abbreviation (input) NXBOOT_SECONDARY_SLOT_NUM :: nat where "NXBOOT_SECONDARY_SLOT_NUM \<equiv> 1"
abbreviation (input) NXBOOT_TERTIARY_SLOT_NUM :: nat where "NXBOOT_TERTIARY_SLOT_NUM \<equiv> 2"

definition NXBOOT_HEADER_MAGIC :: u32 where "NXBOOT_HEADER_MAGIC = 0x534F584E"
definition NXBOOT_HEADER_MAGIC_INT :: u32 where "NXBOOT_HEADER_MAGIC_INT = 0xACA0ABB0"
definition NXBOOT_HEADER_MAGIC_INT_MASK :: u32 where "NXBOOT_HEADER_MAGIC_INT_MASK = 0xFFFFFFF0"
definition NXBOOT_RECOVERY_PTR_MASK :: u32 where "NXBOOT_RECOVERY_PTR_MASK = 0x3"

datatype nxboot_update_type = NXBOOT_UPDATE_TYPE_NONE | NXBOOT_UPDATE_TYPE_UPDATE | NXBOOT_UPDATE_TYPE_REVERT

record nxboot_img_version =
  ver_major :: u16
  ver_minor :: u16
  ver_patch :: u16
  ver_pre_release :: "u8 list"

record nxboot_hdr_version =
  hver_major :: u8
  hver_minor :: u8

record nxboot_img_header =
  hdr_magic :: u32
  hdr_hdr_version :: nxboot_hdr_version
  hdr_header_size :: u16
  hdr_crc :: u32
  hdr_size :: u32
  hdr_identifier :: u64
  hdr_extd_hdr_ptr :: u32
  hdr_img_version :: nxboot_img_version

record nxboot_state =
  st_update :: nat
  st_recovery :: nat
  st_recovery_valid :: bool
  st_recovery_present :: bool
  st_primary_confirmed :: bool
  st_next_boot :: nxboot_update_type

text \<open>
  The layout of \<^verbatim>\<open>struct nxboot_img_header\<close>: 128 bytes, the CRC at offset 8, the identifier
  aligned at 16, the pre-release version in the last 94 bytes.
\<close>

definition le16 :: "u8 list \<Rightarrow> nat \<Rightarrow> u16" where
  "le16 bs i = ucast (bs ! i) OR push_bit 8 (ucast (bs ! (i + 1)))"

definition le32 :: "u8 list \<Rightarrow> nat \<Rightarrow> u32" where
  "le32 bs i = ucast (le16 bs i) OR push_bit 16 (ucast (le16 bs (i + 2)))"

definition le64 :: "u8 list \<Rightarrow> nat \<Rightarrow> u64" where
  "le64 bs i = ucast (le32 bs i) OR push_bit 32 (ucast (le32 bs (i + 4)))"

definition le32_bytes :: "u32 \<Rightarrow> u8 list" where
  "le32_bytes m = [ucast m, ucast (drop_bit 8 m), ucast (drop_bit 16 m), ucast (drop_bit 24 m)]"

definition header_of :: "u8 list \<Rightarrow> nxboot_img_header" where
  "header_of bs = \<lparr>hdr_magic = le32 bs 0, hdr_hdr_version = \<lparr>hver_major = bs ! 4, hver_minor = bs ! 5\<rparr>,
     hdr_header_size = le16 bs 6, hdr_crc = le32 bs 8, hdr_size = le32 bs 12, hdr_identifier = le64 bs 16,
     hdr_extd_hdr_ptr = le32 bs 24,
     hdr_img_version = \<lparr>ver_major = le16 bs 28, ver_minor = le16 bs 30, ver_patch = le16 bs 32,
       ver_pre_release = take 94 (drop 34 bs)\<rparr>\<rparr>"

section \<open>Images\<close>

definition IS_INTERNAL_MAGIC :: "u32 \<Rightarrow> bool" where
  "IS_INTERNAL_MAGIC magic \<longleftrightarrow> magic AND NXBOOT_HEADER_MAGIC_INT_MASK = NXBOOT_HEADER_MAGIC_INT"

definition get_image_header :: "nat \<Rightarrow> nx_os \<Rightarrow> nxboot_img_header" where
  "get_image_header fd w =
     (case flash_partition_read fd 128 0 w of
        None \<Rightarrow> header_of (replicate 128 0)
      | Some bs \<Rightarrow> header_of bs)"

definition validate_image_header :: "nx_cfg \<Rightarrow> nxboot_img_header \<Rightarrow> bool" where
  "validate_image_header cfg header \<longleftrightarrow>
     (hdr_magic header = NXBOOT_HEADER_MAGIC \<or> IS_INTERNAL_MAGIC (hdr_magic header)) \<and>
     hdr_identifier header = cfg_identifier cfg"

text \<open>The loop of \<^verbatim>\<open>calculate_crc\<close>, to the end of the function.\<close>

partial_function (option) crc_loop ::
    "(u8 list \<Rightarrow> u32 \<Rightarrow> u32) \<Rightarrow> nat \<Rightarrow> int \<Rightarrow> int \<Rightarrow> int \<Rightarrow> u32 \<Rightarrow> nx_os \<Rightarrow> u32 option" where
  "crc_loop crc32part fd blocksize off remain crc w =
     (if 0 < remain then
        let readsiz = (if blocksize < remain then blocksize else remain) in
        case flash_partition_read fd readsiz off w of
          None \<Rightarrow> Some 0xFFFFFFFF
        | Some buf \<Rightarrow>
            crc_loop crc32part fd blocksize (off + readsiz) (remain - readsiz) (crc32part buf crc) w
      else Some (NOT crc))"

definition calculate_crc :: "nx_cfg \<Rightarrow> nat \<Rightarrow> nxboot_img_header \<Rightarrow> nx_os \<Rightarrow> u32 option" where
  "calculate_crc cfg fd header w =
     (case flash_partition_info fd w of
        None \<Rightarrow> Some 0
      | Some info \<Rightarrow>
          if \<not> os_malloc w (info_blocksize info) then Some 0
          else crc_loop (cfg_crc32part cfg) fd (info_blocksize info) 12
                 (sint (hdr_size header + ucast (hdr_header_size header) - 12)) 0xFFFFFFFF w)"

definition validate_image :: "nx_cfg \<Rightarrow> nat \<Rightarrow> nx_os \<Rightarrow> bool option" where
  "validate_image cfg fd w = (
     let header = get_image_header fd w in
     if \<not> validate_image_header cfg header then Some False
     else do {
       crc \<leftarrow> calculate_crc cfg fd header w;
       Some (crc = hdr_crc header)
     })"

text \<open>The loop that copies \<open>remain\<close> bytes from offset \<open>off\<close>, in \<^verbatim>\<open>copy_partition\<close> and \<^verbatim>\<open>nxboot_confirm\<close>.\<close>

partial_function (option) copy_loop ::
    "nat \<Rightarrow> nat \<Rightarrow> int \<Rightarrow> int \<Rightarrow> int \<Rightarrow> nx_os \<Rightarrow> (int \<times> nx_os) option" where
  "copy_loop src dst blocksize off remain w =
     (if 0 < remain then
        let readsiz = (if blocksize < remain then blocksize else remain) in
        case flash_partition_read src readsiz off w of
          None \<Rightarrow> Some (ERROR, w)
        | Some buf \<Rightarrow>
            let (ret, w) = flash_partition_write dst buf off w in
            if ret < 0 then Some (ERROR, w)
            else copy_loop src dst blocksize (off + readsiz) (remain - readsiz) w
      else Some (OK, w))"

definition copy_partition :: "nat \<Rightarrow> nat \<Rightarrow> nxboot_state \<Rightarrow> bool \<Rightarrow> nx_os \<Rightarrow> (int \<times> nx_os) option" where
  "copy_partition src dst state update w = (
     let header = get_image_header src w in
     case (flash_partition_info src w, flash_partition_info dst w) of
       (Some info_from, Some info_where) \<Rightarrow>
         let remain = sint (hdr_size header + ucast (hdr_header_size header));
             blocksize = max (info_blocksize info_from) (info_blocksize info_where)
         in if info_size info_where < remain then Some (ERROR, w)
            else if \<not> os_malloc w blocksize then Some (ERROR, w)
            else
              let magic = (if IS_INTERNAL_MAGIC (hdr_magic header) then NXBOOT_HEADER_MAGIC
                           else NXBOOT_HEADER_MAGIC_INT);
                  magic = (if update then magic OR of_nat (st_update state) else magic)
              in (case flash_partition_read src blocksize 0 w of
                    None \<Rightarrow> Some (ERROR, w)
                  | Some buf \<Rightarrow> do {
                      buf \<leftarrow> array_blit buf 0 (le32_bytes magic);
                      let (ret, w) = flash_partition_write dst buf 0 w;
                      if ret < 0 then Some (ERROR, w)
                      else copy_loop src dst blocksize blocksize (remain - blocksize) w
                    })
     | _ \<Rightarrow> Some (ERROR, w))"

definition compare_versions :: "nx_cfg \<Rightarrow> nxboot_img_version \<Rightarrow> nxboot_img_version \<Rightarrow> bool" where
  "compare_versions cfg v1 v2 =
     (if \<not> cfg_prevent_downgrade cfg then
        ver_major v1 = ver_major v2 \<and> ver_minor v1 = ver_minor v2 \<and> ver_patch v1 = ver_patch v2 \<and>
        ver_pre_release v1 = ver_pre_release v2
      else ver_major v2 < ver_major v1 \<or> ver_minor v2 < ver_minor v1 \<or> ver_patch v2 < ver_patch v1)"

section \<open>The state of the slots\<close>

definition get_update_type ::
    "nx_cfg \<Rightarrow> nxboot_state \<Rightarrow> nat \<Rightarrow> nat \<Rightarrow> nat \<Rightarrow> nxboot_img_header \<Rightarrow> nxboot_img_header \<Rightarrow> nxboot_img_header
     \<Rightarrow> nx_os \<Rightarrow> nxboot_update_type option" where
  "get_update_type cfg state primary update recovery primary_header update_header recovery_header w = do {
     primary_valid \<leftarrow> validate_image cfg primary w;
     update_valid \<leftarrow>
       (if hdr_magic update_header = NXBOOT_HEADER_MAGIC then validate_image cfg update w else Some False);
     Some (if update_valid \<and>
              (hdr_crc primary_header \<noteq> hdr_crc update_header \<or>
               \<not> compare_versions cfg (hdr_img_version primary_header) (hdr_img_version update_header) \<or>
               \<not> primary_valid)
           then NXBOOT_UPDATE_TYPE_UPDATE
           else if IS_INTERNAL_MAGIC (hdr_magic recovery_header) \<and> st_recovery_valid state \<and>
                   (IS_INTERNAL_MAGIC (hdr_magic primary_header) \<and> \<not> st_primary_confirmed state \<or> \<not> primary_valid)
           then NXBOOT_UPDATE_TYPE_REVERT
           else NXBOOT_UPDATE_TYPE_NONE)
   }"

text \<open>The choice of the update slot in \<^verbatim>\<open>nxboot_get_state\<close>; the other one is the recovery slot.\<close>

definition select_update :: "nxboot_img_header \<Rightarrow> nxboot_img_header \<Rightarrow> nxboot_img_header \<Rightarrow> nat" where
  "select_update primary_header secondary_header tertiary_header =
     (if hdr_magic tertiary_header = NXBOOT_HEADER_MAGIC then NXBOOT_TERTIARY_SLOT_NUM
      else if IS_INTERNAL_MAGIC (hdr_magic secondary_header) \<and> IS_INTERNAL_MAGIC (hdr_magic tertiary_header) then
        if IS_INTERNAL_MAGIC (hdr_magic primary_header) then
          if hdr_magic primary_header AND NXBOOT_RECOVERY_PTR_MASK = of_nat NXBOOT_SECONDARY_SLOT_NUM \<and>
             hdr_crc primary_header = hdr_crc secondary_header
          then NXBOOT_TERTIARY_SLOT_NUM else NXBOOT_SECONDARY_SLOT_NUM
        else if hdr_crc primary_header = hdr_crc secondary_header
        then NXBOOT_TERTIARY_SLOT_NUM else NXBOOT_SECONDARY_SLOT_NUM
      else if IS_INTERNAL_MAGIC (hdr_magic secondary_header) then NXBOOT_TERTIARY_SLOT_NUM
      else NXBOOT_SECONDARY_SLOT_NUM)"

definition primary_confirmed :: "nxboot_img_header \<Rightarrow> nxboot_img_header \<Rightarrow> nxboot_img_header \<Rightarrow> bool" where
  "primary_confirmed primary_header secondary_header tertiary_header =
     (if hdr_magic primary_header = NXBOOT_HEADER_MAGIC then True
      else if IS_INTERNAL_MAGIC (hdr_magic primary_header) then
        let recovery_pointer = hdr_magic primary_header AND NXBOOT_RECOVERY_PTR_MASK in
        if recovery_pointer = of_nat NXBOOT_SECONDARY_SLOT_NUM then hdr_crc primary_header = hdr_crc secondary_header
        else if recovery_pointer = of_nat NXBOOT_TERTIARY_SLOT_NUM then hdr_crc primary_header = hdr_crc tertiary_header
        else False
      else False)"

text \<open>The three partitions are opened in order; when one fails those opened before are closed.\<close>

definition open_slots :: "nx_os \<Rightarrow> bool \<times> nx_os" where
  "open_slots w =
     (case flash_partition_open NXBOOT_PRIMARY_SLOT_NUM w of
        (None, w) \<Rightarrow> (False, w)
      | (Some primary, w) \<Rightarrow>
          (case flash_partition_open NXBOOT_SECONDARY_SLOT_NUM w of
             (None, w) \<Rightarrow> (False, flash_partition_close primary w)
           | (Some secondary, w) \<Rightarrow>
               (case flash_partition_open NXBOOT_TERTIARY_SLOT_NUM w of
                  (None, w) \<Rightarrow> (False, flash_partition_close secondary (flash_partition_close primary w))
                | (Some tertiary, w) \<Rightarrow> (True, w))))"

definition close_slots :: "nx_os \<Rightarrow> nx_os" where
  "close_slots w = flash_partition_close NXBOOT_TERTIARY_SLOT_NUM (flash_partition_close NXBOOT_SECONDARY_SLOT_NUM
     (flash_partition_close NXBOOT_PRIMARY_SLOT_NUM w))"

definition state_zero :: nxboot_state where
  "state_zero = \<lparr>st_update = 0, st_recovery = 0, st_recovery_valid = False, st_recovery_present = False,
     st_primary_confirmed = False, st_next_boot = NXBOOT_UPDATE_TYPE_NONE\<rparr>"

definition nxboot_get_state :: "nx_cfg \<Rightarrow> nx_os \<Rightarrow> (int \<times> nxboot_state \<times> nx_os) option" where
  "nxboot_get_state cfg w = (
     let (ok, w) = open_slots w in
     if \<not> ok then Some (ERROR, state_zero, w)
     else do {
       let primary_header = get_image_header NXBOOT_PRIMARY_SLOT_NUM w;
       let secondary_header = get_image_header NXBOOT_SECONDARY_SLOT_NUM w;
       let tertiary_header = get_image_header NXBOOT_TERTIARY_SLOT_NUM w;
       let update = select_update primary_header secondary_header tertiary_header;
       let recovery = (if update = NXBOOT_SECONDARY_SLOT_NUM then NXBOOT_TERTIARY_SLOT_NUM
                       else NXBOOT_SECONDARY_SLOT_NUM);
       let update_header = (if update = NXBOOT_SECONDARY_SLOT_NUM then secondary_header else tertiary_header);
       let recovery_header = (if update = NXBOOT_SECONDARY_SLOT_NUM then tertiary_header else secondary_header);
       recovery_valid \<leftarrow> validate_image cfg recovery w;
       let state = state_zero\<lparr>st_update := update, st_recovery := recovery, st_recovery_valid := recovery_valid,
         st_recovery_present := (hdr_crc primary_header = hdr_crc recovery_header),
         st_primary_confirmed := primary_confirmed primary_header secondary_header tertiary_header\<rparr>;
       next_boot \<leftarrow> get_update_type cfg state NXBOOT_PRIMARY_SLOT_NUM update recovery
         primary_header update_header recovery_header w;
       Some (OK, state\<lparr>st_next_boot := next_boot\<rparr>, close_slots w)
     })"

section \<open>Update, revert and confirmation\<close>

text \<open>The update branch of \<^verbatim>\<open>perform_update\<close>, with the slots open.\<close>

definition update_branch :: "nx_cfg \<Rightarrow> nxboot_state \<Rightarrow> bool \<Rightarrow> nat \<Rightarrow> nat \<Rightarrow> nat \<Rightarrow> nx_os \<Rightarrow> nx_os option" where
  "update_branch cfg state check_only primary update recovery w = do {
     primary_valid \<leftarrow> validate_image cfg primary w;
     if primary_valid \<and> check_only then Some w
     else do {
       (go, w) \<leftarrow>
         (if (\<not> st_recovery_present state \<or> \<not> st_recovery_valid state) \<and> st_primary_confirmed state \<and> primary_valid
          then do {
            (ret, w) \<leftarrow> copy_partition primary recovery state False w;
            ok \<leftarrow> validate_image cfg recovery w;
            Some (ok, w)
          } else Some (True, w));
       if \<not> go then Some w
       else do {
         update_valid \<leftarrow> validate_image cfg update w;
         if update_valid then do {
           (ret, w) \<leftarrow> copy_partition update primary state True w;
           Some (if 0 \<le> ret then snd (flash_partition_erase_first_sector update w) else w)
         } else Some w
       }
     }
   }"

definition perform_update :: "nx_cfg \<Rightarrow> nxboot_state \<Rightarrow> bool \<Rightarrow> nx_os \<Rightarrow> (int \<times> nx_os) option" where
  "perform_update cfg state check_only w = (
     let (ok, w) = open_slots w in
     if \<not> ok then Some (ERROR, w)
     else do {
       let primary = NXBOOT_PRIMARY_SLOT_NUM;
       let (update, recovery) =
         (if st_update state = NXBOOT_SECONDARY_SLOT_NUM then (NXBOOT_SECONDARY_SLOT_NUM, NXBOOT_TERTIARY_SLOT_NUM)
          else (NXBOOT_TERTIARY_SLOT_NUM, NXBOOT_SECONDARY_SLOT_NUM));
       revert \<leftarrow>
         (if st_next_boot state = NXBOOT_UPDATE_TYPE_REVERT then
            if \<not> check_only then Some True else map_option Not (validate_image cfg primary w)
          else Some False);
       w \<leftarrow>
         (if revert then
            if st_recovery_valid state then map_option snd (copy_partition recovery primary state False w)
            else Some w
          else update_branch cfg state check_only primary update recovery w);
       Some (OK, close_slots w)
     })"

definition nxboot_open_update_partition :: "nx_cfg \<Rightarrow> nx_os \<Rightarrow> (nat option \<times> nx_os) option" where
  "nxboot_open_update_partition cfg w = do {
     (_, state, w) \<leftarrow> nxboot_get_state cfg w;
     Some (flash_partition_open
       (if st_update state = NXBOOT_SECONDARY_SLOT_NUM then NXBOOT_SECONDARY_SLOT_NUM else NXBOOT_TERTIARY_SLOT_NUM) w)
   }"

definition nxboot_get_confirm :: "nx_os \<Rightarrow> int \<times> nx_os" where
  "nxboot_get_confirm w =
     (case flash_partition_open NXBOOT_PRIMARY_SLOT_NUM w of
        (None, w) \<Rightarrow> (ERROR, w)
      | (Some primary, w) \<Rightarrow>
          let primary_header = get_image_header primary w in
          if hdr_magic primary_header = NXBOOT_HEADER_MAGIC then (1, flash_partition_close primary w)
          else if IS_INTERNAL_MAGIC (hdr_magic primary_header) \<and>
                  hdr_magic primary_header AND NXBOOT_RECOVERY_PTR_MASK \<noteq> 0 then
            (case flash_partition_open
                (if hdr_magic primary_header AND NXBOOT_RECOVERY_PTR_MASK = of_nat NXBOOT_SECONDARY_SLOT_NUM
                 then NXBOOT_SECONDARY_SLOT_NUM else NXBOOT_TERTIARY_SLOT_NUM) w of
               (None, w) \<Rightarrow> (ERROR, flash_partition_close primary w)
             | (Some recovery, w) \<Rightarrow>
                 let recovery_header = get_image_header recovery w in
                 (if hdr_crc primary_header = hdr_crc recovery_header then 1 else 0,
                  flash_partition_close primary (flash_partition_close recovery w)))
          else (0, flash_partition_close primary w))"

definition nxboot_confirm :: "nx_cfg \<Rightarrow> nx_os \<Rightarrow> (int \<times> nx_os) option" where
  "nxboot_confirm cfg w = do {
     (_, state, w) \<leftarrow> nxboot_get_state cfg w;
     if st_primary_confirmed state then Some (OK, w)
     else
       let path = (if st_update state = NXBOOT_SECONDARY_SLOT_NUM then NXBOOT_SECONDARY_SLOT_NUM
                   else NXBOOT_TERTIARY_SLOT_NUM) in
       case flash_partition_open NXBOOT_PRIMARY_SLOT_NUM w of
         (None, w) \<Rightarrow> Some (ERROR, w)
       | (Some primary, w) \<Rightarrow>
           (case flash_partition_open path w of
              (None, w) \<Rightarrow> Some (ERROR, flash_partition_close primary w)
            | (Some update, w) \<Rightarrow> do {
                (ret, w) \<leftarrow>
                  (case flash_partition_info update w of
                     None \<Rightarrow> Some (ERROR, w)
                   | Some info \<Rightarrow>
                       if \<not> os_malloc w (info_blocksize info) \<and> 0 < info_erasesize info then None
                       else copy_loop primary update (info_blocksize info) 0 (info_erasesize info) w);
                Some (ret, flash_partition_close update (flash_partition_close primary w))
              })
   }"

definition nxboot_perform_update :: "nx_cfg \<Rightarrow> bool \<Rightarrow> nx_os \<Rightarrow> (int \<times> nx_os) option" where
  "nxboot_perform_update cfg check_only w = do {
     (ret, state, w) \<leftarrow> nxboot_get_state cfg w;
     if ret < 0 then Some (ERROR, w)
     else do {
       (ret, w) \<leftarrow>
         (if st_next_boot state \<noteq> NXBOOT_UPDATE_TYPE_NONE then perform_update cfg state check_only w
          else Some (ret, w));
       (case flash_partition_open NXBOOT_PRIMARY_SLOT_NUM w of
          (None, w) \<Rightarrow> Some (ERROR, w)
        | (Some primary, w) \<Rightarrow>
            let header = get_image_header primary w;
                ret = (if \<not> validate_image_header cfg header then ERROR else ret)
            in Some (ret, flash_partition_close primary w))
     }
   }"

section \<open>nxboot\_main.c\<close>

datatype boardioc_reset_cause = RESETCAUSE_CPU_SOFT | RESETCAUSE_CPU_RWDT | RESETCAUSE_PIN | RESETCAUSE_OTHER

text \<open>
  \<^verbatim>\<open>main\<close>: \<open>swreset_only\<close> is \<^verbatim>\<open>CONFIG_NXBOOT_SWRESET_ONLY\<close>, \<open>cause\<close> the answer of
  \<^verbatim>\<open>boardctl(BOARDIOC_RESET_CAUSE)\<close>, \<open>None\<close> for an error. The result says whether the image
  of the primary slot is booted.
\<close>

definition nxboot_main :: "nx_cfg \<Rightarrow> bool \<Rightarrow> boardioc_reset_cause option \<Rightarrow> nx_os \<Rightarrow> (bool \<times> nx_os) option" where
  "nxboot_main cfg swreset_only cause w = do {
     let check_only =
       (swreset_only \<and> cause \<notin> {Some RESETCAUSE_CPU_SOFT, Some RESETCAUSE_CPU_RWDT, Some RESETCAUSE_PIN});
     (ret, w) \<leftarrow> nxboot_perform_update cfg check_only w;
     Some (\<not> ret < 0, w)
   }"

end
