(* ===== verification/NxImage.thy ===== *)
theory NxImage
  imports NxBoot
begin

text \<open>
  Partitions and images as the proofs about the bootloader see them: partitions whose
  driver reports no error, runs that change one slot, the header and the validity of an
  image as functions of its bytes, and what copying an image does to them.
\<close>

section \<open>Partitions without errors\<close>

abbreviation (input) slot_bytes :: "nx_os \<Rightarrow> nat \<Rightarrow> u8 list" where
  "slot_bytes w s \<equiv> pt_bytes (os_part w s)"

definition nx_size :: "mtd_geometry \<Rightarrow> nat" where
  "nx_size g = unat (geo_erasesize g) * unat (geo_neraseblocks g)"

abbreviation (input) nx_block :: "mtd_geometry \<Rightarrow> nat" where
  "nx_block g \<equiv> unat (geo_blocksize g)"

text \<open>A header fits into a block, a block into a sector, a sector into a partition below 2 GB.\<close>

definition nx_geo :: "mtd_geometry \<Rightarrow> bool" where
  "nx_geo g \<longleftrightarrow> 128 \<le> nx_block g \<and> nx_block g \<le> unat (geo_erasesize g) \<and>
     unat (geo_erasesize g) \<le> nx_size g \<and> nx_size g < 2 ^ 31"

definition part_ok :: "mtd_geometry \<Rightarrow> partition \<Rightarrow> bool" where
  "part_ok g p \<longleftrightarrow> pt_open p \<and> pt_geometry p = Some g \<and> length (pt_bytes p) = nx_size g \<and>
     pt_read p = (\<lambda>i n. n) \<and> pt_write p = (\<lambda>i n. n) \<and> pt_erase p"

definition nx_ok :: "mtd_geometry \<Rightarrow> nx_os \<Rightarrow> bool" where
  "nx_ok g w \<longleftrightarrow> nx_geo g \<and> (\<forall>s < 3. part_ok g (os_part w s)) \<and> os_malloc w = (\<lambda>n. True)"

lemma nx_ok_part: "nx_ok g w \<Longrightarrow> s < 3 \<Longrightarrow> part_ok g (os_part w s)"
  unfolding nx_ok_def by blast

lemma nx_ok_geo: "nx_ok g w \<Longrightarrow> nx_geo g"
  unfolding nx_ok_def by blast

lemma nx_ok_geometry: "nx_ok g w \<Longrightarrow> s < 3 \<Longrightarrow> pt_geometry (os_part w s) = Some g"
  using nx_ok_part [of g w s] unfolding part_ok_def by blast

lemma nx_ok_length: "nx_ok g w \<Longrightarrow> s < 3 \<Longrightarrow> length (slot_bytes w s) = nx_size g"
  using nx_ok_part [of g w s] unfolding part_ok_def by blast

lemma geo_size_nat: "nx_geo g \<Longrightarrow> unat (geo_size g) = nx_size g"
  unfolding geo_size_def nx_size_def nx_geo_def by (subst unat_mult_lem [symmetric]) simp

lemma geo_sint:
  assumes "nx_geo g"
  shows "sint (geo_size g) = int (nx_size g)" "sint (geo_blocksize g) = int (nx_block g)"
    "sint (geo_erasesize g) = int (unat (geo_erasesize g))"
  using assms geo_size_nat [OF assms] by (simp_all add: nx_geo_def sint_u32)

lemma info_ok:
  assumes "nx_ok g w" "s < 3"
  shows "\<exists>i. flash_partition_info s w = Some i \<and> info_size i = int (nx_size g) \<and>
    info_blocksize i = int (nx_block g) \<and> info_erasesize i = int (unat (geo_erasesize g))"
  unfolding flash_partition_info_def nx_ok_geometry [OF assms] option.map
  using geo_sint [OF nx_ok_geo [OF assms(1)]] by (intro exI conjI) (rule refl, simp_all only: flash_partition_info_s.simps)

lemma size_t_add:
  assumes "i + n < 2 ^ 32"
  shows "size_t (int n + int i) = n + i"
proof -
  have "int n + int i < 2 ^ 32" using assms by simp
  then have "(int n + int i) mod 2 ^ 32 = int n + int i" by (intro mod_pos_pos_trivial) simp_all
  then show ?thesis unfolding size_t_def by (simp add: nat_add_distrib)
qed

lemma read_ok:
  assumes "nx_ok g w" "s < 3" "i + n \<le> nx_size g"
  shows "flash_partition_read s (int n) (int i) w = Some (take n (drop i (slot_bytes w s)))"
proof -
  note g = nx_ok_geo [OF assms(1)] nx_ok_part [OF assms(1,2)] nx_ok_geometry [OF assms(1,2)]
  have lt: "i + n < 2 ^ 32" using assms(3) g by (simp add: nx_geo_def)
  then have "\<not> unat (geo_size g) < size_t (int n + int i)" "size_t (int n) = n"
    using assms g size_t_add [OF lt] size_t_add [of 0 n] by (simp_all add: geo_size_nat)
  then show ?thesis
    unfolding flash_partition_read_def g(3) using assms(3) g(2) by (simp add: part_ok_def dev_read_def)
qed

text \<open>Replacing the bytes from a position on.\<close>

definition overwrite :: "nat \<Rightarrow> u8 list \<Rightarrow> u8 list \<Rightarrow> u8 list" where
  "overwrite i xs bs = take i bs @ xs @ drop (i + length xs) bs"

lemma length_overwrite [simp]: "i + length xs \<le> length bs \<Longrightarrow> length (overwrite i xs bs) = length bs"
  by (simp add: overwrite_def)

lemma take_overwrite: "k \<le> i \<Longrightarrow> i \<le> length bs \<Longrightarrow> take k (overwrite i xs bs) = take k bs"
  by (simp add: overwrite_def)

lemma overwrite_overwrite:
  "i + length xs \<le> length bs \<Longrightarrow>
   overwrite (i + length xs) ys (overwrite i xs bs) = overwrite i (xs @ ys) bs"
  by (simp add: overwrite_def ac_simps)

lemma dev_write_ok:
  "part_ok g (os_part w s) \<Longrightarrow> i + length buf \<le> nx_size g \<Longrightarrow>
   dev_write s i buf w = (length buf, flash_change s (overwrite i buf) w)"
  unfolding dev_write_def Let_def part_ok_def overwrite_def by simp

lemma write_ok:
  assumes "nx_ok g w" "s < 3" "i + length buf \<le> nx_size g"
  shows "flash_partition_write s buf (int i) w = (OK, flash_change s (overwrite i buf) w)"
proof -
  note g = nx_ok_geo [OF assms(1)] nx_ok_part [OF assms(1,2)] nx_ok_geometry [OF assms(1,2)]
  have "i + length buf < 2 ^ 32" using assms(3) g by (simp add: nx_geo_def)
  then have "\<not> unat (geo_size g) < size_t (int (length buf) + int i)"
    using assms g by (simp add: size_t_add geo_size_nat)
  then show ?thesis
    unfolding flash_partition_write_def g(3) using dev_write_ok [OF g(2) assms(3)] by simp
qed

section \<open>Runs that change one slot\<close>

text \<open>
  A run that changes at most the bytes of slot \<open>d\<close>. Without power it changes nothing, and
  power does not come back.
\<close>

definition slot_run :: "nat \<Rightarrow> nx_os \<Rightarrow> nx_os \<Rightarrow> bool" where
  "slot_run d w w' \<longleftrightarrow>
     (\<exists>bs. os_part w' = (os_part w)(d := (os_part w d)\<lparr>pt_bytes := bs\<rparr>) \<and> length bs = length (slot_bytes w d)) \<and>
     os_fds w' = os_fds w \<and> os_malloc w' = os_malloc w \<and>
     (powered w' \<longrightarrow> powered w) \<and> (\<not> powered w \<longrightarrow> w' = w) \<and> (os_power w = None \<longrightarrow> os_power w' = None)"

lemma slot_run_refl [simp]: "slot_run d w w"
proof -
  have "os_part w = (os_part w)(d := (os_part w d)\<lparr>pt_bytes := slot_bytes w d\<rparr>)" by simp
  then show ?thesis unfolding slot_run_def by blast
qed

lemma slot_run_trans [trans]:
  assumes "slot_run d w w'" "slot_run d w' w''"
  shows "slot_run d w w''"
proof -
  obtain bs bs' where "os_part w' = (os_part w)(d := (os_part w d)\<lparr>pt_bytes := bs\<rparr>)" "length bs = length (slot_bytes w d)"
    "os_part w'' = (os_part w')(d := (os_part w' d)\<lparr>pt_bytes := bs'\<rparr>)" "length bs' = length (slot_bytes w' d)"
    using assms unfolding slot_run_def by blast
  then have "os_part w'' = (os_part w)(d := (os_part w d)\<lparr>pt_bytes := bs'\<rparr>) \<and> length bs' = length (slot_bytes w d)"
    by simp
  moreover have "os_fds w'' = os_fds w" "os_malloc w'' = os_malloc w" "powered w'' \<longrightarrow> powered w"
    "\<not> powered w \<longrightarrow> w'' = w" "os_power w = None \<longrightarrow> os_power w'' = None"
    using assms unfolding slot_run_def by metis+
  ultimately show ?thesis unfolding slot_run_def by blast
qed

lemma slot_run_change:
  assumes "length (f (slot_bytes w d)) = length (slot_bytes w d)"
  shows "slot_run d w (flash_change d f w)"
proof (cases "powered w")
  case True
  then show ?thesis using assms unfolding slot_run_def flash_change_def by auto
next
  case False
  then show ?thesis by (simp add: flash_change_def)
qed

lemma slot_run_other: "slot_run d w w' \<Longrightarrow> s \<noteq> d \<Longrightarrow> os_part w' s = os_part w s"
  by (auto simp: slot_run_def)

lemma slot_run_ok:
  assumes "slot_run d w w'" "nx_ok g w" "d < 3"
  shows "nx_ok g w'"
proof -
  obtain bs where "os_part w' = (os_part w)(d := (os_part w d)\<lparr>pt_bytes := bs\<rparr>)" "length bs = length (slot_bytes w d)"
    "os_malloc w' = os_malloc w" using assms(1) unfolding slot_run_def by blast
  then have "part_ok g (os_part w' s)" if "s < 3" for s
    using nx_ok_part [OF assms(2,3)] nx_ok_part [OF assms(2) that] by (cases "s = d") (simp_all add: part_ok_def)
  with \<open>os_malloc w' = os_malloc w\<close> show ?thesis using assms(2) unfolding nx_ok_def by simp
qed

lemma slot_run_fds: "slot_run d w w' \<Longrightarrow> os_fds w' = os_fds w"
  by (simp add: slot_run_def)

lemma change_bytes:
  "slot_bytes (flash_change d f w) d = (if powered w then f (slot_bytes w d) else slot_bytes w d)"
  by (simp add: flash_change_def)

lemma powered_change: "powered (flash_change d f w) \<Longrightarrow> powered w"
  by (auto simp: flash_change_def split: if_splits)

section \<open>Copying\<close>

lemma copy_loop_step:
  assumes "nx_ok g w" "src < 3" "dst < 3" "0 < n" "i + r \<le> nx_size g" "r = min b n"
  shows "copy_loop src dst (int b) (int i) (int n) w = copy_loop src dst (int b) (int (i + r)) (int (n - r))
    (flash_change dst (overwrite i (take r (drop i (slot_bytes w src)))) w)"
proof -
  let ?x = "take r (drop i (slot_bytes w src))"
  have r: "(if int b < int n then int b else int n) = int r" "int n - int r = int (n - r)" "int i + int r = int (i + r)"
    "length ?x = r"
    using assms nx_ok_length [OF assms(1,2)] by auto
  have x: "i + length ?x \<le> nx_size g" using r assms by simp
  have "0 < int n" using assms by simp
  then show ?thesis
    unfolding copy_loop.simps [of src dst "int b" "int i" "int n"] Let_def r(1,2,3) read_ok [OF assms(1,2,5)]
      option.case write_ok [OF assms(1,3) x] prod.case by simp
qed

lemma copy_loop_done: "n \<le> 0 \<Longrightarrow> copy_loop src dst b i n w = Some (OK, w)"
  by (subst copy_loop.simps) simp

lemma copy_loop_ok:
  assumes "nx_ok g w" "src < 3" "dst < 3" "src \<noteq> dst" "0 < b" "i + n \<le> nx_size g"
  shows "\<exists>w'. copy_loop src dst (int b) (int i) (int n) w = Some (OK, w') \<and> slot_run dst w w' \<and>
    take i (slot_bytes w' dst) = take i (slot_bytes w dst) \<and>
    (powered w' \<longrightarrow> slot_bytes w' dst = overwrite i (take n (drop i (slot_bytes w src))) (slot_bytes w dst))"
  using assms
proof (induction n arbitrary: i w rule: less_induct)
  case (less n)
  note ok = \<open>nx_ok g w\<close> and len = nx_ok_length [OF \<open>nx_ok g w\<close>]
  show ?case
  proof (cases "n = 0")
    case True
    then show ?thesis by (subst copy_loop.simps) (simp add: overwrite_def)
  next
    case False
    define r where "r = min b n"
    let ?x = "take r (drop i (slot_bytes w src))"
    let ?w = "flash_change dst (overwrite i ?x) w"
    have r: "n - r < n" "r \<le> n" "i + r + (n - r) \<le> nx_size g" "i + r \<le> nx_size g" "length ?x = r" "0 < n"
      using False less.prems len [OF \<open>src < 3\<close>] by (auto simp: r_def)
    have run: "slot_run dst w ?w" using r(4,5) len [OF \<open>dst < 3\<close>] by (intro slot_run_change) simp
    have bytes: "slot_bytes ?w src = slot_bytes w src"
      using slot_run_other [OF run \<open>src \<noteq> dst\<close>] by simp
    from less.IH [OF r(1) slot_run_ok [OF run ok \<open>dst < 3\<close>] less.prems(2-5) r(3), unfolded bytes]
    obtain w' where w': "copy_loop src dst (int b) (int (i + r)) (int (n - r)) ?w = Some (OK, w')"
      "slot_run dst ?w w'" "take (i + r) (slot_bytes w' dst) = take (i + r) (slot_bytes ?w dst)"
      "powered w' \<longrightarrow> slot_bytes w' dst =
        overwrite (i + r) (take (n - r) (drop (i + r) (slot_bytes w src))) (slot_bytes ?w dst)"
      by (elim exE conjE)
    have "copy_loop src dst (int b) (int i) (int n) w = Some (OK, w')"
      unfolding copy_loop_step [OF ok less.prems(2,3) r(6,4) r_def] by (rule w'(1))
    moreover have "take i (slot_bytes w' dst) = take i (slot_bytes w dst)"
    proof -
      have "take i (slot_bytes w' dst) = take i (slot_bytes ?w dst)"
        using arg_cong [OF w'(3), of "take i"] by (simp add: min_def)
      then show ?thesis using r(4) len [OF \<open>dst < 3\<close>] by (simp add: change_bytes take_overwrite)
    qed
    moreover have "slot_bytes w' dst = overwrite i (take n (drop i (slot_bytes w src))) (slot_bytes w dst)"
      if "powered w'"
    proof -
      have p: "powered w" using that w'(2) run unfolding slot_run_def by blast
      have "?x @ take (n - r) (drop (i + r) (slot_bytes w src)) = take n (drop i (slot_bytes w src))"
        using r(2) by (metis add.commute drop_drop le_add_diff_inverse take_add)
      then show ?thesis
        using w'(4) that p r(4,5) len [OF \<open>dst < 3\<close>] overwrite_overwrite [of i ?x "slot_bytes w dst"]
        by (simp add: change_bytes)
    qed
    ultimately show ?thesis using slot_run_trans [OF run w'(2)] by blast
  qed
qed

section \<open>Headers\<close>

lemma le16_take: "i + 2 \<le> k \<Longrightarrow> le16 (take k bs) i = le16 bs i"
  by (simp add: le16_def)

lemma le32_take: "i + 4 \<le> k \<Longrightarrow> le32 (take k bs) i = le32 bs i"
  by (simp add: le32_def le16_take)

lemma le64_take: "i + 8 \<le> k \<Longrightarrow> le64 (take k bs) i = le64 bs i"
  by (simp add: le64_def le32_take)

text \<open>The header depends on the first 128 bytes only.\<close>

lemma header_take: "128 \<le> k \<Longrightarrow> header_of (take k bs) = header_of bs"
  by (simp add: header_of_def le16_take le32_take le64_take drop_take min_def)

lemma header_cong: "take 128 bs = take 128 bs' \<Longrightarrow> header_of bs = header_of bs'"
  using header_take [of 128 bs] header_take [of 128 bs'] by simp

text \<open>An image with another magic number.\<close>

definition relabel :: "u32 \<Rightarrow> u8 list \<Rightarrow> u8 list" where
  "relabel m bs = le32_bytes m @ drop 4 bs"

lemma length_le32_bytes [simp]: "length (le32_bytes m) = 4"
  by (simp add: le32_bytes_def)

lemma length_relabel [simp]: "4 \<le> length bs \<Longrightarrow> length (relabel m bs) = length bs"
  by (simp add: relabel_def)

lemma nth_relabel: "4 \<le> i \<Longrightarrow> i < length bs \<Longrightarrow> relabel m bs ! i = bs ! i"
  by (simp add: relabel_def nth_append)

lemma drop_relabel: "4 \<le> i \<Longrightarrow> drop i (relabel m bs) = drop i bs"
  by (simp add: relabel_def)

lemma le32_relabel: "le32 (relabel m bs) 0 = m"
proof (rule bit_word_eqI)
  fix n assume "n < LENGTH(32)"
  then show "bit (le32 (relabel m bs) 0) n = bit m n"
    by (cases "n < 8"; cases "n < 16"; cases "n < 24")
       (auto simp: le32_def le16_def relabel_def le32_bytes_def bit_simps)
qed

lemma header_relabel:
  assumes "128 \<le> length bs"
  shows "header_of (relabel m bs) = (header_of bs)\<lparr>hdr_magic := m\<rparr>"
proof -
  have l16: "le16 (relabel m bs) i = le16 bs i" if "4 \<le> i" "i + 2 \<le> 128" for i
    using that assms by (simp add: le16_def nth_relabel)
  have l32: "le32 (relabel m bs) i = le32 bs i" if "4 \<le> i" "i + 4 \<le> 128" for i
    using that by (simp add: le32_def l16)
  have l64: "le64 (relabel m bs) i = le64 bs i" if "4 \<le> i" "i + 8 \<le> 128" for i
    using that by (simp add: le64_def l32)
  have "relabel m bs ! 4 = bs ! 4" "relabel m bs ! 5 = bs ! 5" "drop 34 (relabel m bs) = drop 34 bs"
    using assms by (simp_all add: nth_relabel drop_relabel)
  then show ?thesis
    using assms by (simp add: header_of_def le32_relabel l16 l32 l64)
qed

lemma get_header_ok:
  assumes "nx_ok g w" "s < 3"
  shows "get_image_header s w = header_of (slot_bytes w s)"
proof -
  have "0 + 128 \<le> nx_size g" using nx_ok_geo [OF assms(1)] by (simp add: nx_geo_def)
  from read_ok [OF assms this] show ?thesis by (simp add: get_image_header_def header_take)
qed

section \<open>Validity\<close>

function crc_chunks :: "(u8 list \<Rightarrow> u32 \<Rightarrow> u32) \<Rightarrow> nat \<Rightarrow> u8 list \<Rightarrow> u32 \<Rightarrow> u32" where
  "crc_chunks f b xs c = (if xs = [] \<or> b = 0 then c else crc_chunks f b (drop b xs) (f (take b xs) c))"
  by auto
termination by (relation "measure (\<lambda>(f, b, xs, c). length xs)") auto

declare crc_chunks.simps [simp del]

text \<open>The length of an image with its header, and the bytes its CRC covers.\<close>

definition image_len :: "u8 list \<Rightarrow> nat" where
  "image_len bs = unat (hdr_size (header_of bs)) + unat (hdr_header_size (header_of bs))"

definition image_body :: "u8 list \<Rightarrow> u8 list" where
  "image_body bs = take (image_len bs - 12) (drop 12 bs)"

definition image_valid :: "nx_cfg \<Rightarrow> mtd_geometry \<Rightarrow> u8 list \<Rightarrow> bool" where
  "image_valid cfg g bs \<longleftrightarrow> validate_image_header cfg (header_of bs) \<and>
     NOT (crc_chunks (cfg_crc32part cfg) (nx_block g) (image_body bs) 0xFFFFFFFF) = hdr_crc (header_of bs)"

text \<open>An image whose header is accepted does not claim more bytes than a partition has.\<close>

definition image_fits :: "nx_cfg \<Rightarrow> mtd_geometry \<Rightarrow> u8 list \<Rightarrow> bool" where
  "image_fits cfg g bs \<longleftrightarrow> (validate_image_header cfg (header_of bs) \<longrightarrow> image_len bs \<le> nx_size g)"

lemma crc_loop_ok:
  assumes "nx_ok g w" "s < 3" "0 < b" "i + n \<le> nx_size g"
  shows "crc_loop f s (int b) (int i) (int n) c w = Some (NOT (crc_chunks f b (take n (drop i (slot_bytes w s))) c))"
  using assms(4)
proof (induction n arbitrary: i c rule: less_induct)
  case (less n)
  have len: "length (slot_bytes w s) = nx_size g" using nx_ok_length [OF assms(1,2)] .
  show ?case
  proof (cases "n = 0")
    case True
    then show ?thesis by (subst crc_loop.simps) (simp add: crc_chunks.simps)
  next
    case False
    define r where "r = min b n"
    have r: "(if int b < int n then int b else int n) = int r" "int n - int r = int (n - r)"
      "int i + int r = int (i + r)" "n - r < n" "i + r + (n - r) \<le> nx_size g" "i + r \<le> nx_size g" "0 < int n"
      using False less.prems assms(3) by (auto simp: r_def)
    let ?xs = "take n (drop i (slot_bytes w s))"
    have "?xs \<noteq> []" using False less.prems len by simp
    moreover have "take b ?xs = take r (drop i (slot_bytes w s))"
      "drop b ?xs = take (n - r) (drop (i + r) (slot_bytes w s))"
      using less.prems len by (auto simp: r_def min_def drop_take add.commute)
    ultimately have "crc_chunks f b ?xs c =
        crc_chunks f b (take (n - r) (drop (i + r) (slot_bytes w s))) (f (take r (drop i (slot_bytes w s))) c)"
      using assms(3) by (subst crc_chunks.simps) simp
    then show ?thesis
      unfolding crc_loop.simps [of f s "int b" "int i" "int n"] Let_def r(1,2,3) read_ok [OF assms(1,2) r(6)]
        option.case using less.IH [OF r(4,5)] r(7) by simp
  qed
qed

lemma unat_ucast_u16: "unat (ucast x :: u32) = unat x" for x :: u16
  by transfer simp

lemma image_len_word:
  assumes "image_len bs < 2 ^ 31"
  shows "sint (hdr_size (header_of bs) + ucast (hdr_header_size (header_of bs))) = int (image_len bs)"
    "sint (hdr_size (header_of bs) + ucast (hdr_header_size (header_of bs)) - 12) = int (image_len bs) - 12"
proof -
  let ?h = "header_of bs" and ?n = "hdr_size (header_of bs) + ucast (hdr_header_size (header_of bs))"
  have n: "unat ?n = image_len bs"
    using assms unat_ucast_u16 by (subst unat_plus_simple [THEN iffD1]) (simp_all add: image_len_def no_olen_add_nat)
  show s: "sint ?n = int (image_len bs)" using sint_u32 [of ?n] assms n by simp
  have "sint (?n - 12) = signed_take_bit 31 (sint ?n - sint (12 :: u32))"
    by (simp only: sint_word_ariths) simp
  also have "\<dots> = int (image_len bs) - 12"
    unfolding s using assms by (subst signed_take_bit_int_eq_self) simp_all
  finally show "sint (?n - 12) = int (image_len bs) - 12" .
qed

lemma nx_ok_block: "nx_ok g w \<Longrightarrow> 128 \<le> nx_block g \<and> nx_block g \<le> nx_size g \<and> nx_size g < 2 ^ 31"
  using nx_ok_geo [of g w] unfolding nx_geo_def by linarith

lemma crc_ok:
  assumes "nx_ok g w" "s < 3" "image_len (slot_bytes w s) \<le> nx_size g"
  shows "calculate_crc cfg s (header_of (slot_bytes w s)) w
    = Some (NOT (crc_chunks (cfg_crc32part cfg) (nx_block g) (image_body (slot_bytes w s)) 0xFFFFFFFF))"
proof -
  let ?bs = "slot_bytes w s"
  have b: "0 < nx_block g" "image_len ?bs < 2 ^ 31" "12 \<le> nx_size g" using nx_ok_block [OF assms(1)] assms(3) by linarith+
  obtain info where info: "flash_partition_info s w = Some info" "info_blocksize info = int (nx_block g)"
    using info_ok [OF assms(1,2)] by blast
  have m: "os_malloc w n" for n using assms(1) by (simp add: nx_ok_def)
  have "calculate_crc cfg s (header_of ?bs) w
      = crc_loop (cfg_crc32part cfg) s (int (nx_block g)) (int 12) (int (image_len ?bs) - 12) 0xFFFFFFFF w"
    unfolding calculate_crc_def info option.case image_len_word(2) [OF b(2)] using m by simp
  also have "\<dots> = crc_loop (cfg_crc32part cfg) s (int (nx_block g)) (int 12) (int (image_len ?bs - 12)) 0xFFFFFFFF w"
  proof (cases "12 \<le> image_len ?bs")
    case True
    then show ?thesis by (simp add: of_nat_diff)
  next
    case False
    then show ?thesis by (subst (1 2) crc_loop.simps) simp
  qed
  also have "\<dots> = Some (NOT (crc_chunks (cfg_crc32part cfg) (nx_block g) (image_body ?bs) 0xFFFFFFFF))"
    unfolding image_body_def using b assms(3) by (intro crc_loop_ok [OF assms(1,2) b(1)]) linarith
  finally show ?thesis .
qed

lemma validate_ok:
  assumes "nx_ok g w" "s < 3" "image_fits cfg g (slot_bytes w s)"
  shows "validate_image cfg s w = Some (image_valid cfg g (slot_bytes w s))"
proof (cases "validate_image_header cfg (header_of (slot_bytes w s))")
  case True
  then show ?thesis
    using crc_ok [OF assms(1,2), of cfg] assms(3)
    by (simp add: validate_image_def get_header_ok [OF assms(1,2)] image_valid_def image_fits_def)
next
  case False
  then show ?thesis by (simp add: validate_image_def get_header_ok [OF assms(1,2)] image_valid_def)
qed

section \<open>Copying an image\<close>

definition flip_magic :: "u32 \<Rightarrow> u32" where
  "flip_magic m = (if IS_INTERNAL_MAGIC m then NXBOOT_HEADER_MAGIC else NXBOOT_HEADER_MAGIC_INT)"

text \<open>The first \<open>n\<close> bytes of an image with another magic number, over the old contents of a slot.\<close>

definition copied :: "nat \<Rightarrow> u32 \<Rightarrow> u8 list \<Rightarrow> u8 list \<Rightarrow> u8 list" where
  "copied n m src old = relabel m (take n src @ drop n old)"

lemma relabel_append: "4 \<le> length xs \<Longrightarrow> relabel m xs @ ys = relabel m (xs @ ys)"
  by (simp add: relabel_def)

lemma copied_blocks:
  assumes "length src = z" "length old = z" "128 \<le> b" "b \<le> z" "k \<le> z"
  shows "overwrite b (take (k - b) (drop b src)) (overwrite 0 (relabel m (take b src)) old) = copied (max b k) m src old"
proof -
  let ?y = "take (k - b) (drop b src)"
  have x: "length (relabel m (take b src)) = b" using assms by simp
  have "take b src @ ?y = take (max b k) src" by (metis le_add_diff_inverse max_def nle_le take_add diff_is_0_eq' take_0 append_Nil2)
  then have "relabel m (take b src) @ ?y = relabel m (take (max b k) src)"
    using assms by (simp add: relabel_append)
  then have "overwrite b ?y (overwrite 0 (relabel m (take b src)) old) = overwrite 0 (relabel m (take (max b k) src)) old"
    using overwrite_overwrite [of 0 "relabel m (take b src)" old ?y] x assms by simp
  also have "\<dots> = copied (max b k) m src old"
    using assms by (simp add: overwrite_def copied_def relabel_append)
  finally show ?thesis .
qed

lemma copy_partition_start:
  assumes ok: "nx_ok g w" "src < 3" "dst < 3" and fits: "image_len (slot_bytes w src) \<le> nx_size g"
    and m: "m = (if upd then flip_magic (hdr_magic (header_of (slot_bytes w src))) OR of_nat (st_update st)
                 else flip_magic (hdr_magic (header_of (slot_bytes w src))))"
  shows "copy_partition src dst st upd w =
    copy_loop src dst (int (nx_block g)) (int (nx_block g)) (int (image_len (slot_bytes w src)) - int (nx_block g))
      (flash_change dst (overwrite 0 (relabel m (take (nx_block g) (slot_bytes w src)))) w)"
proof -
  let ?s = "slot_bytes w src" and ?b = "nx_block g" and ?x = "relabel m (take (nx_block g) (slot_bytes w src))"
  have b: "128 \<le> ?b" "0 + ?b \<le> nx_size g" "image_len ?s < 2 ^ 31"
    using nx_ok_block [OF ok(1)] fits by linarith+
  have len: "length ?x = ?b" using nx_ok_length [OF ok(1,2)] b by simp
  then have x: "0 + length ?x \<le> nx_size g" using b by simp
  obtain i1 i2 where i: "flash_partition_info src w = Some i1" "info_blocksize i1 = int ?b"
    "flash_partition_info dst w = Some i2" "info_blocksize i2 = int ?b" "info_size i2 = int (nx_size g)"
    using info_ok [OF ok(1,2)] info_ok [OF ok(1,3)] by blast
  have mal: "os_malloc w k" for k using ok(1) by (simp add: nx_ok_def)
  have blit: "array_blit (take ?b ?s) 0 (le32_bytes m) = Some ?x"
    using nx_ok_length [OF ok(1,2)] b by (simp add: array_blit_def relabel_def)
  have magic: "(if upd then (if IS_INTERNAL_MAGIC (hdr_magic (header_of ?s)) then NXBOOT_HEADER_MAGIC
      else NXBOOT_HEADER_MAGIC_INT) OR of_nat (st_update st)
    else if IS_INTERNAL_MAGIC (hdr_magic (header_of ?s)) then NXBOOT_HEADER_MAGIC else NXBOOT_HEADER_MAGIC_INT) = m"
    by (simp add: m flip_magic_def)
  show ?thesis
    unfolding copy_partition_def Let_def get_header_ok [OF ok(1,2)] i prod.case option.case max.idem
      image_len_word(1) [OF b(3)] magic
    using fits mal read_ok [OF ok(1,2) b(2)] write_ok [OF ok(1,3) x] blit by simp
qed

lemma copy_partition_ok:
  assumes ok: "nx_ok g w" "src < 3" "dst < 3" "src \<noteq> dst" and fits: "image_len (slot_bytes w src) \<le> nx_size g"
    and m: "m = (if upd then flip_magic (hdr_magic (header_of (slot_bytes w src))) OR of_nat (st_update st)
                 else flip_magic (hdr_magic (header_of (slot_bytes w src))))"
    and n: "n = max (nx_block g) (image_len (slot_bytes w src))"
  shows "\<exists>w'. copy_partition src dst st upd w = Some (OK, w') \<and> slot_run dst w w' \<and>
    (header_of (slot_bytes w' dst) = header_of (slot_bytes w dst) \<or>
     header_of (slot_bytes w' dst) = (header_of (slot_bytes w src))\<lparr>hdr_magic := m\<rparr>) \<and>
    (powered w' \<longrightarrow> slot_bytes w' dst = copied n m (slot_bytes w src) (slot_bytes w dst))"
proof -
  let ?s = "slot_bytes w src" and ?d = "slot_bytes w dst" and ?b = "nx_block g"
  define x where "x = relabel m (take ?b ?s)"
  let ?w = "flash_change dst (overwrite 0 x) w"
  have b: "0 < ?b" "128 \<le> ?b" "?b \<le> nx_size g" "?b + (image_len ?s - ?b) \<le> nx_size g"
    using nx_ok_block [OF ok(1)] fits by linarith+
  have len: "length ?s = nx_size g" "length ?d = nx_size g" "length x = ?b"
    using nx_ok_length [OF ok(1)] ok(2,3) b by (simp_all add: x_def)
  have run: "slot_run dst w ?w" using len b by (intro slot_run_change) simp
  have src: "slot_bytes ?w src = ?s" using slot_run_other [OF run ok(4)] by simp
  from copy_loop_ok [OF slot_run_ok [OF run ok(1,3)] ok(2,3,4) b(1,4), unfolded src]
  obtain w' where w': "copy_loop src dst (int ?b) (int ?b) (int (image_len ?s - ?b)) ?w = Some (OK, w')"
    "slot_run dst ?w w'" "take ?b (slot_bytes w' dst) = take ?b (slot_bytes ?w dst)"
    "powered w' \<longrightarrow> slot_bytes w' dst = overwrite ?b (take (image_len ?s - ?b) (drop ?b ?s)) (slot_bytes ?w dst)"
    by (elim exE conjE)
  have loop: "copy_loop src dst (int ?b) (int ?b) (int (image_len ?s) - int ?b) ?w = Some (OK, w')"
  proof (cases "?b \<le> image_len ?s")
    case True
    then show ?thesis using w'(1) by (simp add: of_nat_diff)
  next
    case False
    then have "int (image_len ?s) - int ?b \<le> 0" "int (image_len ?s - ?b) \<le> 0" by linarith+
    then show ?thesis using w'(1) by (simp only: copy_loop_done)
  qed
  have hdr: "header_of (slot_bytes w' dst) = header_of (slot_bytes ?w dst)"
    using w'(3) b(2) header_take [of ?b] by metis
  have "header_of (slot_bytes ?w dst) = header_of ?d \<or> header_of (slot_bytes ?w dst) = (header_of ?s)\<lparr>hdr_magic := m\<rparr>"
  proof (cases "powered w")
    case True
    have "take ?b (overwrite 0 x ?d) = x" using len by (simp add: overwrite_def)
    then have "header_of (overwrite 0 x ?d) = header_of x" using header_take [OF b(2)] by metis
    also have "\<dots> = (header_of ?s)\<lparr>hdr_magic := m\<rparr>"
      unfolding x_def using b len by (simp add: header_relabel header_take)
    finally show ?thesis using True by (simp add: change_bytes)
  qed (simp add: change_bytes)
  moreover have "slot_bytes w' dst = copied n m ?s ?d" if "powered w'"
  proof -
    have "powered w" using that w'(2) run unfolding slot_run_def by blast
    then show ?thesis
      using w'(4) that copied_blocks [OF len(1,2) b(2,3) fits] by (simp add: change_bytes x_def n)
  qed
  ultimately show ?thesis
    unfolding copy_partition_start [OF ok(1,2,3) fits m] x_def [symmetric] loop
    using slot_run_trans [OF run w'(2)] hdr by auto
qed

text \<open>A complete copy is as valid as its source.\<close>

lemma copied_header:
  assumes "128 \<le> n" "n \<le> length src" "length src = length old"
  shows "header_of (copied n m src old) = (header_of src)\<lparr>hdr_magic := m\<rparr>"
proof -
  have "header_of (take n src @ drop n old) = header_of src"
    using assms by (intro header_cong) (simp add: min_def)
  then show ?thesis using assms by (simp add: copied_def header_relabel)
qed

lemma copied_body:
  assumes "128 \<le> n" "image_len src \<le> n" "n \<le> length src" "length src = length old"
  shows "image_body (copied n m src old) = image_body src"
proof -
  have len: "image_len (copied n m src old) = image_len src"
    using copied_header [OF assms(1,3,4)] by (simp add: image_len_def)
  show ?thesis
    unfolding image_body_def len using assms by (simp add: copied_def drop_relabel drop_take min_def)
qed

lemma copied_valid:
  assumes n: "128 \<le> n" "image_len src \<le> n" "n \<le> length src" "length src = length old"
    and m: "m = NXBOOT_HEADER_MAGIC \<or> IS_INTERNAL_MAGIC m" and v: "image_valid cfg g src"
  shows "image_valid cfg g (copied n m src old)"
  using v m copied_header [OF n(1,3,4)] copied_body [OF n] by (simp add: image_valid_def validate_image_header_def)

end
