(* ===== verification/NxUpdate.thy ===== *)
theory NxUpdate
  imports NxImage
begin

text \<open>
  The bootloader is safe against loss of power. As long as one of the images it can choose
  is valid, an interrupted run of \<^verbatim>\<open>nxboot_perform_update\<close> leaves the flash in a state with the
  same property, and a run to the end leaves a valid image in the primary slot.
\<close>

section \<open>The state as a function of the contents of the slots\<close>

abbreviation (input) slot_header :: "nx_os \<Rightarrow> nat \<Rightarrow> nxboot_img_header" where
  "slot_header w s \<equiv> header_of (slot_bytes w s)"

abbreviation (input) slot_valid :: "nx_cfg \<Rightarrow> mtd_geometry \<Rightarrow> nx_os \<Rightarrow> nat \<Rightarrow> bool" where
  "slot_valid cfg g w s \<equiv> image_valid cfg g (slot_bytes w s)"

definition slots_fit :: "nx_cfg \<Rightarrow> mtd_geometry \<Rightarrow> nx_os \<Rightarrow> bool" where
  "slots_fit cfg g w \<longleftrightarrow> (\<forall>s < 3. image_fits cfg g (slot_bytes w s))"

definition update_slot :: "nx_os \<Rightarrow> nat" where
  "update_slot w = select_update (slot_header w 0) (slot_header w 1) (slot_header w 2)"

definition other_slot :: "nat \<Rightarrow> nat" where
  "other_slot u = (if u = 1 then 2 else 1)"

definition next_type ::
    "nx_cfg \<Rightarrow> bool \<Rightarrow> bool \<Rightarrow> bool \<Rightarrow> bool \<Rightarrow> nxboot_img_header \<Rightarrow> nxboot_img_header \<Rightarrow> nxboot_img_header
     \<Rightarrow> nxboot_update_type" where
  "next_type cfg primary_valid update_valid recovery_valid confirmed p u r =
     (if hdr_magic u = NXBOOT_HEADER_MAGIC \<and> update_valid \<and>
         (hdr_crc p \<noteq> hdr_crc u \<or> \<not> compare_versions cfg (hdr_img_version p) (hdr_img_version u) \<or> \<not> primary_valid)
      then NXBOOT_UPDATE_TYPE_UPDATE
      else if IS_INTERNAL_MAGIC (hdr_magic r) \<and> recovery_valid \<and>
         (IS_INTERNAL_MAGIC (hdr_magic p) \<and> \<not> confirmed \<or> \<not> primary_valid)
      then NXBOOT_UPDATE_TYPE_REVERT
      else NXBOOT_UPDATE_TYPE_NONE)"

definition boot_type :: "nx_cfg \<Rightarrow> mtd_geometry \<Rightarrow> nx_os \<Rightarrow> nxboot_update_type" where
  "boot_type cfg g w =
     (let u = update_slot w; r = other_slot u in
      next_type cfg (slot_valid cfg g w 0) (slot_valid cfg g w u) (slot_valid cfg g w r)
        (primary_confirmed (slot_header w 0) (slot_header w 1) (slot_header w 2))
        (slot_header w 0) (slot_header w u) (slot_header w r))"

definition boot_state :: "nx_cfg \<Rightarrow> mtd_geometry \<Rightarrow> nx_os \<Rightarrow> nxboot_state" where
  "boot_state cfg g w =
     (let u = update_slot w; r = other_slot u in
      \<lparr>st_update = u, st_recovery = r, st_recovery_valid = slot_valid cfg g w r,
       st_recovery_present = (hdr_crc (slot_header w 0) = hdr_crc (slot_header w r)),
       st_primary_confirmed = primary_confirmed (slot_header w 0) (slot_header w 1) (slot_header w 2),
       st_next_boot = boot_type cfg g w\<rparr>)"

lemma update_slot_cases: "update_slot w = 1 \<or> update_slot w = 2"
  by (simp add: update_slot_def select_update_def)

lemma other_slot_simps [simp]: "other_slot (Suc 0) = 2" "other_slot 2 = 1"
  by (simp_all add: other_slot_def)

lemma slots_fitD: "slots_fit cfg g w \<Longrightarrow> s < 3 \<Longrightarrow> image_fits cfg g (slot_bytes w s)"
  unfolding slots_fit_def by blast

lemma validate_slot:
  "nx_ok g w \<Longrightarrow> slots_fit cfg g w \<Longrightarrow> s < 3 \<Longrightarrow> validate_image cfg s w = Some (slot_valid cfg g w s)"
  by (rule validate_ok [OF _ _ slots_fitD])

lemma valid_len: "slots_fit cfg g w \<Longrightarrow> s < 3 \<Longrightarrow> slot_valid cfg g w s \<Longrightarrow> image_len (slot_bytes w s) \<le> nx_size g"
  using slots_fitD [of cfg g w s] unfolding image_fits_def image_valid_def by blast

lemma nx_ok_fds: "nx_ok g w \<Longrightarrow> nx_ok g (w\<lparr>os_fds := l\<rparr>)"
  unfolding nx_ok_def by simp

lemma slots_fit_fds: "slots_fit cfg g w \<Longrightarrow> slots_fit cfg g (w\<lparr>os_fds := l\<rparr>)"
  unfolding slots_fit_def by simp

lemma open_slots_ok:
  assumes "nx_ok g w"
  shows "open_slots w = (True, w\<lparr>os_fds := 2 # 1 # 0 # os_fds w\<rparr>)"
proof -
  have "pt_open (os_part w 0)" "pt_open (os_part w 1)" "pt_open (os_part w 2)"
    using nx_ok_part [OF assms, of 0] nx_ok_part [OF assms, of 1] nx_ok_part [OF assms, of 2]
    by (simp_all add: part_ok_def)
  then show ?thesis by (simp add: open_slots_def flash_partition_open_def)
qed

lemma close_slots_open: "close_slots (w\<lparr>os_fds := 2 # 1 # 0 # l\<rparr>) = w\<lparr>os_fds := l\<rparr>"
  by (simp add: close_slots_def flash_partition_close_def)

lemma update_type_ok:
  assumes "nx_ok g w" "slots_fit cfg g w" "u < 3" "uh = slot_header w u"
  shows "get_update_type cfg st 0 u r ph uh rh w =
    Some (next_type cfg (slot_valid cfg g w 0) (slot_valid cfg g w u) (st_recovery_valid st) (st_primary_confirmed st) ph uh rh)"
  unfolding get_update_type_def next_type_def
  using validate_slot [OF assms(1,2,3)] validate_slot [OF assms(1,2), of 0] assms(4) by auto

text \<open>\<^verbatim>\<open>nxboot_get_state\<close> computes this state, changes nothing and closes what it opened.\<close>

lemma get_state_ok:
  assumes ok: "nx_ok g w" "slots_fit cfg g w"
  shows "nxboot_get_state cfg w = Some (OK, boot_state cfg g w, w)"
proof -
  let ?w = "w\<lparr>os_fds := 2 # 1 # 0 # os_fds w\<rparr>"
  have ok': "nx_ok g ?w" "slots_fit cfg g ?w" using ok by (simp_all add: nx_ok_fds slots_fit_fds)
  have h: "get_image_header 0 ?w = slot_header w 0" "get_image_header 1 ?w = slot_header w 1"
    "get_image_header 2 ?w = slot_header w 2"
    using get_header_ok [OF ok'(1)] by simp_all
  have v: "validate_image cfg 1 ?w = Some (slot_valid cfg g w 1)" "validate_image cfg 2 ?w = Some (slot_valid cfg g w 2)"
    using validate_slot [OF ok'] by simp_all
  have close: "close_slots ?w = w" unfolding close_slots_open by simp
  have u: "select_update (slot_header w 0) (slot_header w 1) (slot_header w 2) = update_slot w"
    by (simp add: update_slot_def)
  from update_slot_cases show ?thesis
  proof
    assume us: "update_slot w = 1"
    show ?thesis
      unfolding nxboot_get_state_def open_slots_ok [OF ok(1)] Let_def prod.case h u
      using us v close update_type_ok [OF ok', of 1]
      by (simp add: boot_state_def boot_type_def state_zero_def)
  next
    assume us: "update_slot w = 2"
    show ?thesis
      unfolding nxboot_get_state_def open_slots_ok [OF ok(1)] Let_def prod.case h u
      using us v close update_type_ok [OF ok', of 2]
      by (simp add: boot_state_def boot_type_def state_zero_def)
  qed
qed

section \<open>The invariant\<close>

text \<open>
  One of the images the bootloader can choose is valid: the one in the primary slot, a new
  one in the update slot, or the recovery image. The two other slots never hold internal
  images with the same CRC, which would make the choice of the recovery slot ambiguous.
\<close>

definition bootable :: "nx_cfg \<Rightarrow> mtd_geometry \<Rightarrow> nx_os \<Rightarrow> bool" where
  "bootable cfg g w \<longleftrightarrow>
     slot_valid cfg g w 0 \<or>
     hdr_magic (slot_header w (update_slot w)) = NXBOOT_HEADER_MAGIC \<and> slot_valid cfg g w (update_slot w) \<or>
     IS_INTERNAL_MAGIC (hdr_magic (slot_header w (other_slot (update_slot w)))) \<and>
       slot_valid cfg g w (other_slot (update_slot w))"

definition slots_distinct :: "nx_os \<Rightarrow> bool" where
  "slots_distinct w \<longleftrightarrow> \<not> (IS_INTERNAL_MAGIC (hdr_magic (slot_header w 1)) \<and>
     IS_INTERNAL_MAGIC (hdr_magic (slot_header w 2)) \<and> hdr_crc (slot_header w 1) = hdr_crc (slot_header w 2))"

definition boot_inv :: "nx_cfg \<Rightarrow> mtd_geometry \<Rightarrow> nx_os \<Rightarrow> bool" where
  "boot_inv cfg g w \<longleftrightarrow> nx_ok g w \<and> slots_fit cfg g w \<and> slots_distinct w \<and> bootable cfg g w"

lemma magic_simps [simp]:
  "\<not> IS_INTERNAL_MAGIC NXBOOT_HEADER_MAGIC" "IS_INTERNAL_MAGIC NXBOOT_HEADER_MAGIC_INT"
  "NXBOOT_HEADER_MAGIC_INT \<noteq> NXBOOT_HEADER_MAGIC"
  "IS_INTERNAL_MAGIC (NXBOOT_HEADER_MAGIC_INT OR 1)" "IS_INTERNAL_MAGIC (NXBOOT_HEADER_MAGIC_INT OR 2)"
  "\<not> IS_INTERNAL_MAGIC 0xFFFFFFFF" "0xFFFFFFFF \<noteq> NXBOOT_HEADER_MAGIC"
  by (simp_all add: IS_INTERNAL_MAGIC_def NXBOOT_HEADER_MAGIC_def NXBOOT_HEADER_MAGIC_INT_def
      NXBOOT_HEADER_MAGIC_INT_MASK_def)

lemma flip_magic_simps [simp]:
  "IS_INTERNAL_MAGIC m \<Longrightarrow> flip_magic m = NXBOOT_HEADER_MAGIC"
  "flip_magic NXBOOT_HEADER_MAGIC = NXBOOT_HEADER_MAGIC_INT"
  by (simp_all add: flip_magic_def)

lemma flip_magic_ok: "flip_magic m = NXBOOT_HEADER_MAGIC \<or> IS_INTERNAL_MAGIC (flip_magic m)"
  by (simp add: flip_magic_def)

text \<open>A slot with the magic number of a new image decides which one is the update slot.\<close>

lemma select_new:
  "hdr_magic t = NXBOOT_HEADER_MAGIC \<Longrightarrow> select_update p s t = 2"
  "hdr_magic t \<noteq> NXBOOT_HEADER_MAGIC \<Longrightarrow> hdr_magic s = NXBOOT_HEADER_MAGIC \<Longrightarrow> select_update p s t = 1"
  by (simp_all add: select_update_def)

text \<open>Copying the recovery image to the primary slot does not change the choice.\<close>

lemma select_recovery:
  assumes "\<not> (IS_INTERNAL_MAGIC (hdr_magic s) \<and> IS_INTERNAL_MAGIC (hdr_magic t) \<and> hdr_crc s = hdr_crc t)"
    and "r = (if select_update p s t = 1 then t else s)" "hdr_magic p' = NXBOOT_HEADER_MAGIC" "hdr_crc p' = hdr_crc r"
  shows "select_update p' s t = select_update p s t"
  using assms by (auto simp: select_update_def split: if_splits)

lemma fits_header: "header_of bs = header_of bs' \<Longrightarrow> image_fits cfg g bs' \<Longrightarrow> image_fits cfg g bs"
  by (simp add: image_fits_def image_len_def)

lemma fits_relabelled:
  "header_of bs = (header_of src)\<lparr>hdr_magic := m\<rparr> \<Longrightarrow> image_len src \<le> nx_size g \<Longrightarrow> image_fits cfg g bs"
  by (simp add: image_fits_def image_len_def)

lemma slots_fit_run:
  assumes "slots_fit cfg g w" "slot_run d w w'" "image_fits cfg g (slot_bytes w' d)"
  shows "slots_fit cfg g w'"
  using assms slot_run_other [OF assms(2)] unfolding slots_fit_def by metis

lemma slot_run_powered: "slot_run d w w' \<Longrightarrow> powered w' \<Longrightarrow> powered w"
  unfolding slot_run_def by blast

lemma slot_run_None: "slot_run d w w' \<Longrightarrow> os_power w = None \<Longrightarrow> os_power w' = None"
  unfolding slot_run_def by blast

section \<open>Copying a valid image\<close>

text \<open>
  What the steps of an update need to know of copying a valid image: the contents of the
  other slots stay, the header is the old or the new one, and if there is power left at the
  end the copy is valid.
\<close>

lemma copy_valid:
  assumes ok: "nx_ok g w" "slots_fit cfg g w" "src < 3" "dst < 3" "src \<noteq> dst" "slot_valid cfg g w src"
    and m: "m = (if upd then flip_magic (hdr_magic (slot_header w src)) OR of_nat (st_update st)
                 else flip_magic (hdr_magic (slot_header w src)))"
    and mm: "m = NXBOOT_HEADER_MAGIC \<or> IS_INTERNAL_MAGIC m"
  shows "\<exists>w'. copy_partition src dst st upd w = Some (OK, w') \<and> slot_run dst w w' \<and> nx_ok g w' \<and> slots_fit cfg g w' \<and>
    (slot_header w' dst = slot_header w dst \<or> slot_header w' dst = (slot_header w src)\<lparr>hdr_magic := m\<rparr>) \<and>
    (powered w' \<longrightarrow> slot_valid cfg g w' dst \<and> slot_header w' dst = (slot_header w src)\<lparr>hdr_magic := m\<rparr>)"
proof -
  note len = valid_len [OF ok(2,3,6)]
  from copy_partition_ok [OF ok(1,3,4,5) len m refl] obtain w' where
    w': "copy_partition src dst st upd w = Some (OK, w')" "slot_run dst w w'"
      "slot_header w' dst = slot_header w dst \<or> slot_header w' dst = (slot_header w src)\<lparr>hdr_magic := m\<rparr>"
      "powered w' \<longrightarrow> slot_bytes w' dst =
        copied (max (nx_block g) (image_len (slot_bytes w src))) m (slot_bytes w src) (slot_bytes w dst)"
    by (elim exE conjE)
  have l: "length (slot_bytes w src) = nx_size g" "length (slot_bytes w src) = length (slot_bytes w dst)"
    using nx_ok_length [OF ok(1)] ok(3,4) by simp_all
  have n: "128 \<le> max (nx_block g) (image_len (slot_bytes w src))"
    "image_len (slot_bytes w src) \<le> max (nx_block g) (image_len (slot_bytes w src))"
    "max (nx_block g) (image_len (slot_bytes w src)) \<le> length (slot_bytes w src)"
    using nx_ok_block [OF ok(1)] len l by (simp_all add: le_max_iff_disj)
  have "image_fits cfg g (slot_bytes w' dst)"
    using w'(3) fits_header [OF _ slots_fitD [OF ok(2,4)]] fits_relabelled [OF _ len] by blast
  then have "slots_fit cfg g w'" by (rule slots_fit_run [OF ok(2) w'(2)])
  moreover have "slot_valid cfg g w' dst \<and> slot_header w' dst = (slot_header w src)\<lparr>hdr_magic := m\<rparr>" if "powered w'"
    using w'(4) that copied_valid [OF n l(2) mm ok(6)] copied_header [OF n(1,3) l(2)] by simp
  ultimately show ?thesis using w'(1,2,3) slot_run_ok [OF w'(2) ok(1,4)] by blast
qed

section \<open>The steps of an update\<close>

definition safe_run :: "nx_cfg \<Rightarrow> mtd_geometry \<Rightarrow> nx_os \<Rightarrow> nx_os \<Rightarrow> bool" where
  "safe_run cfg g w w' \<longleftrightarrow>
     boot_inv cfg g w' \<and> os_fds w' = os_fds w \<and> (os_power w = None \<longrightarrow> os_power w' = None \<and> slot_valid cfg g w' 0)"

lemma erase_header:
  assumes "nx_ok g w" "u < 3" "powered w"
  shows "slot_header (snd (flash_partition_erase_first_sector u w)) u = header_of (replicate 128 0xFF)"
proof -
  let ?e = "unat (geo_erasesize g)" and ?bs = "slot_bytes w u"
  have e: "128 \<le> ?e" "min ?e (length ?bs) = ?e"
    using nx_ok_geo [OF assms(1)] nx_ok_length [OF assms(1,2)] unfolding nx_geo_def by simp_all
  have "slot_bytes (snd (flash_partition_erase_first_sector u w)) u = replicate ?e 0xFF @ drop ?e ?bs"
    unfolding flash_partition_erase_first_sector_def nx_ok_geometry [OF assms(1,2)]
    using nx_ok_part [OF assms(1,2)] e assms(3) by (simp add: part_ok_def change_bytes)
  then show ?thesis using e(1) by (simp add: header_cong)
qed

lemma erase_run:
  assumes "nx_ok g w" "u < 3"
  shows "slot_run u w (snd (flash_partition_erase_first_sector u w))"
proof -
  let ?e = "unat (geo_erasesize g)"
  have "length (replicate (min ?e (length (slot_bytes w u))) (0xFF :: u8) @ drop ?e (slot_bytes w u)) = length (slot_bytes w u)"
    by simp
  then show ?thesis
    unfolding flash_partition_erase_first_sector_def nx_ok_geometry [OF assms]
    using nx_ok_part [OF assms] slot_run_change by (simp add: part_ok_def)
qed

lemma erased_magic: "hdr_magic (header_of (replicate 128 0xFF)) = 0xFFFFFFFF"
  by (simp add: header_of_def le32_def le16_def)

text \<open>The last step: the image of the update slot goes to the primary slot, then the update slot is marked.\<close>

lemma install_update:
  assumes ok: "nx_ok g w" "slots_fit cfg g w" and u: "u = 1 \<or> u = 2" "st_update st = u"
    and new: "hdr_magic (slot_header w u) = NXBOOT_HEADER_MAGIC" "slot_valid cfg g w u"
    and sel: "hdr_magic (slot_header w (update_slot w)) = NXBOOT_HEADER_MAGIC" "slot_valid cfg g w (update_slot w)"
  shows "\<exists>w'. copy_partition u 0 st True w = Some (OK, w') \<and>
    safe_run cfg g w (snd (flash_partition_erase_first_sector u w'))"
proof -
  let ?m = "flip_magic (hdr_magic (slot_header w u)) OR of_nat (st_update st)"
  have u3: "u < 3" "(0::nat) < 3" "u \<noteq> 0" using u by auto
  have "?m = NXBOOT_HEADER_MAGIC \<or> IS_INTERNAL_MAGIC ?m" using u new by auto
  from copy_valid [where upd = True and st = st and m = ?m, OF ok u3 new(2) _ this] obtain w' where
    w': "copy_partition u 0 st True w = Some (OK, w')" "slot_run 0 w w'" "nx_ok g w'" "slots_fit cfg g w'"
      "powered w' \<longrightarrow> slot_valid cfg g w' 0" by auto
  have same: "slot_bytes w' 1 = slot_bytes w 1" "slot_bytes w' 2 = slot_bytes w 2"
    using slot_run_other [OF w'(2)] by simp_all
  let ?w = "snd (flash_partition_erase_first_sector u w')"
  note run = erase_run [OF w'(3) u3(1)]
  have distinct: "slots_distinct w'" using new(1) u same by (auto simp: slots_distinct_def)
  show ?thesis
  proof (cases "powered w'")
    case True
    have h: "hdr_magic (slot_header ?w u) = 0xFFFFFFFF"
      using erase_header [OF w'(3) u3(1) True] erased_magic by simp
    then have "image_fits cfg g (slot_bytes ?w u)" by (simp add: image_fits_def validate_image_header_def)
    then have "slots_fit cfg g ?w" by (rule slots_fit_run [OF w'(4) run])
    moreover have "slots_distinct ?w" using h u by (auto simp: slots_distinct_def)
    moreover have "slot_valid cfg g ?w 0" using w'(5) True slot_run_other [OF run, of 0] u3 by simp
    ultimately show ?thesis
      using w'(1) slot_run_ok [OF run w'(3) u3(1)] slot_run_fds [OF run] slot_run_fds [OF w'(2)]
        slot_run_None [OF run] slot_run_None [OF w'(2)]
      by (simp add: safe_run_def boot_inv_def bootable_def)
  next
    case False
    then have w: "?w = w'" using run unfolding slot_run_def by blast
    have "update_slot w' = update_slot w"
      using sel(1) update_slot_cases [of w] same by (auto simp: update_slot_def select_update_def)
    then have "bootable cfg g w'" using sel same update_slot_cases [of w] by (auto simp: bootable_def)
    moreover have "os_power w \<noteq> None" using False slot_run_None [OF w'(2)] by (auto simp: powered_def)
    ultimately show ?thesis
      using w w'(1,3,4) distinct slot_run_fds [OF w'(2)] by (auto simp: safe_run_def boot_inv_def)
  qed
qed

lemma safe_run_trans: "slot_run d w w1 \<Longrightarrow> safe_run cfg g w1 w2 \<Longrightarrow> safe_run cfg g w w2"
  using slot_run_None [of d w w1] slot_run_fds [of d w w1] by (simp add: safe_run_def)

lemma install_branch:
  assumes "nx_ok g w" "slots_fit cfg g w" "u = 1 \<or> u = 2" "st_update st = u"
    and "hdr_magic (slot_header w u) = NXBOOT_HEADER_MAGIC" "slot_valid cfg g w u"
    and "hdr_magic (slot_header w (update_slot w)) = NXBOOT_HEADER_MAGIC" "slot_valid cfg g w (update_slot w)"
  shows "\<exists>w'. do {
      update_valid \<leftarrow> validate_image cfg u w;
      if update_valid then do {
        (ret, w) \<leftarrow> copy_partition u 0 st True w;
        Some (if 0 \<le> ret then snd (flash_partition_erase_first_sector u w) else w)
      } else Some w
    } = Some w' \<and> safe_run cfg g w w'"
proof -
  have "validate_image cfg u w = Some True" using validate_slot [OF assms(1,2), of u] assms(3,6) by auto
  then show ?thesis using install_update [OF assms] by auto
qed

lemma update_branch_safe:
  assumes inv: "boot_inv cfg g w" and u: "u = update_slot w" "r = other_slot u" "st_update st = u"
    and new: "hdr_magic (slot_header w u) = NXBOOT_HEADER_MAGIC" "slot_valid cfg g w u"
  shows "\<exists>w'. update_branch cfg st check_only 0 u r w = Some w' \<and> safe_run cfg g w w'"
proof -
  have ok: "nx_ok g w" "slots_fit cfg g w" using inv by (simp_all add: boot_inv_def)
  have u12: "u = 1 \<or> u = 2" using update_slot_cases u by simp
  have r: "r < 3" "(0::nat) < 3" "0 \<noteq> r" "r \<noteq> u" "r = 1 \<or> r = 2" using u12 u(2) by auto
  note v0 = validate_slot [OF ok r(2)]
  note direct = install_branch [OF ok u12 u(3) new new [unfolded u(1)]]
  let ?make = "(\<not> st_recovery_present st \<or> \<not> st_recovery_valid st) \<and> st_primary_confirmed st \<and> slot_valid cfg g w 0"
  consider "slot_valid cfg g w 0" "check_only" | "\<not> (slot_valid cfg g w 0 \<and> check_only)" "\<not> ?make"
    | "\<not> (slot_valid cfg g w 0 \<and> check_only)" "?make" by blast
  then show ?thesis
  proof cases
    case 1
    then have "update_branch cfg st check_only 0 u r w = Some w" by (simp add: update_branch_def v0)
    then show ?thesis using inv 1 by (simp add: safe_run_def)
  next
    case 2
    then have "update_branch cfg st check_only 0 u r w = do {
        update_valid \<leftarrow> validate_image cfg u w;
        if update_valid then do {
          (ret, w) \<leftarrow> copy_partition u 0 st True w;
          Some (if 0 \<le> ret then snd (flash_partition_erase_first_sector u w) else w)
        } else Some w
      }" unfolding update_branch_def v0 by auto
    then show ?thesis using direct by simp
  next
    case 3
    then have v: "slot_valid cfg g w 0" by blast
    from copy_valid [where upd = False and st = st, OF ok r(2,1,3) v _ flip_magic_ok] obtain w1 where
      w1: "copy_partition 0 r st False w = Some (OK, w1)" "slot_run r w w1" "nx_ok g w1" "slots_fit cfg g w1" by auto
    have same: "slot_bytes w1 0 = slot_bytes w 0" "slot_bytes w1 u = slot_bytes w u"
      using slot_run_other [OF w1(2)] r by simp_all
    have new1: "hdr_magic (slot_header w1 u) = NXBOOT_HEADER_MAGIC" "slot_valid cfg g w1 u" using new same by simp_all
    have inv1: "boot_inv cfg g w1"
      using w1(3,4) new1(1) u12 v same by (auto simp: boot_inv_def bootable_def slots_distinct_def)
    show ?thesis
    proof (cases "slot_valid cfg g w1 r")
      case False
      then have "update_branch cfg st check_only 0 u r w = Some w1"
        using 3 unfolding update_branch_def v0 by (simp add: w1(1) validate_slot [OF w1(3,4) r(1)])
      then show ?thesis
        using inv1 v same slot_run_fds [OF w1(2)] slot_run_None [OF w1(2)] by (simp add: safe_run_def)
    next
      case True
      have "update_slot w1 = u \<or> update_slot w1 = r \<and> hdr_magic (slot_header w1 r) = NXBOOT_HEADER_MAGIC"
        using new1(1) u12 r by (auto simp: update_slot_def select_update_def)
      then have sel: "hdr_magic (slot_header w1 (update_slot w1)) = NXBOOT_HEADER_MAGIC" "slot_valid cfg g w1 (update_slot w1)"
        using new1 True by auto
      have "update_branch cfg st check_only 0 u r w = do {
          update_valid \<leftarrow> validate_image cfg u w1;
          if update_valid then do {
            (ret, w) \<leftarrow> copy_partition u 0 st True w1;
            Some (if 0 \<le> ret then snd (flash_partition_erase_first_sector u w) else w)
          } else Some w1
        }" using 3 True unfolding update_branch_def v0 by (simp add: w1(1) validate_slot [OF w1(3,4) r(1)])
      then show ?thesis
        using install_branch [OF w1(3,4) u12 u(3) new1 sel] safe_run_trans [OF w1(2)] by auto
    qed
  qed
qed

lemma revert_safe:
  assumes inv: "boot_inv cfg g w" and r: "r = other_slot (update_slot w)"
    and rec: "IS_INTERNAL_MAGIC (hdr_magic (slot_header w r))" "slot_valid cfg g w r"
  shows "\<exists>w'. copy_partition r 0 st False w = Some (OK, w') \<and> safe_run cfg g w w'"
proof -
  have ok: "nx_ok g w" "slots_fit cfg g w" "slots_distinct w" using inv by (simp_all add: boot_inv_def)
  have r3: "r < 3" "(0::nat) < 3" "r \<noteq> 0" using update_slot_cases [of w] r by auto
  from copy_valid [where upd = False and st = st, OF ok(1,2) r3 rec(2) _ flip_magic_ok [of "hdr_magic (slot_header w r)"]]
    rec(1) obtain w' where
    w': "copy_partition r 0 st False w = Some (OK, w')" "slot_run 0 w w'" "nx_ok g w'" "slots_fit cfg g w'"
      "slot_header w' 0 = slot_header w 0 \<or>
       slot_header w' 0 = (slot_header w r)\<lparr>hdr_magic := NXBOOT_HEADER_MAGIC\<rparr>"
      "powered w' \<longrightarrow> slot_valid cfg g w' 0" by auto
  have same: "slot_bytes w' 1 = slot_bytes w 1" "slot_bytes w' 2 = slot_bytes w 2"
    using slot_run_other [OF w'(2)] by simp_all
  have "update_slot w' = update_slot w"
    using w'(5)
  proof
    assume "slot_header w' 0 = (slot_header w r)\<lparr>hdr_magic := NXBOOT_HEADER_MAGIC\<rparr>"
    then show ?thesis
      unfolding update_slot_def same using ok(3) r
      by (intro select_recovery) (auto simp: slots_distinct_def update_slot_def other_slot_def)
  qed (simp only: update_slot_def same)
  then have "bootable cfg g w'"
    using rec same r update_slot_cases [of w] by (auto simp: bootable_def)
  moreover have "slots_distinct w'" using ok(3) same by (simp add: slots_distinct_def)
  ultimately have "safe_run cfg g w w'"
    using w'(3,4,6) slot_run_fds [OF w'(2)] slot_run_None [OF w'(2)] by (auto simp: safe_run_def boot_inv_def powered_def)
  then show ?thesis using w'(1) by blast
qed

section \<open>A run of the bootloader\<close>

lemma boot_inv_fds: "boot_inv cfg g w \<Longrightarrow> boot_inv cfg g (w\<lparr>os_fds := l\<rparr>)"
  by (simp add: boot_inv_def nx_ok_fds slots_fit_fds slots_distinct_def bootable_def update_slot_def)

lemma safe_run_fds:
  "safe_run cfg g (w\<lparr>os_fds := 2 # 1 # 0 # os_fds w\<rparr>) w' \<Longrightarrow> safe_run cfg g w (close_slots w')"
  using boot_inv_fds [of cfg g w']
  by (simp add: safe_run_def close_slots_def flash_partition_close_def)

lemma update_slot_fds [simp]: "update_slot (w\<lparr>os_fds := l\<rparr>) = update_slot w"
  by (simp add: update_slot_def)

lemma boot_type_cases:
  "boot_type cfg g w = NXBOOT_UPDATE_TYPE_UPDATE \<Longrightarrow>
     hdr_magic (slot_header w (update_slot w)) = NXBOOT_HEADER_MAGIC \<and> slot_valid cfg g w (update_slot w)"
  "boot_type cfg g w = NXBOOT_UPDATE_TYPE_REVERT \<Longrightarrow>
     IS_INTERNAL_MAGIC (hdr_magic (slot_header w (other_slot (update_slot w)))) \<and>
     slot_valid cfg g w (other_slot (update_slot w))"
  "bootable cfg g w \<Longrightarrow> boot_type cfg g w = NXBOOT_UPDATE_TYPE_NONE \<Longrightarrow> slot_valid cfg g w 0"
  by (auto simp: boot_type_def next_type_def bootable_def Let_def split: if_splits)

lemma perform_update_safe:
  assumes inv: "boot_inv cfg g w" and ty: "boot_type cfg g w \<noteq> NXBOOT_UPDATE_TYPE_NONE"
  shows "\<exists>w'. perform_update cfg (boot_state cfg g w) check_only w = Some (OK, w') \<and> safe_run cfg g w w'"
proof -
  let ?st = "boot_state cfg g w" and ?u = "update_slot w" and ?r = "other_slot (update_slot w)"
  let ?w = "w\<lparr>os_fds := 2 # 1 # 0 # os_fds w\<rparr>"
  have ok: "nx_ok g w" and inv': "boot_inv cfg g ?w" using inv boot_inv_fds [OF inv] unfolding boot_inv_def by blast+
  then have ok': "nx_ok g ?w" "slots_fit cfg g ?w" unfolding boot_inv_def by blast+
  have v0: "validate_image cfg 0 ?w = Some (slot_valid cfg g w 0)" using validate_slot [OF ok', of 0] by simp
  have slots: "(if st_update ?st = NXBOOT_SECONDARY_SLOT_NUM then (NXBOOT_SECONDARY_SLOT_NUM, NXBOOT_TERTIARY_SLOT_NUM)
      else (NXBOOT_TERTIARY_SLOT_NUM, NXBOOT_SECONDARY_SLOT_NUM)) = (?u, ?r)"
    using update_slot_cases [of w] by (auto simp: boot_state_def other_slot_def Let_def)
  have st: "st_update ?st = ?u" "st_next_boot ?st = boot_type cfg g w" "st_recovery_valid ?st = slot_valid cfg g w ?r"
    by (simp_all add: boot_state_def Let_def)
  define revert where "revert = (boot_type cfg g w = NXBOOT_UPDATE_TYPE_REVERT \<and> (\<not> check_only \<or> \<not> slot_valid cfg g w 0))"
  have dec: "(if boot_type cfg g w = NXBOOT_UPDATE_TYPE_REVERT
      then if \<not> check_only then Some True else map_option Not (validate_image cfg 0 ?w) else Some False) = Some revert"
    using v0 by (simp add: revert_def)
  have "\<exists>w'. (if revert then
            if slot_valid cfg g w ?r then map_option snd (copy_partition ?r 0 ?st False ?w) else Some ?w
          else update_branch cfg ?st check_only 0 ?u ?r ?w) = Some w' \<and> safe_run cfg g ?w w'"
  proof (cases revert)
    case True
    then have "IS_INTERNAL_MAGIC (hdr_magic (slot_header w ?r))" "slot_valid cfg g w ?r"
      using boot_type_cases(2) [of cfg g w] by (simp_all add: revert_def)
    then show ?thesis using revert_safe [OF inv', of ?r ?st] True by auto
  next
    case False
    show ?thesis
    proof (cases "boot_type cfg g w = NXBOOT_UPDATE_TYPE_UPDATE")
      case True
      then show ?thesis
        using update_branch_safe [OF inv', of ?u ?r ?st check_only] boot_type_cases(1) [of cfg g w] False st(1) by auto
    next
      case ty2: False
      then have "check_only" "slot_valid cfg g w 0"
        using ty False by (cases "boot_type cfg g w"; auto simp: revert_def)+
      then have "update_branch cfg ?st check_only 0 ?u ?r ?w = Some ?w"
        using v0 by (simp add: update_branch_def)
      then show ?thesis using False inv' \<open>slot_valid cfg g w 0\<close> by (simp add: safe_run_def)
    qed
  qed
  then obtain w' where w': "(if revert then
            if slot_valid cfg g w ?r then map_option snd (copy_partition ?r 0 ?st False ?w) else Some ?w
          else update_branch cfg ?st check_only 0 ?u ?r ?w) = Some w'" "safe_run cfg g ?w w'" by (elim exE conjE)
  have "perform_update cfg ?st check_only w = Some (OK, close_slots w')"
    unfolding perform_update_def open_slots_ok [OF ok] Let_def slots prod.case st(2,3) dec
    using w'(1) by simp
  then show ?thesis using safe_run_fds [OF w'(2)] by blast
qed

lemma perform_boot:
  assumes ok: "nx_ok g w" "slots_fit cfg g w" "nx_ok g w1"
    and w1: "(if boot_type cfg g w \<noteq> NXBOOT_UPDATE_TYPE_NONE then perform_update cfg (boot_state cfg g w) check_only w
      else Some (OK, w)) = Some (OK, w1)"
  shows "nxboot_perform_update cfg check_only w
    = Some (if \<not> validate_image_header cfg (slot_header w1 0) then ERROR else OK, w1)"
proof -
  let ?o = "w1\<lparr>os_fds := 0 # os_fds w1\<rparr>"
  have o: "flash_partition_open 0 w1 = (Some 0, ?o)" "flash_partition_close 0 ?o = w1"
    using nx_ok_part [OF ok(3), of 0] by (simp_all add: flash_partition_open_def flash_partition_close_def part_ok_def)
  have h: "get_image_header 0 ?o = slot_header w1 0" using get_header_ok [OF nx_ok_fds [OF ok(3)], of 0] by simp
  have st: "st_next_boot (boot_state cfg g w) = boot_type cfg g w" by (simp add: boot_state_def Let_def)
  show ?thesis
    unfolding nxboot_perform_update_def get_state_ok [OF ok(1,2)] Option.bind.bind_lunit prod.case st
    using w1 o h by simp
qed

lemma perform_safe:
  assumes inv: "boot_inv cfg g w"
  shows "\<exists>ret w'. nxboot_perform_update cfg check_only w = Some (ret, w') \<and> safe_run cfg g w w' \<and>
    (os_power w = None \<longrightarrow> ret = OK)"
proof -
  have ok: "nx_ok g w" "slots_fit cfg g w" using inv by (simp_all add: boot_inv_def)
  have "\<exists>w1. (if boot_type cfg g w \<noteq> NXBOOT_UPDATE_TYPE_NONE then perform_update cfg (boot_state cfg g w) check_only w
      else Some (OK, w)) = Some (OK, w1) \<and> safe_run cfg g w w1"
    using perform_update_safe [OF inv, of check_only] boot_type_cases(3) [of cfg g w] inv
    by (cases "boot_type cfg g w = NXBOOT_UPDATE_TYPE_NONE") (auto simp: safe_run_def boot_inv_def)
  then obtain w1 where w1: "(if boot_type cfg g w \<noteq> NXBOOT_UPDATE_TYPE_NONE
      then perform_update cfg (boot_state cfg g w) check_only w else Some (OK, w)) = Some (OK, w1)"
    "safe_run cfg g w w1" by (elim exE conjE)
  have "nx_ok g w1" using w1(2) by (simp add: safe_run_def boot_inv_def)
  note boot = perform_boot [OF ok this w1(1)]
  have "validate_image_header cfg (slot_header w1 0)" if "os_power w = None"
    using that w1(2) by (simp add: safe_run_def image_valid_def)
  with boot show ?thesis using w1(2) by auto
qed

section \<open>Interrupted runs\<close>

text \<open>
  A sequence of boots, each of which loses power after any number of changes of the flash
  (or never).
\<close>

inductive nx_boots :: "nx_cfg \<Rightarrow> nx_os \<Rightarrow> nx_os \<Rightarrow> bool" for cfg :: nx_cfg where
  none: "nx_boots cfg w w"
| boot: "nx_boots cfg w w2" if "nx_boots cfg w w1"
    and "nxboot_perform_update cfg check_only (w1\<lparr>os_power := p\<rparr>) = Some (ret, w2)"

lemma boot_inv_power: "boot_inv cfg g w \<Longrightarrow> boot_inv cfg g (w\<lparr>os_power := p\<rparr>)"
  by (simp add: boot_inv_def nx_ok_def slots_fit_def slots_distinct_def bootable_def update_slot_def)

lemma boots_inv: "nx_boots cfg w w' \<Longrightarrow> boot_inv cfg g w \<Longrightarrow> boot_inv cfg g w'"
proof (induction rule: nx_boots.induct)
  case (boot w w1 check_only p ret w2)
  then show ?case
    using perform_safe [OF boot_inv_power [of cfg g w1 p], of check_only] by (auto simp: safe_run_def)
qed

end
