(* ===== verification/NxLife.thy ===== *)
theory NxLife
  imports NxUpdate
begin

text \<open>
  The life of an image: a new image is installed, and the next boot reverts it unless the
  application confirms it. Then the properties of the bootloader.
\<close>

section \<open>Installing a new image\<close>

text \<open>
  A confirmed image runs from the primary slot, the update slot holds a new one, and no
  recovery image has been made yet.
\<close>

definition update_ready :: "nx_cfg \<Rightarrow> mtd_geometry \<Rightarrow> nx_os \<Rightarrow> bool" where
  "update_ready cfg g w \<longleftrightarrow> nx_ok g w \<and> slots_fit cfg g w \<and> os_power w = None \<and>
     slot_valid cfg g w 0 \<and> hdr_magic (slot_header w 0) = NXBOOT_HEADER_MAGIC \<and>
     slot_valid cfg g w (update_slot w) \<and> hdr_magic (slot_header w (update_slot w)) = NXBOOT_HEADER_MAGIC \<and>
     hdr_crc (slot_header w 0) \<noteq> hdr_crc (slot_header w (update_slot w)) \<and>
     hdr_crc (slot_header w 0) \<noteq> hdr_crc (slot_header w (other_slot (update_slot w)))"

definition copy_len :: "mtd_geometry \<Rightarrow> u8 list \<Rightarrow> nat" where
  "copy_len g bs = max (nx_block g) (image_len bs)"

definition erase_sector :: "mtd_geometry \<Rightarrow> u8 list \<Rightarrow> u8 list" where
  "erase_sector g bs = replicate (unat (geo_erasesize g)) 0xFF @ drop (unat (geo_erasesize g)) bs"

lemma erase_bytes:
  assumes "nx_ok g w" "u < 3" "powered w"
  shows "slot_bytes (snd (flash_partition_erase_first_sector u w)) u = erase_sector g (slot_bytes w u)"
proof -
  have "min (unat (geo_erasesize g)) (length (slot_bytes w u)) = unat (geo_erasesize g)"
    using nx_ok_geo [OF assms(1)] nx_ok_length [OF assms(1,2)] unfolding nx_geo_def by simp
  then show ?thesis
    unfolding flash_partition_erase_first_sector_def nx_ok_geometry [OF assms(1,2)] erase_sector_def
    using nx_ok_part [OF assms(1,2)] assms(3) by (simp add: part_ok_def change_bytes)
qed

lemma copy_full:
  assumes "nx_ok g w" "slots_fit cfg g w" "src < 3" "dst < 3" "src \<noteq> dst" "slot_valid cfg g w src" "os_power w = None"
    and m: "m = (if upd then flip_magic (hdr_magic (slot_header w src)) OR of_nat (st_update st)
                 else flip_magic (hdr_magic (slot_header w src)))"
  shows "\<exists>w'. copy_partition src dst st upd w = Some (OK, w') \<and> slot_run dst w w' \<and> nx_ok g w' \<and> os_power w' = None \<and>
    slot_bytes w' dst = copied (copy_len g (slot_bytes w src)) m (slot_bytes w src) (slot_bytes w dst)"
proof -
  from copy_partition_ok [OF assms(1,3,4,5) valid_len [OF assms(2,3,6)] m refl] obtain w' where
    w': "copy_partition src dst st upd w = Some (OK, w')" "slot_run dst w w'"
      "powered w' \<longrightarrow> slot_bytes w' dst =
        copied (max (nx_block g) (image_len (slot_bytes w src))) m (slot_bytes w src) (slot_bytes w dst)"
    by (elim exE conjE)
  moreover have "os_power w' = None" using slot_run_None [OF w'(2)] assms(7) by simp
  moreover from this have "powered w'" by (simp add: powered_def)
  ultimately show ?thesis using slot_run_ok [OF w'(2) assms(1,4)] by (simp add: copy_len_def)
qed

text \<open>Where the bytes are after the update.\<close>

lemma update_branch_bytes:
  assumes w: "update_ready cfg g w" and u: "u = update_slot w" "r = other_slot u" and st: "st_update st = u"
    "\<not> st_recovery_present st" "st_primary_confirmed st"
  shows "\<exists>w'. update_branch cfg st False 0 u r w = Some w' \<and>
    slot_bytes w' 0 = copied (copy_len g (slot_bytes w u)) (NXBOOT_HEADER_MAGIC_INT OR of_nat u) (slot_bytes w u) (slot_bytes w 0) \<and>
    slot_bytes w' r = copied (copy_len g (slot_bytes w 0)) NXBOOT_HEADER_MAGIC_INT (slot_bytes w 0) (slot_bytes w r) \<and>
    slot_bytes w' u = erase_sector g (slot_bytes w u)"
proof -
  have ok: "nx_ok g w" "slots_fit cfg g w" "os_power w = None" "slot_valid cfg g w 0" "slot_valid cfg g w u"
    and magic: "hdr_magic (slot_header w 0) = NXBOOT_HEADER_MAGIC" "hdr_magic (slot_header w u) = NXBOOT_HEADER_MAGIC"
    using w u by (simp_all add: update_ready_def)
  have s: "u < 3" "r < 3" "(0::nat) < 3" "u \<noteq> 0" "0 \<noteq> r" "r \<noteq> u" using update_slot_cases [of w] u by auto
  from copy_full [where upd = False and st = st and m = NXBOOT_HEADER_MAGIC_INT, OF ok(1,2) s(3,2,5) ok(4,3)] magic
  obtain w1 where w1: "copy_partition 0 r st False w = Some (OK, w1)" "slot_run r w w1" "nx_ok g w1" "os_power w1 = None"
    "slot_bytes w1 r = copied (copy_len g (slot_bytes w 0)) NXBOOT_HEADER_MAGIC_INT (slot_bytes w 0) (slot_bytes w r)"
    by auto
  have p1: "powered w1" using w1(4) by (simp add: powered_def)
  from copy_valid [where upd = False and st = st, OF ok(1,2) s(3,2,5) ok(4) refl] magic w1(1) p1
  have f1: "slots_fit cfg g w1" "slot_valid cfg g w1 r" by simp_all
  have same1: "slot_bytes w1 0 = slot_bytes w 0" "slot_bytes w1 u = slot_bytes w u"
    using slot_run_other [OF w1(2)] s by simp_all
  have v1: "slot_valid cfg g w1 u" "hdr_magic (slot_header w1 u) = NXBOOT_HEADER_MAGIC" using ok magic same1 by simp_all
  from copy_full [where upd = True and st = st and m = "NXBOOT_HEADER_MAGIC_INT OR of_nat u", OF w1(3) f1(1) s(1,3,4) v1(1) w1(4)]
    v1(2) st(1)
  obtain w2 where w2: "copy_partition u 0 st True w1 = Some (OK, w2)" "slot_run 0 w1 w2" "nx_ok g w2" "os_power w2 = None"
    "slot_bytes w2 0 = copied (copy_len g (slot_bytes w u)) (NXBOOT_HEADER_MAGIC_INT OR of_nat u) (slot_bytes w u) (slot_bytes w 0)"
    using same1 by auto
  have p2: "powered w2" using w2(4) by (simp add: powered_def)
  have same2: "slot_bytes w2 r = slot_bytes w1 r" "slot_bytes w2 u = slot_bytes w u"
    using slot_run_other [OF w2(2)] s same1 by simp_all
  let ?w = "snd (flash_partition_erase_first_sector u w2)"
  have same3: "slot_bytes ?w 0 = slot_bytes w2 0" "slot_bytes ?w r = slot_bytes w2 r"
    using slot_run_other [OF erase_run [OF w2(3) s(1)]] s by simp_all
  have "update_branch cfg st False 0 u r w = Some ?w"
    unfolding update_branch_def
    using st ok v1 f1 w1(1) w2(1) validate_slot [OF ok(1,2) s(3)] validate_slot [OF w1(3) f1(1)] s by simp
  then show ?thesis
    using same3 same2 w1(5) w2(5) erase_bytes [OF w2(3) s(1) p2] by simp
qed

lemma perform_update_unfold:
  assumes "nx_ok g w" "boot_type cfg g w = NXBOOT_UPDATE_TYPE_UPDATE"
  shows "perform_update cfg (boot_state cfg g w) False w =
    map_option (\<lambda>w'. (OK, close_slots w')) (update_branch cfg (boot_state cfg g w) False 0 (update_slot w)
      (other_slot (update_slot w)) (w\<lparr>os_fds := 2 # 1 # 0 # os_fds w\<rparr>))"
  using update_slot_cases [of w] assms(2)
  unfolding perform_update_def open_slots_ok [OF assms(1)]
  by (auto simp: boot_state_def other_slot_def Let_def map_conv_bind_option comp_def)

lemma perform_revert_unfold:
  assumes "nx_ok g w" "boot_type cfg g w = NXBOOT_UPDATE_TYPE_REVERT" "r = other_slot (update_slot w)"
  shows "perform_update cfg (boot_state cfg g w) False w =
    map_option (\<lambda>(ret, w'). (OK, close_slots w')) (copy_partition r 0 (boot_state cfg g w) False
      (w\<lparr>os_fds := 2 # 1 # 0 # os_fds w\<rparr>))"
  using update_slot_cases [of w] assms(2) boot_type_cases(2) [OF assms(2)]
  unfolding perform_update_def open_slots_ok [OF assms(1)] assms(3)
  by (auto simp: boot_state_def other_slot_def Let_def map_conv_bind_option comp_def split: bind_splits option.splits)

lemma bytes_close [simp]: "os_part (close_slots w) = os_part w"
  by (simp add: close_slots_def flash_partition_close_def)

lemma update_installed:
  assumes w: "update_ready cfg g w" and u: "u = update_slot w" "r = other_slot u"
  shows "\<exists>w'. nxboot_perform_update cfg False w = Some (OK, w') \<and> boot_inv cfg g w' \<and> os_power w' = None \<and>
    slot_bytes w' 0 = copied (copy_len g (slot_bytes w u)) (NXBOOT_HEADER_MAGIC_INT OR of_nat u) (slot_bytes w u) (slot_bytes w 0) \<and>
    slot_bytes w' r = copied (copy_len g (slot_bytes w 0)) NXBOOT_HEADER_MAGIC_INT (slot_bytes w 0) (slot_bytes w r) \<and>
    slot_bytes w' u = erase_sector g (slot_bytes w u)"
proof -
  let ?w = "w\<lparr>os_fds := 2 # 1 # 0 # os_fds w\<rparr>" and ?st = "boot_state cfg g w"
  have ok: "nx_ok g w" "slots_fit cfg g w" "os_power w = None" using w by (simp_all add: update_ready_def)
  have inv: "boot_inv cfg g w"
    using w update_slot_cases [of w] by (auto simp: update_ready_def boot_inv_def bootable_def slots_distinct_def)
  have ty: "boot_type cfg g w = NXBOOT_UPDATE_TYPE_UPDATE"
    using w by (simp add: update_ready_def boot_type_def next_type_def Let_def)
  have st: "st_update ?st = update_slot ?w" "\<not> st_recovery_present ?st" "st_primary_confirmed ?st"
    using w by (simp_all add: update_ready_def boot_state_def primary_confirmed_def Let_def)
  have "update_ready cfg g ?w"
    using w unfolding update_ready_def by (simp add: nx_ok_fds slots_fit_fds)
  from update_branch_bytes [OF this refl refl st] obtain w2 where
    w2: "update_branch cfg ?st False 0 (update_slot w) (other_slot (update_slot w)) ?w = Some w2"
      "slot_bytes w2 0 = copied (copy_len g (slot_bytes w u)) (NXBOOT_HEADER_MAGIC_INT OR of_nat u) (slot_bytes w u) (slot_bytes w 0)"
      "slot_bytes w2 r = copied (copy_len g (slot_bytes w 0)) NXBOOT_HEADER_MAGIC_INT (slot_bytes w 0) (slot_bytes w r)"
      "slot_bytes w2 u = erase_sector g (slot_bytes w u)" using u by auto
  have pu: "perform_update cfg ?st False w = Some (OK, close_slots w2)"
    using perform_update_unfold [OF ok(1) ty] w2(1) by simp
  from perform_update_safe [OF inv, of False] ty pu have run: "safe_run cfg g w (close_slots w2)" by simp
  then have "nx_ok g (close_slots w2)" by (simp add: safe_run_def boot_inv_def)
  from perform_boot [OF ok(1,2) this, of False] ty pu run ok(3)
  have "nxboot_perform_update cfg False w = Some (OK, close_slots w2)"
    by (simp add: safe_run_def image_valid_def)
  then show ?thesis using w2 run ok(3) by (auto simp: safe_run_def)
qed

text \<open>The choice and the confirmation after the update.\<close>

lemma copied_header_ok:
  assumes "nx_ok g w" "s < 3" "d < 3" "image_len (slot_bytes w s) \<le> nx_size g"
  shows "header_of (copied (copy_len g (slot_bytes w s)) m (slot_bytes w s) (slot_bytes w d)) = (slot_header w s)\<lparr>hdr_magic := m\<rparr>"
  using nx_ok_block [OF assms(1)] nx_ok_length [OF assms(1,2)] nx_ok_length [OF assms(1,3)] assms(4)
  by (intro copied_header) (simp_all add: copy_len_def le_max_iff_disj)

lemma erased_header:
  assumes "nx_ok g w" "s < 3"
  shows "header_of (erase_sector g (slot_bytes w s)) = header_of (replicate 128 0xFF)"
  using nx_ok_geo [OF assms(1)] unfolding nx_geo_def by (intro header_cong) (simp add: erase_sector_def)

lemma erased_crc: "hdr_crc (header_of (replicate 128 0xFF)) = 0xFFFFFFFF"
  by (simp add: header_of_def le32_def le16_def)

lemma pointer_simps [simp]:
  "(NXBOOT_HEADER_MAGIC_INT OR 1) AND NXBOOT_RECOVERY_PTR_MASK = 1"
  "(NXBOOT_HEADER_MAGIC_INT OR 2) AND NXBOOT_RECOVERY_PTR_MASK = 2"
  "NXBOOT_HEADER_MAGIC_INT OR 1 \<noteq> NXBOOT_HEADER_MAGIC" "NXBOOT_HEADER_MAGIC_INT OR 2 \<noteq> NXBOOT_HEADER_MAGIC"
  by (simp_all add: NXBOOT_HEADER_MAGIC_INT_def NXBOOT_RECOVERY_PTR_MASK_def NXBOOT_HEADER_MAGIC_def)

text \<open>Which headers an installed, not yet confirmed image leaves.\<close>

lemma installed_headers:
  assumes w: "update_ready cfg g w" and u: "u = update_slot w" "r = other_slot u"
    and w': "slot_bytes w' 0 = copied (copy_len g (slot_bytes w u)) (NXBOOT_HEADER_MAGIC_INT OR of_nat u) (slot_bytes w u) (slot_bytes w 0)"
      "slot_bytes w' r = copied (copy_len g (slot_bytes w 0)) NXBOOT_HEADER_MAGIC_INT (slot_bytes w 0) (slot_bytes w r)"
      "slot_bytes w' u = erase_sector g (slot_bytes w u)"
  shows "slot_header w' 0 = (slot_header w u)\<lparr>hdr_magic := NXBOOT_HEADER_MAGIC_INT OR of_nat u\<rparr>"
    "slot_header w' r = (slot_header w 0)\<lparr>hdr_magic := NXBOOT_HEADER_MAGIC_INT\<rparr>"
    "hdr_magic (slot_header w' u) = 0xFFFFFFFF" "hdr_crc (slot_header w' u) = 0xFFFFFFFF"
    "slot_valid cfg g w' r"
proof -
  have ok: "nx_ok g w" "slots_fit cfg g w" "slot_valid cfg g w 0" "slot_valid cfg g w u"
    using w u by (simp_all add: update_ready_def)
  have s: "u < 3" "r < 3" "(0::nat) < 3" using update_slot_cases [of w] u by auto
  note len = valid_len [OF ok(2) s(3) ok(3)] valid_len [OF ok(2) s(1) ok(4)]
  show "slot_header w' 0 = (slot_header w u)\<lparr>hdr_magic := NXBOOT_HEADER_MAGIC_INT OR of_nat u\<rparr>"
    unfolding w' by (rule copied_header_ok [OF ok(1) s(1,3) len(2)])
  show "slot_header w' r = (slot_header w 0)\<lparr>hdr_magic := NXBOOT_HEADER_MAGIC_INT\<rparr>"
    unfolding w' by (rule copied_header_ok [OF ok(1) s(3,2) len(1)])
  show "hdr_magic (slot_header w' u) = 0xFFFFFFFF" "hdr_crc (slot_header w' u) = 0xFFFFFFFF"
    unfolding w' erased_header [OF ok(1) s(1)] by (simp_all only: erased_magic erased_crc)
  show "slot_valid cfg g w' r"
    unfolding w' using nx_ok_block [OF ok(1)] nx_ok_length [OF ok(1)] s len ok(3)
    by (intro copied_valid) (simp_all add: copy_len_def le_max_iff_disj)
qed

lemma copied_body_ok:
  assumes "nx_ok g w" "s < 3" "d < 3" "image_len (slot_bytes w s) \<le> nx_size g"
  shows "image_body (copied (copy_len g (slot_bytes w s)) m (slot_bytes w s) (slot_bytes w d)) = image_body (slot_bytes w s)"
  using nx_ok_block [OF assms(1)] nx_ok_length [OF assms(1,2)] nx_ok_length [OF assms(1,3)] assms(4)
  by (intro copied_body) (simp_all add: copy_len_def le_max_iff_disj)

lemma installed_state:
  assumes u: "u = 1 \<or> u = 2" "r = other_slot u" and crc: "hdr_crc hu \<noteq> 0xFFFFFFFF"
    and h: "slot_header w' 0 = hu\<lparr>hdr_magic := NXBOOT_HEADER_MAGIC_INT OR of_nat u\<rparr>"
      "slot_header w' r = hp\<lparr>hdr_magic := NXBOOT_HEADER_MAGIC_INT\<rparr>"
      "hdr_magic (slot_header w' u) = 0xFFFFFFFF" "hdr_crc (slot_header w' u) = 0xFFFFFFFF"
      "slot_valid cfg g w' r"
  shows "update_slot w' = u" "\<not> primary_confirmed (slot_header w' 0) (slot_header w' 1) (slot_header w' 2)"
    "boot_type cfg g w' = NXBOOT_UPDATE_TYPE_REVERT"
proof -
  show s: "update_slot w' = u" using u h by (auto simp: update_slot_def select_update_def)
  show c: "\<not> primary_confirmed (slot_header w' 0) (slot_header w' 1) (slot_header w' 2)"
    using u h crc by (auto simp: primary_confirmed_def)
  have "IS_INTERNAL_MAGIC (hdr_magic (slot_header w' 0))" using h(1) u by auto
  then show "boot_type cfg g w' = NXBOOT_UPDATE_TYPE_REVERT"
    unfolding boot_type_def Let_def s u(2) [symmetric] next_type_def using c h by simp
qed

lemma revert_bytes:
  assumes inv: "boot_inv cfg g w" "os_power w = None" and ty: "boot_type cfg g w = NXBOOT_UPDATE_TYPE_REVERT"
    and r: "r = other_slot (update_slot w)"
  shows "\<exists>w'. nxboot_perform_update cfg False w = Some (OK, w') \<and>
    slot_bytes w' 0 = copied (copy_len g (slot_bytes w r)) NXBOOT_HEADER_MAGIC (slot_bytes w r) (slot_bytes w 0)"
proof -
  let ?w = "w\<lparr>os_fds := 2 # 1 # 0 # os_fds w\<rparr>" and ?st = "boot_state cfg g w"
  have ok: "nx_ok g w" "slots_fit cfg g w" "nx_ok g ?w" "slots_fit cfg g ?w" "os_power ?w = None"
    using inv by (simp_all add: boot_inv_def nx_ok_fds slots_fit_fds)
  have rec: "IS_INTERNAL_MAGIC (hdr_magic (slot_header w r))" "slot_valid cfg g ?w r"
    using boot_type_cases(2) [OF ty] r by simp_all
  have s: "r < 3" "(0::nat) < 3" "r \<noteq> 0" using update_slot_cases [of w] r by auto
  from copy_full [where upd = False and st = ?st and m = NXBOOT_HEADER_MAGIC, OF ok(3,4) s rec(2) ok(5)] rec(1)
  obtain w2 where w2: "copy_partition r 0 ?st False ?w = Some (OK, w2)"
    "slot_bytes w2 0 = copied (copy_len g (slot_bytes w r)) NXBOOT_HEADER_MAGIC (slot_bytes w r) (slot_bytes w 0)" by auto
  have pu: "perform_update cfg ?st False w = Some (OK, close_slots w2)"
    using perform_revert_unfold [OF ok(1) ty r] w2(1) by simp
  from perform_update_safe [OF inv(1), of False] ty pu have run: "safe_run cfg g w (close_slots w2)" by simp
  then have "nx_ok g (close_slots w2)" by (simp add: safe_run_def boot_inv_def)
  from perform_boot [OF ok(1,2) this, of False] ty pu run inv(2)
  have "nxboot_perform_update cfg False w = Some (OK, close_slots w2)" by (simp add: safe_run_def image_valid_def)
  then show ?thesis using w2(2) by simp
qed

section \<open>Confirming an image\<close>

text \<open>The slot of the update with its first sector written back is the installed image.\<close>

lemma restored_image:
  assumes n: "128 \<le> n" "n \<le> length src" "image_len src \<le> n" "length src = length old"
    and e: "128 \<le> e" "e \<le> length src"
  shows "header_of (take e (copied n m src old) @ drop e src) = (header_of src)\<lparr>hdr_magic := m\<rparr>"
    "image_body (take e (copied n m src old) @ drop e src) = image_body src"
proof -
  let ?x = "take e (copied n m src old) @ drop e src"
  have l: "length (copied n m src old) = length src" using n by (simp add: copied_def)
  have "header_of ?x = header_of (copied n m src old)" using e l by (intro header_cong) (simp add: min_def)
  then show h: "header_of ?x = (header_of src)\<lparr>hdr_magic := m\<rparr>" using copied_header [OF n(1,2,4)] by simp
  have len: "image_len ?x = image_len src" unfolding image_len_def h by simp
  have nth: "copied n m src old ! i = src ! i" if "12 \<le> i" "i < image_len src" for i
    using that n nth_relabel [of i "take n src @ drop n old" m] by (simp add: copied_def nth_append)
  have xl: "length ?x = length src" using e l by simp
  have x: "?x ! i = src ! i" if "12 \<le> i" "i < image_len src" for i
    using nth [OF that] that n e l by (simp add: nth_append)
  show "image_body ?x = image_body src"
    unfolding image_body_def len
  proof (rule nth_equalityI)
    show "length (take (image_len src - 12) (drop 12 ?x)) = length (take (image_len src - 12) (drop 12 src))"
      unfolding length_take length_drop xl ..
    fix i assume "i < length (take (image_len src - 12) (drop 12 ?x))"
    then have i: "i < image_len src - 12" "12 \<le> length ?x" "12 \<le> length src" "12 + i < image_len src"
      unfolding length_take length_drop xl by (auto simp: less_diff_conv)
    then show "take (image_len src - 12) (drop 12 ?x) ! i = take (image_len src - 12) (drop 12 src) ! i"
      unfolding nth_take [OF i(1)] nth_drop [OF i(2)] nth_drop [OF i(3)] by (intro x i(4)) simp
  qed
qed

lemma confirm_bytes:
  assumes ok: "nx_ok g w" "slots_fit cfg g w" "os_power w = None"
    and conf: "\<not> primary_confirmed (slot_header w 0) (slot_header w 1) (slot_header w 2)" and u: "u = update_slot w"
  shows "\<exists>w'. nxboot_confirm cfg w = Some (OK, w') \<and> nx_ok g w' \<and> os_power w' = None \<and> os_fds w' = os_fds w \<and>
    (\<forall>s. s \<noteq> u \<longrightarrow> os_part w' s = os_part w s) \<and>
    slot_bytes w' u = take (unat (geo_erasesize g)) (slot_bytes w 0) @ drop (unat (geo_erasesize g)) (slot_bytes w u)"
proof -
  let ?w = "w\<lparr>os_fds := u # 0 # os_fds w\<rparr>" and ?e = "unat (geo_erasesize g)"
  have s: "u < 3" "(0::nat) < 3" "0 \<noteq> u" "u = 1 \<or> u = 2" using update_slot_cases [of w] u by auto
  have ok': "nx_ok g ?w" using nx_ok_fds [OF ok(1)] .
  have e: "0 + ?e \<le> nx_size g" "0 < nx_block g" using nx_ok_geo [OF ok(1)] unfolding nx_geo_def by linarith+
  from copy_loop_ok [OF ok' s(2,1,3) e(2,1)] obtain w2 where
    w2: "copy_loop 0 u (int (nx_block g)) (int 0) (int ?e) ?w = Some (OK, w2)" "slot_run u ?w w2"
      "powered w2 \<longrightarrow> slot_bytes w2 u = overwrite 0 (take ?e (drop 0 (slot_bytes ?w 0))) (slot_bytes ?w u)"
    by (elim exE conjE)
  have p: "os_power w2 = None" "powered w2" using slot_run_None [OF w2(2)] ok(3) by (simp_all add: powered_def)
  let ?w' = "flash_partition_close u (flash_partition_close 0 w2)"
  have fds: "os_fds ?w' = os_fds w"
    using slot_run_fds [OF w2(2)] s by (auto simp: flash_partition_close_def)
  obtain info where info: "flash_partition_info u ?w = Some info" "info_blocksize info = int (nx_block g)"
    "info_erasesize info = int ?e" using info_ok [OF ok' s(1)] by blast
  have op: "flash_partition_open 0 w = (Some 0, w\<lparr>os_fds := 0 # os_fds w\<rparr>)"
    "flash_partition_open u (w\<lparr>os_fds := 0 # os_fds w\<rparr>) = (Some u, ?w)"
    using nx_ok_part [OF ok(1) s(2)] nx_ok_part [OF ok(1) s(1)] by (simp_all add: flash_partition_open_def part_ok_def)
  have st: "\<not> st_primary_confirmed (boot_state cfg g w)" "st_update (boot_state cfg g w) = u"
    using conf u by (simp_all add: boot_state_def Let_def)
  have path: "(if u = NXBOOT_SECONDARY_SLOT_NUM then NXBOOT_SECONDARY_SLOT_NUM else NXBOOT_TERTIARY_SLOT_NUM) = u"
    using s(4) by auto
  have "os_malloc ?w = (\<lambda>n. True)" using ok(1) by (simp add: nx_ok_def)
  then have "nxboot_confirm cfg w = Some (OK, ?w')"
    unfolding nxboot_confirm_def get_state_ok [OF ok(1,2)] Option.bind.bind_lunit prod.case st(2) path Let_def op option.case
    using st(1) info w2(1) by simp
  moreover have "slot_bytes w2 u = take ?e (slot_bytes w 0) @ drop ?e (slot_bytes w u)"
    using w2(3) p nx_ok_length [OF ok(1) s(2)] e by (simp add: overwrite_def min_def)
  ultimately show ?thesis
    using fds p slot_run_ok [OF w2(2) ok' s(1)] slot_run_other [OF w2(2)]
    by (simp add: flash_partition_close_def nx_ok_fds)
qed

text \<open>The state after the confirmation: the slot of the update is the recovery slot of the image.\<close>

lemma confirmed_state:
  assumes u: "u = 1 \<or> u = 2" "r = other_slot u"
    and h: "slot_header w 0 = hu\<lparr>hdr_magic := NXBOOT_HEADER_MAGIC_INT OR of_nat u\<rparr>"
      "slot_header w u = hu\<lparr>hdr_magic := NXBOOT_HEADER_MAGIC_INT OR of_nat u\<rparr>"
      "hdr_magic (slot_header w r) = NXBOOT_HEADER_MAGIC_INT"
    and v: "slot_valid cfg g w 0" "slot_valid cfg g w u"
  shows "boot_state cfg g w = \<lparr>st_update = r, st_recovery = u, st_recovery_valid = True, st_recovery_present = True,
    st_primary_confirmed = True, st_next_boot = NXBOOT_UPDATE_TYPE_NONE\<rparr>"
proof -
  have s: "update_slot w = r" using u h by (auto simp: update_slot_def select_update_def)
  have ru: "other_slot r = u" using u by auto
  have c: "primary_confirmed (slot_header w 0) (slot_header w 1) (slot_header w 2)"
    using u h by (auto simp: primary_confirmed_def)
  have "boot_type cfg g w = NXBOOT_UPDATE_TYPE_NONE"
    unfolding boot_type_def Let_def s ru next_type_def using c v h by simp
  then show ?thesis using s ru c v h by (simp add: boot_state_def Let_def)
qed

lemma update_confirmed_state:
  assumes w: "update_ready cfg g w" and u: "u = update_slot w" and crc: "hdr_crc (slot_header w u) \<noteq> 0xFFFFFFFF"
  shows "\<exists>w1 w2. nxboot_perform_update cfg False w = Some (OK, w1) \<and> nxboot_confirm cfg w1 = Some (OK, w2) \<and>
    nx_ok g w2 \<and> slots_fit cfg g w2 \<and> slot_bytes w2 0 = slot_bytes w1 0 \<and>
    boot_state cfg g w2 = \<lparr>st_update = other_slot u, st_recovery = u, st_recovery_valid = True,
      st_recovery_present = True, st_primary_confirmed = True, st_next_boot = NXBOOT_UPDATE_TYPE_NONE\<rparr>"
proof -
  let ?U = "slot_bytes w u" and ?P = "slot_bytes w 0" and ?e = "unat (geo_erasesize g)"
  have ok: "nx_ok g w" "slots_fit cfg g w" "slot_valid cfg g w u" using w u by (simp_all add: update_ready_def)
  have u12: "u = 1 \<or> u = 2" "u < 3" "(0::nat) < 3" "other_slot u \<noteq> u" "other_slot u < 3" using update_slot_cases [of w] u by auto
  from update_installed [OF w u refl] obtain w1 where
    w1: "nxboot_perform_update cfg False w = Some (OK, w1)" "boot_inv cfg g w1" "os_power w1 = None"
      "slot_bytes w1 0 = copied (copy_len g ?U) (NXBOOT_HEADER_MAGIC_INT OR of_nat u) ?U ?P"
      "slot_bytes w1 (other_slot u) = copied (copy_len g ?P) NXBOOT_HEADER_MAGIC_INT ?P (slot_bytes w (other_slot u))"
      "slot_bytes w1 u = erase_sector g ?U" by (elim exE conjE)
  note h1 = installed_headers [OF w u refl w1(4,5,6)]
  note s1 = installed_state [OF u12(1) refl crc h1]
  have ok1: "nx_ok g w1" "slots_fit cfg g w1" using w1(2) by (simp_all add: boot_inv_def)
  from confirm_bytes [OF ok1 w1(3) s1(2) s1(1) [symmetric]] obtain w2 where
    w2: "nxboot_confirm cfg w1 = Some (OK, w2)" "nx_ok g w2" "\<forall>s. s \<noteq> u \<longrightarrow> os_part w2 s = os_part w1 s"
      "slot_bytes w2 u = take ?e (slot_bytes w1 0) @ drop ?e (slot_bytes w1 u)" by (elim exE conjE)
  have geo: "128 \<le> ?e" "?e \<le> nx_size g" using nx_ok_geo [OF ok(1)] unfolding nx_geo_def by linarith+
  have l: "length ?U = nx_size g" "length ?U = length ?P" using nx_ok_length [OF ok(1)] u12 by simp_all
  have len: "image_len ?U \<le> nx_size g" using valid_len [OF ok(2) u12(2) ok(3)] .
  have n: "128 \<le> copy_len g ?U" "copy_len g ?U \<le> length ?U" "image_len ?U \<le> copy_len g ?U"
    using nx_ok_block [OF ok(1)] len l by (simp_all add: copy_len_def le_max_iff_disj)
  have "slot_bytes w2 u = take ?e (copied (copy_len g ?U) (NXBOOT_HEADER_MAGIC_INT OR of_nat u) ?U ?P) @ drop ?e ?U"
    using w2(4) w1(4,6) by (simp add: erase_sector_def)
  note img = restored_image [OF n l(2) geo(1), of "NXBOOT_HEADER_MAGIC_INT OR of_nat u", folded this]
  have h2: "slot_header w2 u = (slot_header w u)\<lparr>hdr_magic := NXBOOT_HEADER_MAGIC_INT OR of_nat u\<rparr>"
    "image_body (slot_bytes w2 u) = image_body ?U" using img geo l by simp_all
  have same: "slot_bytes w2 0 = slot_bytes w1 0" "slot_bytes w2 (other_slot u) = slot_bytes w1 (other_slot u)"
    using w2(3) u12 by auto
  have vu: "slot_valid cfg g w2 u"
    using ok(3) h2 u12(1) by (auto simp: image_valid_def validate_image_header_def)
  have v0: "slot_valid cfg g w2 0"
    unfolding same w1(4) using ok(3) u12(1) by (intro copied_valid [OF n(1,3,2) l(2)]) auto
  have "image_fits cfg g (slot_bytes w2 s)" if "s < 3" for s
    using that fits_relabelled [OF h2(1) len] slots_fitD [OF ok1(2) that] w2(3) by (cases "s = u") simp_all
  then have "slots_fit cfg g w2" by (simp add: slots_fit_def)
  moreover have "boot_state cfg g w2 = \<lparr>st_update = other_slot u, st_recovery = u, st_recovery_valid = True,
      st_recovery_present = True, st_primary_confirmed = True, st_next_boot = NXBOOT_UPDATE_TYPE_NONE\<rparr>"
    using h1(1,2) h2(1) v0 vu by (intro confirmed_state [OF u12(1) refl]) (simp_all add: same)
  ultimately show ?thesis using w1(1) w2(1,2) same(1) by blast
qed

section \<open>Properties\<close>

text \<open>
  C12: the bootloader survives every loss of power. Start from partitions without errors in
  which one of the images the bootloader can choose is valid. However many boots are
  interrupted, each after any number of changes of the flash, the next boot that is not
  interrupted reports success and leaves a valid image in the primary slot.
\<close>

theorem power_loss_safe:
  assumes "boot_inv cfg g w" "nx_boots cfg w w1"
  shows "\<exists>w2. nxboot_perform_update cfg check_only (w1\<lparr>os_power := None\<rparr>) = Some (OK, w2) \<and>
    validate_image cfg NXBOOT_PRIMARY_SLOT_NUM w2 = Some True \<and> os_fds w2 = os_fds w1"
proof -
  have inv: "boot_inv cfg g (w1\<lparr>os_power := None\<rparr>)" using boot_inv_power [OF boots_inv [OF assms(2,1)]] .
  obtain w2 where w2: "nxboot_perform_update cfg check_only (w1\<lparr>os_power := None\<rparr>) = Some (OK, w2)"
    "safe_run cfg g (w1\<lparr>os_power := None\<rparr>) w2"
    using perform_safe [OF inv, of check_only] by auto
  then have "nx_ok g w2" "slots_fit cfg g w2" "slot_valid cfg g w2 0" "os_fds w2 = os_fds w1"
    by (simp_all add: safe_run_def boot_inv_def)
  then show ?thesis using w2(1) validate_slot [of g w2 cfg 0] by simp
qed

text \<open>
  C13: an image that is not confirmed is reverted. The first boot installs the new image in
  the primary slot, with an internal magic number that points to its slot; if nothing
  confirms it the next boot puts the old image back, its header and its contents as before.
\<close>

theorem update_reverts:
  assumes w: "update_ready cfg g w" and u: "u = update_slot w" and crc: "hdr_crc (slot_header w u) \<noteq> 0xFFFFFFFF"
  shows "\<exists>w1 w2. nxboot_perform_update cfg False w = Some (OK, w1) \<and>
    slot_header w1 0 = (slot_header w u)\<lparr>hdr_magic := NXBOOT_HEADER_MAGIC_INT OR of_nat u\<rparr> \<and>
    image_body (slot_bytes w1 0) = image_body (slot_bytes w u) \<and>
    nxboot_perform_update cfg False w1 = Some (OK, w2) \<and>
    slot_header w2 0 = slot_header w 0 \<and> image_body (slot_bytes w2 0) = image_body (slot_bytes w 0)"
proof -
  let ?r = "other_slot u"
  have ok: "nx_ok g w" "slots_fit cfg g w" "slot_valid cfg g w 0" "slot_valid cfg g w u"
    "hdr_magic (slot_header w 0) = NXBOOT_HEADER_MAGIC" using w u by (simp_all add: update_ready_def)
  have s: "u = 1 \<or> u = 2" "u < 3" "(0::nat) < 3" "?r < 3" using update_slot_cases [of w] u by auto
  note len = valid_len [OF ok(2) s(3) ok(3)] valid_len [OF ok(2) s(2) ok(4)]
  from update_installed [OF w u refl] obtain w1 where
    w1: "nxboot_perform_update cfg False w = Some (OK, w1)" "boot_inv cfg g w1" "os_power w1 = None"
      "slot_bytes w1 0 = copied (copy_len g (slot_bytes w u)) (NXBOOT_HEADER_MAGIC_INT OR of_nat u) (slot_bytes w u) (slot_bytes w 0)"
      "slot_bytes w1 ?r = copied (copy_len g (slot_bytes w 0)) NXBOOT_HEADER_MAGIC_INT (slot_bytes w 0) (slot_bytes w ?r)"
      "slot_bytes w1 u = erase_sector g (slot_bytes w u)" by (elim exE conjE)
  note h1 = installed_headers [OF w u refl w1(4,5,6)]
  note s1 = installed_state [OF s(1) refl crc h1]
  from revert_bytes [OF w1(2,3) s1(3), of ?r] s1(1) obtain w2 where
    w2: "nxboot_perform_update cfg False w1 = Some (OK, w2)"
      "slot_bytes w2 0 = copied (copy_len g (slot_bytes w1 ?r)) NXBOOT_HEADER_MAGIC (slot_bytes w1 ?r) (slot_bytes w1 0)" by auto
  have ok1: "nx_ok g w1" "slots_fit cfg g w1" using w1(2) by (simp_all add: boot_inv_def)
  note len1 = valid_len [OF ok1(2) s(4) h1(5)]
  have "slot_header w2 0 = slot_header w 0"
    unfolding w2(2) copied_header_ok [OF ok1(1) s(4,3) len1] h1(2) using ok(5) by simp
  moreover have "image_body (slot_bytes w2 0) = image_body (slot_bytes w1 ?r)"
    unfolding w2(2) by (rule copied_body_ok [OF ok1(1) s(4,3) len1])
  moreover have "image_body (slot_bytes w1 ?r) = image_body (slot_bytes w 0)"
    unfolding w1(5) by (rule copied_body_ok [OF ok(1) s(3,4) len(1)])
  moreover have "image_body (slot_bytes w1 0) = image_body (slot_bytes w u)"
    unfolding w1(4) by (rule copied_body_ok [OF ok(1) s(2,3) len(2)])
  ultimately show ?thesis using w1(1) w2(1) h1(1) by auto
qed

text \<open>
  C14: an image that is confirmed stays. After the boot that installed it, \<^verbatim>\<open>nxboot_confirm\<close> makes
  the slot it came from the recovery slot, with a valid copy of the image; the state of the
  bootloader is confirmed and the next boot has nothing to do.
\<close>

theorem update_confirmed:
  assumes "update_ready cfg g w" "u = update_slot w" "hdr_crc (slot_header w u) \<noteq> 0xFFFFFFFF"
  shows "\<exists>w1 w2. nxboot_perform_update cfg False w = Some (OK, w1) \<and> nxboot_confirm cfg w1 = Some (OK, w2) \<and>
    slot_bytes w2 0 = slot_bytes w1 0 \<and>
    nxboot_get_state cfg w2 = Some (OK, \<lparr>st_update = other_slot u, st_recovery = u, st_recovery_valid = True,
      st_recovery_present = True, st_primary_confirmed = True, st_next_boot = NXBOOT_UPDATE_TYPE_NONE\<rparr>, w2)"
  using update_confirmed_state [OF assms] get_state_ok by metis

end
