(* ===== verification/NxErrors.thy ===== *)
theory NxErrors
  imports NxLife
begin

text \<open>
  The bootloader on any device: it returns and closes what it opened, whatever fails. Then
  what its checks let through.
\<close>

section \<open>Every call returns\<close>

text \<open>A device may fail in every way, but a block size it reports holds the magic number.\<close>

definition blocks_ok :: "nx_os \<Rightarrow> bool" where
  "blocks_ok w \<longleftrightarrow> (\<forall>s g. pt_geometry (os_part w s) = Some g \<longrightarrow> 4 \<le> sint (geo_blocksize g))"

text \<open>What the operations on the flash keep: the geometries and the descriptors.\<close>

definition flash_step :: "nx_os \<Rightarrow> nx_os \<Rightarrow> bool" where
  "flash_step w w' \<longleftrightarrow> (\<forall>s. pt_geometry (os_part w' s) = pt_geometry (os_part w s)) \<and> os_fds w' = os_fds w"

lemma flash_step_refl [simp]: "flash_step w w"
  by (simp add: flash_step_def)

lemma flash_step_trans [trans]: "flash_step w w' \<Longrightarrow> flash_step w' w'' \<Longrightarrow> flash_step w w''"
  by (simp add: flash_step_def)

lemma flash_step_blocks: "flash_step w w' \<Longrightarrow> blocks_ok w \<Longrightarrow> blocks_ok w'"
  by (simp add: flash_step_def blocks_ok_def)

lemma flash_step_change [simp]: "flash_step w (flash_change d f w)"
  by (simp add: flash_step_def flash_change_def)

lemma flash_step_write: "flash_step w (snd (flash_partition_write d buf i w))"
  by (simp add: flash_partition_write_def dev_write_def Let_def split: option.split)

lemma flash_step_erase: "flash_step w (snd (flash_partition_erase_first_sector d w))"
  by (simp add: flash_partition_erase_first_sector_def split: option.split)

lemma write_ret: "fst (flash_partition_write d buf i w) \<in> {OK, ERROR}"
  by (simp add: flash_partition_write_def dev_write_def Let_def split: option.split)

lemma crc_loop_returns:
  assumes "0 < b"
  shows "\<exists>c'. crc_loop f s b i n c w = Some c'"
proof (induction "nat n" arbitrary: i n c rule: less_induct)
  case less
  show ?case
  proof (cases "0 < n")
    case True
    define r where "r = (if b < n then b else n)"
    have "nat (n - r) < nat n" using assms True by (simp add: r_def)
    then have "\<exists>c'. crc_loop f s b (i + r) (n - r) (f buf c) w = Some c'" for buf by (rule less)
    then show ?thesis
      unfolding crc_loop.simps [of f s b i n] Let_def r_def [symmetric] using True by (simp split: option.split)
  next
    case False
    then show ?thesis by (subst crc_loop.simps) simp
  qed
qed

lemma copy_loop_returns:
  assumes "0 < b"
  shows "\<exists>ret w'. copy_loop src dst b i n w = Some (ret, w') \<and> ret \<in> {OK, ERROR} \<and> flash_step w w'"
proof (induction "nat n" arbitrary: i n w rule: less_induct)
  case less
  show ?case
  proof (cases "0 < n")
    case True
    define r where "r = (if b < n then b else n)"
    show ?thesis
    proof (cases "flash_partition_read src r i w")
      case None
      then show ?thesis using True by (subst copy_loop.simps) (simp add: Let_def flip: r_def)
    next
      case (Some buf)
      obtain ret1 w1 where w1: "flash_partition_write dst buf i w = (ret1, w1)" by fastforce
      then have step: "flash_step w w1" using flash_step_write [of w dst buf i] by simp
      have "nat (n - r) < nat n" using assms True by (simp add: r_def)
      from less [OF this, of "i + r" w1] obtain ret w' where
        w': "copy_loop src dst b (i + r) (n - r) w1 = Some (ret, w')" "ret \<in> {OK, ERROR}" "flash_step w1 w'" by blast
      have "copy_loop src dst b i n w = (if ret1 < 0 then Some (ERROR, w1) else Some (ret, w'))"
        unfolding copy_loop.simps [of src dst b i n] Let_def r_def [symmetric] using True Some w1 w'(1) by simp
      then show ?thesis using w'(2) step flash_step_trans [OF step w'(3)] by (cases "ret1 < 0") simp_all
    qed
  next
    case False
    then show ?thesis by (subst copy_loop.simps) simp
  qed
qed

lemma info_blocks: "blocks_ok w \<Longrightarrow> flash_partition_info s w = Some i \<Longrightarrow> 4 \<le> info_blocksize i \<and> info_blocksize i < 2 ^ 31"
  using sint_lt [of "geo_blocksize (the (pt_geometry (os_part w s)))"]
  by (auto simp: blocks_ok_def flash_partition_info_def)

lemma crc_returns:
  assumes "blocks_ok w"
  shows "\<exists>c. calculate_crc cfg s h w = Some c"
proof (cases "flash_partition_info s w")
  case (Some i)
  then have "0 < info_blocksize i" using info_blocks [OF assms Some] by linarith
  from crc_loop_returns [OF this] show ?thesis
    unfolding calculate_crc_def Some option.case by (cases "os_malloc w (info_blocksize i)") simp_all
qed (simp add: calculate_crc_def)

lemma validate_returns:
  assumes "blocks_ok w"
  shows "\<exists>b. validate_image cfg s w = Some b"
proof -
  obtain c where "calculate_crc cfg s (get_image_header s w) w = Some c" using crc_returns [OF assms] by blast
  then show ?thesis by (auto simp: validate_image_def Let_def)
qed

lemma read_length: "flash_partition_read s n i w = Some buf \<Longrightarrow> length buf = size_t n"
  by (auto simp: flash_partition_read_def dev_read_def split: option.splits if_splits)

lemma copy_returns:
  assumes "blocks_ok w"
  shows "\<exists>ret w'. copy_partition src dst st upd w = Some (ret, w') \<and> ret \<in> {OK, ERROR} \<and> flash_step w w'"
proof (cases "flash_partition_info src w")
  case None
  then show ?thesis by (simp add: copy_partition_def Let_def)
next
  case i1: (Some i1)
  show ?thesis
  proof (cases "flash_partition_info dst w")
    case None
    then show ?thesis using i1 by (simp add: copy_partition_def Let_def)
  next
    case i2: (Some i2)
    define b where "b = max (info_blocksize i1) (info_blocksize i2)"
    have b: "4 \<le> b" "b < 2 ^ 31" using info_blocks [OF assms i1] info_blocks [OF assms i2] by (simp_all add: b_def le_max_iff_disj)
    have "4 \<le> length buf" if "flash_partition_read src b 0 w = Some buf" for buf
      using read_length [OF that] b by (simp add: size_t_def)
    then have blit: "\<exists>buf'. array_blit buf 0 (le32_bytes m) = Some buf'" if "flash_partition_read src b 0 w = Some buf" for buf m
      using that by (simp add: array_blit_def)
    have wr: "\<exists>ret w'. (let (ret, w1) = flash_partition_write dst buf 0 w in
        if ret < 0 then Some (ERROR, w1) else copy_loop src dst b b k w1) = Some (ret, w') \<and> ret \<in> {OK, ERROR} \<and> flash_step w w'"
      for buf k
    proof -
      obtain r w1 where w1: "flash_partition_write dst buf 0 w = (r, w1)" by fastforce
      then have "flash_step w w1" using flash_step_write [of w dst buf 0] by simp
      moreover obtain r2 w2 where w2: "copy_loop src dst b b k w1 = Some (r2, w2)" "r2 \<in> {OK, ERROR}" "flash_step w1 w2"
        using copy_loop_returns [of b src dst b k w1] b by auto
      ultimately show ?thesis
        unfolding w1 Let_def prod.case using w2 flash_step_trans [of w w1 w2] by (cases "r < 0") simp_all
    qed
    show ?thesis
    proof (cases "flash_partition_read src b 0 w")
      case None
      then show ?thesis
        unfolding copy_partition_def Let_def i1 i2 prod.case option.case b_def [symmetric] by simp
    next
      case (Some buf)
      define m where "m = (let m = flip_magic (hdr_magic (get_image_header src w)) in if upd then m OR of_nat (st_update st) else m)"
      obtain buf' where buf': "array_blit buf 0 (le32_bytes m) = Some buf'" using blit [OF Some] by blast
      let ?k = "sint (hdr_size (get_image_header src w) + ucast (hdr_header_size (get_image_header src w)))"
      have "copy_partition src dst st upd w = (if info_size i2 < ?k \<or> \<not> os_malloc w b then Some (ERROR, w)
          else let (ret, w1) = flash_partition_write dst buf' 0 w in
            if ret < 0 then Some (ERROR, w1) else copy_loop src dst b b (?k - b) w1)"
        unfolding copy_partition_def i1 i2 prod.case option.case b_def [symmetric] Let_def
        using Some buf' unfolding m_def flip_magic_def Let_def by simp
      then show ?thesis using wr [of buf' "?k - b"] by (cases "info_size i2 < ?k \<or> \<not> os_malloc w b") simp_all
    qed
  qed
qed

lemma blocks_fds [simp]: "blocks_ok (w\<lparr>os_fds := l\<rparr>) = blocks_ok w"
  by (simp add: blocks_ok_def)

lemma open_slots_fds:
  "open_slots w = (b, w') \<Longrightarrow> w' = w\<lparr>os_fds := if b then 2 # 1 # 0 # os_fds w else os_fds w\<rparr>"
  by (auto simp: open_slots_def flash_partition_open_def flash_partition_close_def split: if_splits)

lemma update_type_returns:
  assumes "blocks_ok w"
  shows "\<exists>ty. get_update_type cfg st p u r ph uh rh w = Some ty"
proof -
  obtain b1 b2 where "validate_image cfg p w = Some b1" "validate_image cfg u w = Some b2"
    using validate_returns [OF assms] by metis
  then show ?thesis by (cases "hdr_magic uh = NXBOOT_HEADER_MAGIC") (simp_all add: get_update_type_def)
qed

lemma bind_returns:
  "m \<noteq> None \<Longrightarrow> (\<And>v. \<exists>a b. f v = Some (a, b, w) \<and> P a) \<Longrightarrow> \<exists>a b. Option.bind m f = Some (a, b, w) \<and> P a"
  by (cases m) simp_all

lemma state_returns:
  assumes "blocks_ok w"
  shows "\<exists>ret st. nxboot_get_state cfg w = Some (ret, st, w) \<and> ret \<in> {OK, ERROR}"
proof -
  obtain b w1 where w1: "open_slots w = (b, w1)" by fastforce
  note o = open_slots_fds [OF w1]
  show ?thesis
  proof (cases b)
    case False
    then show ?thesis using w1 o by (simp add: nxboot_get_state_def)
  next
    case True
    have b1: "blocks_ok w1" using assms o by simp
    have close: "close_slots w1 = w" using o True close_slots_open [where w = w and l = "os_fds w"] by simp
    have some: "validate_image cfg s w1 \<noteq> None" "get_update_type cfg st p u r ph uh rh w1 \<noteq> None" for s st p u r ph uh rh
      using validate_returns [OF b1, of cfg s] update_type_returns [OF b1, of cfg st p u r ph uh rh] by auto
    show ?thesis
      unfolding nxboot_get_state_def w1 Let_def prod.case simp_thms(1) using True close
      by (simp only: simp_thms if_False) (intro bind_returns some, simp)
  qed
qed

lemma update_branch_returns:
  assumes "blocks_ok w"
  shows "\<exists>w'. update_branch cfg st check_only p u r w = Some w' \<and> flash_step w w'"
proof -
  have install: "\<exists>w'. do {
      update_valid \<leftarrow> validate_image cfg u w1;
      if update_valid then do {
        (ret, w) \<leftarrow> copy_partition u p st True w1;
        Some (if 0 \<le> ret then snd (flash_partition_erase_first_sector u w) else w)
      } else Some w1
    } = Some w' \<and> flash_step w1 w'" if w1: "blocks_ok w1" for w1
  proof -
    obtain b where b: "validate_image cfg u w1 = Some b" using validate_returns [OF w1] by blast
    obtain ret w2 where w2: "copy_partition u p st True w1 = Some (ret, w2)" "flash_step w1 w2"
      using copy_returns [OF w1] by blast
    show ?thesis
      using b w2 flash_step_trans [OF w2(2) flash_step_erase] by (cases b; cases "0 \<le> ret") simp_all
  qed
  obtain pv where pv: "validate_image cfg p w = Some pv" using validate_returns [OF assms] by blast
  obtain ret w1 where w1: "copy_partition p r st False w = Some (ret, w1)" "flash_step w w1"
    using copy_returns [OF assms] by blast
  have b1: "blocks_ok w1" using flash_step_blocks [OF w1(2) assms] .
  obtain rv where rv: "validate_image cfg r w1 = Some rv" using validate_returns [OF b1] by blast
  from install [OF assms] install [OF b1] show ?thesis
    unfolding update_branch_def pv Option.bind.bind_lunit using w1 rv flash_step_trans [OF w1(2)]
    by (cases "(\<not> st_recovery_present st \<or> \<not> st_recovery_valid st) \<and> st_primary_confirmed st \<and> pv"; cases rv; cases "pv \<and> check_only")
       auto
qed

lemma perform_update_returns:
  assumes "blocks_ok w"
  shows "\<exists>ret w'. perform_update cfg st check_only w = Some (ret, w') \<and> ret \<in> {OK, ERROR} \<and> flash_step w w'"
proof -
  obtain b w1 where w1: "open_slots w = (b, w1)" by fastforce
  note o = open_slots_fds [OF w1]
  show ?thesis
  proof (cases b)
    case False
    then show ?thesis using w1 o by (simp add: perform_update_def)
  next
    case True
    have b1: "blocks_ok w1" using assms o by simp
    have close: "flash_step w (close_slots w2)" if "flash_step w1 w2" for w2
      using that o True by (simp add: flash_step_def close_slots_def flash_partition_close_def)
    obtain pv where pv: "validate_image cfg 0 w1 = Some pv" using validate_returns [OF b1] by blast
    define u where "u = (if st_update st = NXBOOT_SECONDARY_SLOT_NUM then NXBOOT_SECONDARY_SLOT_NUM else NXBOOT_TERTIARY_SLOT_NUM)"
    define r where "r = (if st_update st = NXBOOT_SECONDARY_SLOT_NUM then NXBOOT_TERTIARY_SLOT_NUM else NXBOOT_SECONDARY_SLOT_NUM)"
    obtain w2 where w2: "update_branch cfg st check_only 0 u r w1 = Some w2" "flash_step w1 w2"
      using update_branch_returns [OF b1] by blast
    obtain ret w3 where w3: "copy_partition r 0 st False w1 = Some (ret, w3)" "flash_step w1 w3"
      using copy_returns [OF b1] by blast
    have ur: "(if st_update st = NXBOOT_SECONDARY_SLOT_NUM then (NXBOOT_SECONDARY_SLOT_NUM, NXBOOT_TERTIARY_SLOT_NUM)
        else (NXBOOT_TERTIARY_SLOT_NUM, NXBOOT_SECONDARY_SLOT_NUM)) = (u, r)" by (simp add: u_def r_def)
    define rev where "rev = (st_next_boot st = NXBOOT_UPDATE_TYPE_REVERT \<and> (\<not> check_only \<or> \<not> pv))"
    have "(if st_next_boot st = NXBOOT_UPDATE_TYPE_REVERT
        then if \<not> check_only then Some True else map_option Not (validate_image cfg 0 w1) else Some False) = Some rev"
      using pv by (simp add: rev_def)
    then have "perform_update cfg st check_only w =
        Some (OK, close_slots (if rev then if st_recovery_valid st then w3 else w1 else w2))"
      unfolding perform_update_def w1 Let_def prod.case ur using True w2 w3 by simp
    then show ?thesis using close w2(2) w3(2) by simp
  qed
qed

section \<open>The CRC of an image\<close>

text \<open>What the documentation of \<^verbatim>\<open>crc32part\<close> says: it continues the CRC of the bytes before.\<close>

definition crc_stream :: "(u8 list \<Rightarrow> u32 \<Rightarrow> u32) \<Rightarrow> bool" where
  "crc_stream f \<longleftrightarrow> (\<forall>c. f [] c = c) \<and> (\<forall>xs ys c. f (xs @ ys) c = f ys (f xs c))"

lemma crc_chunks_stream: "crc_stream f \<Longrightarrow> 0 < b \<Longrightarrow> crc_chunks f b xs c = f xs c"
proof (induction f b xs c rule: crc_chunks.induct)
  case (1 f b xs c)
  show ?case
  proof (cases "xs = []")
    case True
    then show ?thesis using 1 by (simp add: crc_chunks.simps crc_stream_def)
  next
    case False
    then have "crc_chunks f b xs c = f (drop b xs) (f (take b xs) c)"
      using 1 by (subst crc_chunks.simps) simp
    also have "\<dots> = f (take b xs @ drop b xs) c" using 1(2) unfolding crc_stream_def by metis
    finally show ?thesis by simp
  qed
qed

text \<open>The loop stops at the first block outside the partition.\<close>

lemma crc_loop_outside:
  assumes "nx_ok g w" "s < 3" "0 < b" "nx_size g < i + n" "i \<le> nx_size g" "i + n < 2 ^ 31 + 12"
  shows "crc_loop f s (int b) (int i) (int n) c w = Some 0xFFFFFFFF"
  using assms(4-6)
proof (induction n arbitrary: i c rule: less_induct)
  case (less n)
  define r where "r = min b n"
  have r: "(if int b < int n then int b else int n) = int r" "int n - int r = int (n - r)"
    "int i + int r = int (i + r)" "0 < int n" "n - r < n"
    using less.prems assms(3) by (auto simp: r_def)
  show ?case
  proof (cases "i + r \<le> nx_size g")
    case True
    have "nx_size g < i + r + (n - r)" "i + r + (n - r) < 2 ^ 31 + 12" using less.prems by (auto simp: r_def)
    then show ?thesis
      unfolding crc_loop.simps [of f s "int b" "int i" "int n"] Let_def r(1,2,3) read_ok [OF assms(1,2) True]
        option.case using less.IH [OF r(5) _ True] r(4) by simp
  next
    case False
    have "i + r < 2 ^ 32" using less.prems by (auto simp: r_def)
    then have "unat (geo_size g) < size_t (int r + int i)"
      using False size_t_add [of i r] geo_size_nat [OF nx_ok_geo [OF assms(1)]] by simp
    then have "flash_partition_read s (int r) (int i) w = None"
      by (simp add: flash_partition_read_def nx_ok_geometry [OF assms(1,2)])
    then show ?thesis
      unfolding crc_loop.simps [of f s "int b" "int i" "int n"] Let_def r(1) using r(4) by simp
  qed
qed

lemma crc_outside:
  assumes "nx_ok g w" "s < 3" "nx_size g < image_len (slot_bytes w s)" "image_len (slot_bytes w s) < 2 ^ 31"
  shows "calculate_crc cfg s (slot_header w s) w = Some 0xFFFFFFFF"
proof -
  let ?n = "image_len (slot_bytes w s)"
  have b: "0 < nx_block g" "12 \<le> nx_size g" using nx_ok_block [OF assms(1)] by linarith+
  obtain info where info: "flash_partition_info s w = Some info" "info_blocksize info = int (nx_block g)"
    using info_ok [OF assms(1,2)] by blast
  have m: "os_malloc w k" for k using assms(1) by (simp add: nx_ok_def)
  have n: "int ?n - 12 = int (?n - 12)" using assms(3) b(2) by linarith
  have "calculate_crc cfg s (slot_header w s) w
      = crc_loop (cfg_crc32part cfg) s (int (nx_block g)) (int 12) (int ?n - 12) 0xFFFFFFFF w"
    unfolding calculate_crc_def info option.case image_len_word(2) [OF assms(4)] using m by simp
  also have "\<dots> = crc_loop (cfg_crc32part cfg) s (int (nx_block g)) (int 12) (int (?n - 12)) 0xFFFFFFFF w"
    unfolding n ..
  also have "\<dots> = Some 0xFFFFFFFF"
    using assms(3,4) b by (intro crc_loop_outside [OF assms(1,2) b(1)]) linarith+
  finally show ?thesis .
qed

lemma update_type_revert:
  "get_update_type cfg st p u r ph uh rh w = Some NXBOOT_UPDATE_TYPE_REVERT \<Longrightarrow> st_recovery_valid st"
  by (auto simp: get_update_type_def split: bind_splits if_splits)

lemma pointer_cases: "m AND NXBOOT_RECOVERY_PTR_MASK \<in> {0, 1, 2, 3}"
proof -
  have "m AND NXBOOT_RECOVERY_PTR_MASK \<le> 3" using word_and_le1 [of m 3] by (simp add: NXBOOT_RECOVERY_PTR_MASK_def)
  then have "unat (m AND NXBOOT_RECOVERY_PTR_MASK) \<in> {0, 1, 2, 3}" by (auto simp: word_le_nat_alt)
  then show ?thesis by (auto simp: word_unat_eq_iff)
qed

section \<open>Properties\<close>

text \<open>
  C18: the bootloader always returns. Whatever fails, opening, reading, writing, erasing or
  allocating memory, \<^verbatim>\<open>nxboot_perform_update\<close> returns 0 or -1 and has closed every
  partition it opened, provided the block sizes the devices report are at least four.
\<close>

theorem perform_returns:
  assumes "blocks_ok w"
  shows "\<exists>ret w'. nxboot_perform_update cfg check_only w = Some (ret, w') \<and> ret \<in> {OK, ERROR} \<and> os_fds w' = os_fds w"
proof -
  obtain ret st where st: "nxboot_get_state cfg w = Some (ret, st, w)" "ret \<in> {OK, ERROR}"
    using state_returns [OF assms] by blast
  obtain ret1 w1 where w1: "(if st_next_boot st \<noteq> NXBOOT_UPDATE_TYPE_NONE then perform_update cfg st check_only w
      else Some (ret, w)) = Some (ret1, w1)" "ret1 \<in> {OK, ERROR}" "flash_step w w1"
    using perform_update_returns [OF assms, of cfg st check_only] st(2)
    by (cases "st_next_boot st = NXBOOT_UPDATE_TYPE_NONE") auto
  show ?thesis
    unfolding nxboot_perform_update_def st(1) Option.bind.bind_lunit prod.case w1(1)
    using w1(2,3) st(2)
    by (auto simp: flash_partition_open_def flash_partition_close_def flash_step_def Let_def)
qed


text \<open>
  C25: the CRC does not depend on the blocks. With a \<^verbatim>\<open>crc32part\<close> that continues the CRC of
  the bytes before, \<^verbatim>\<open>calculate_crc\<close> is the CRC of the image from the field after the CRC to
  its end, whatever the block size of the partition.
\<close>

theorem calculate_crc_whole:
  assumes "crc_stream (cfg_crc32part cfg)" "nx_ok g w" "s < 3" "image_len (slot_bytes w s) \<le> nx_size g"
  shows "calculate_crc cfg s (slot_header w s) w
    = Some (NOT (cfg_crc32part cfg (image_body (slot_bytes w s)) 0xFFFFFFFF))"
proof -
  have "0 < nx_block g" using nx_ok_block [OF assms(2)] by linarith
  then show ?thesis using crc_ok [OF assms(2,3,4), of cfg] crc_chunks_stream [OF assms(1)] by simp
qed

text \<open>
  C31: two kinds of image are accepted without a check of their contents. A header that
  claims at most 12 bytes is valid with the CRC 0, and one that claims more bytes than its
  partition has is valid with the CRC 0xffffffff, which \<^verbatim>\<open>calculate_crc\<close> returns for a read
  error.
\<close>

theorem unchecked_images:
  assumes "nx_ok g w" "s < 3" "validate_image_header cfg (slot_header w s)"
    and "image_len (slot_bytes w s) \<le> 12 \<and> hdr_crc (slot_header w s) = 0 \<or>
      nx_size g < image_len (slot_bytes w s) \<and> image_len (slot_bytes w s) < 2 ^ 31 \<and>
      hdr_crc (slot_header w s) = 0xFFFFFFFF"
  shows "validate_image cfg s w = Some True"
  using assms(4)
proof
  assume *: "image_len (slot_bytes w s) \<le> 12 \<and> hdr_crc (slot_header w s) = 0"
  then have "image_len (slot_bytes w s) \<le> nx_size g" using nx_ok_block [OF assms(1)] by linarith
  from crc_ok [OF assms(1,2) this, of cfg] show ?thesis
    using assms(3) * by (simp add: validate_image_def get_header_ok [OF assms(1,2)] image_body_def crc_chunks.simps)
next
  assume *: "nx_size g < image_len (slot_bytes w s) \<and> image_len (slot_bytes w s) < 2 ^ 31 \<and>
    hdr_crc (slot_header w s) = 0xFFFFFFFF"
  with crc_outside [OF assms(1,2), of cfg] show ?thesis
    using assms(3) by (simp add: validate_image_def get_header_ok [OF assms(1,2)])
qed

text \<open>
  C32: downgrades are not prevented. With \<^verbatim>\<open>CONFIG_NXBOOT_PREVENT_DOWNGRADE\<close> an image of an older
  version is still installed over a newer one, because a different CRC is enough for an
  update.
\<close>

theorem downgrade_installed:
  assumes w: "update_ready cfg g w" and "cfg_prevent_downgrade cfg"
    and older: "ver_major (hdr_img_version (slot_header w (update_slot w))) < ver_major (hdr_img_version (slot_header w 0))"
  shows "\<exists>w1. nxboot_perform_update cfg False w = Some (OK, w1) \<and>
    ver_major (hdr_img_version (slot_header w1 0)) < ver_major (hdr_img_version (slot_header w 0))"
proof -
  from update_installed [OF w refl refl] obtain w1 where w1: "nxboot_perform_update cfg False w = Some (OK, w1)"
    "slot_bytes w1 0 = copied (copy_len g (slot_bytes w (update_slot w))) (NXBOOT_HEADER_MAGIC_INT OR of_nat (update_slot w))
      (slot_bytes w (update_slot w)) (slot_bytes w 0)"
    "slot_bytes w1 (other_slot (update_slot w)) =
      copied (copy_len g (slot_bytes w 0)) NXBOOT_HEADER_MAGIC_INT (slot_bytes w 0) (slot_bytes w (other_slot (update_slot w)))"
    "slot_bytes w1 (update_slot w) = erase_sector g (slot_bytes w (update_slot w))" by (elim exE conjE)
  from installed_headers(1) [OF w refl refl w1(2-4)] show ?thesis using w1(1) older by simp
qed

text \<open>
  C33: a loss of power can confirm an image. Between copying the new image to the primary
  slot and erasing the first sector of its slot, the CRCs of both slots agree, which is how
  \<^verbatim>\<open>nxboot_get_state\<close> recognises a confirmed image: an image that never ran counts as
  confirmed and is not reverted.
\<close>

theorem early_confirmation:
  assumes w: "update_ready cfg g w" "\<not> cfg_prevent_downgrade cfg" and u: "u = update_slot w" "st_update st = u"
  shows "\<exists>w1 st1. copy_partition u NXBOOT_PRIMARY_SLOT_NUM st True w = Some (OK, w1) \<and>
    nxboot_get_state cfg w1 = Some (OK, st1, w1) \<and> st_primary_confirmed st1 \<and>
    st_next_boot st1 = NXBOOT_UPDATE_TYPE_NONE"
proof -
  have ok: "nx_ok g w" "slots_fit cfg g w" "os_power w = None" "slot_valid cfg g w u"
    and magic: "hdr_magic (slot_header w u) = NXBOOT_HEADER_MAGIC" using w u by (simp_all add: update_ready_def)
  have s: "u < 3" "(0::nat) < 3" "u \<noteq> 0" "u = 1 \<or> u = 2" using update_slot_cases [of w] u by auto
  let ?m = "NXBOOT_HEADER_MAGIC_INT OR of_nat u"
  have mm: "?m = NXBOOT_HEADER_MAGIC \<or> IS_INTERNAL_MAGIC ?m" using s(4) by auto
  from copy_valid [where upd = True and st = st and m = ?m, OF ok(1,2) s(1,2,3) ok(4) _ mm] magic u(2) obtain w1 where
    w1: "copy_partition u 0 st True w = Some (OK, w1)" "slot_run 0 w w1" "nx_ok g w1" "slots_fit cfg g w1"
      "powered w1 \<longrightarrow> slot_valid cfg g w1 0 \<and> slot_header w1 0 = (slot_header w u)\<lparr>hdr_magic := ?m\<rparr>" by auto
  have "powered w1" using slot_run_None [OF w1(2)] ok(3) by (simp add: powered_def)
  then have h: "slot_valid cfg g w1 0" "slot_header w1 0 = (slot_header w u)\<lparr>hdr_magic := ?m\<rparr>" using w1(5) by simp_all
  have same: "slot_bytes w1 1 = slot_bytes w 1" "slot_bytes w1 2 = slot_bytes w 2" "slot_bytes w1 u = slot_bytes w u"
    using slot_run_other [OF w1(2)] s by simp_all
  have sel: "update_slot w1 = u"
    using magic s(4) u same by (auto simp: update_slot_def select_update_def split: if_splits)
  have conf: "primary_confirmed (slot_header w1 0) (slot_header w1 1) (slot_header w1 2)"
    using h same s(4) by (auto simp: primary_confirmed_def)
  have "boot_type cfg g w1 = NXBOOT_UPDATE_TYPE_NONE"
    unfolding boot_type_def Let_def sel next_type_def using conf h same w(2) by (simp add: compare_versions_def)
  then show ?thesis using w1(1) get_state_ok [OF w1(3,4)] conf by (simp add: boot_state_def Let_def)
qed

text \<open>
  \<^verbatim>\<open>nxboot_get_confirm\<close> and \<^verbatim>\<open>nxboot_get_state\<close> agree on whether the image in the primary slot
  is confirmed, unless the pointer in its magic number names the slot 3, which does not
  exist.
\<close>

theorem get_confirm_agrees:
  assumes ok: "nx_ok g w" "slots_fit cfg g w" and ptr: "hdr_magic (slot_header w 0) AND NXBOOT_RECOVERY_PTR_MASK \<noteq> 3"
  shows "\<exists>st. nxboot_get_state cfg w = Some (OK, st, w) \<and>
    nxboot_get_confirm w = (if st_primary_confirmed st then 1 else 0, w)"
proof -
  let ?m = "hdr_magic (slot_header w 0)" and ?w = "w\<lparr>os_fds := 0 # os_fds w\<rparr>"
  have op: "flash_partition_open 0 w = (Some 0, ?w)"
    "flash_partition_open (Suc 0) ?w = (Some (Suc 0), w\<lparr>os_fds := Suc 0 # 0 # os_fds w\<rparr>)"
    "flash_partition_open 2 ?w = (Some 2, w\<lparr>os_fds := 2 # 0 # os_fds w\<rparr>)"
    using nx_ok_part [OF ok(1), of 0] nx_ok_part [OF ok(1), of "Suc 0"] nx_ok_part [OF ok(1), of 2]
    by (simp_all add: flash_partition_open_def part_ok_def)
  have h: "get_image_header 0 ?w = slot_header w 0"
    "get_image_header (Suc 0) (w\<lparr>os_fds := Suc 0 # 0 # os_fds w\<rparr>) = slot_header w (Suc 0)"
    "get_image_header 2 (w\<lparr>os_fds := 2 # 0 # os_fds w\<rparr>) = slot_header w 2"
    using get_header_ok [OF nx_ok_fds [OF ok(1)]] by simp_all
  have "?m AND NXBOOT_RECOVERY_PTR_MASK \<in> {0, 1, 2, 3}" by (rule pointer_cases)
  then consider "?m AND NXBOOT_RECOVERY_PTR_MASK = 0" | "?m AND NXBOOT_RECOVERY_PTR_MASK = 1" | "?m AND NXBOOT_RECOVERY_PTR_MASK = 2"
    using ptr by auto
  then have "nxboot_get_confirm w =
      (if primary_confirmed (slot_header w 0) (slot_header w 1) (slot_header w 2) then 1 else 0, w)"
    by cases (simp_all add: nxboot_get_confirm_def op h primary_confirmed_def flash_partition_close_def Let_def)
  then show ?thesis using get_state_ok [OF ok] by (simp add: boot_state_def Let_def)
qed

end
