(* ===== verification/NxExample.thy ===== *)
theory NxExample
  imports NxErrors
begin

text \<open>
  A small instance of the bootloader: three partitions of two sectors of 128 bytes, images
  with four bytes behind their header and a checksum in the place of \<^verbatim>\<open>crc32part\<close>. The
  properties of the bootloader are applied to it.
\<close>

definition ex_crc :: "u8 list \<Rightarrow> u32 \<Rightarrow> u32" where
  "ex_crc xs c = foldl (\<lambda>c b. c + ucast b) c xs"

definition ex_cfg :: "bool \<Rightarrow> nx_cfg" where
  "ex_cfg p = \<lparr>cfg_crc32part = ex_crc, cfg_identifier = 0, cfg_prevent_downgrade = p\<rparr>"

definition ex_geo :: mtd_geometry where
  "ex_geo = \<lparr>geo_blocksize = 128, geo_erasesize = 128, geo_neraseblocks = 2\<rparr>"

definition ex_image :: "u32 \<Rightarrow> u32 \<Rightarrow> u8 \<Rightarrow> u8 \<Rightarrow> u8 list" where
  "ex_image magic crc ver x = le32_bytes magic @ [1, 0, 128, 0] @ le32_bytes crc @ [4, 0, 0, 0] @ replicate 12 0 @
     [ver, 0, 0, 0, 0, 0] @ replicate 94 0 @ [x, 0, 0, 0] @ replicate 124 0xFF"

definition ex_old :: "u8 list" where "ex_old = ex_image NXBOOT_HEADER_MAGIC 0xFFFFFFF1 1 10"

definition ex_new :: "u8 list" where "ex_new = ex_image NXBOOT_HEADER_MAGIC 0xFFFFFFE6 2 20"

definition ex_empty :: "u8 list" where "ex_empty = replicate 256 0xFF"

definition ex_part :: "u8 list \<Rightarrow> partition" where
  "ex_part bs = \<lparr>pt_open = True, pt_geometry = Some ex_geo, pt_bytes = bs, pt_read = \<lambda>i n. n, pt_write = \<lambda>i n. n,
     pt_erase = True\<rparr>"

definition ex_world :: "u8 list \<Rightarrow> u8 list \<Rightarrow> u8 list \<Rightarrow> nx_os" where
  "ex_world p s t = \<lparr>os_part = (\<lambda>i. ex_part (if i = 0 then p else if i = 1 then s else t)), os_fds = [],
     os_malloc = \<lambda>n. True, os_power = None\<rparr>"

lemma ex_bytes [simp]:
  "pt_bytes (os_part (ex_world p s t) 0) = p" "pt_bytes (os_part (ex_world p s t) (Suc 0)) = s"
  "pt_bytes (os_part (ex_world p s t) 2) = t" "os_power (ex_world p s t) = None"
  by (simp_all add: ex_world_def ex_part_def)

lemma ex_image_bytes:
  "ex_image magic crc ver x = le32_bytes magic @ [1, 0, 128, 0] @ le32_bytes crc @
     ([4, 0, 0, 0] @ replicate 12 0 @ [ver, 0, 0, 0, 0, 0] @ replicate 94 0 @ [x, 0, 0, 0]) @ replicate 124 0xFF"
  by (simp add: ex_image_def)

lemma ex_header:
  "hdr_magic (header_of (ex_image magic crc ver x)) = magic" "hdr_crc (header_of (ex_image magic crc ver x)) = crc"
  "hdr_identifier (header_of (ex_image magic crc ver x)) = 0" "image_len (ex_image magic crc ver x) = 132"
  "ver_major (hdr_img_version (header_of (ex_image magic crc ver x))) = ucast ver"
proof -
  have r: "replicate 12 (0 :: u8) = [0, 0, 0, 0, 0, 0, 0, 0, 0, 0, 0, 0]" by (simp add: eval_nat_numeral)
  have "ex_image magic crc ver x = relabel magic (ex_image 0 crc ver x)" by (simp add: ex_image_def relabel_def)
  then show "hdr_magic (header_of (ex_image magic crc ver x)) = magic" by (simp add: header_of_def le32_relabel)
  have "drop 8 (ex_image magic crc ver x) = relabel crc (drop 8 (ex_image magic 0 ver x))"
    by (simp add: ex_image_def relabel_def)
  then have "le32 (drop 8 (ex_image magic crc ver x)) 0 = crc" by (simp add: le32_relabel)
  then show "hdr_crc (header_of (ex_image magic crc ver x)) = crc"
    by (simp add: header_of_def le32_def le16_def ex_image_def le32_bytes_def)
  show "hdr_identifier (header_of (ex_image magic crc ver x)) = 0"
    unfolding ex_image_def r by (simp add: header_of_def le64_def le32_def le16_def le32_bytes_def)
  show "image_len (ex_image magic crc ver x) = 132"
    unfolding ex_image_def r by (simp add: image_len_def header_of_def le32_def le16_def le32_bytes_def)
  show "ver_major (hdr_img_version (header_of (ex_image magic crc ver x))) = ucast ver"
    unfolding ex_image_def r by (simp add: header_of_def le32_def le16_def le32_bytes_def)
qed

lemma ex_image_length: "length (ex_image magic crc ver x) = 256"
  by (simp add: ex_image_def)

lemma ex_body:
  "image_body (ex_image magic crc ver x)
     = [4, 0, 0, 0] @ replicate 12 0 @ [ver, 0, 0, 0, 0, 0] @ replicate 94 0 @ [x, 0, 0, 0]"
  unfolding image_body_def ex_header(4) by (simp add: ex_image_bytes)

lemma ex_crc_zeros: "foldl (\<lambda>c b. c + ucast b) c (replicate n (0 :: u8)) = (c :: u32)"
  by (induction n) simp_all

lemma ex_image_valid:
  assumes "crc = NOT (0xFFFFFFFF + 4 + ucast ver + ucast x)"
  shows "image_valid (ex_cfg b) ex_geo (ex_image NXBOOT_HEADER_MAGIC crc ver x)"
proof -
  let ?xs = "[4, 0, 0, 0] @ replicate 12 0 @ [ver, 0, 0, 0, 0, 0] @ replicate 94 0 @ [x, 0, 0, 0]"
  have "crc_chunks ex_crc 128 ?xs 0xFFFFFFFF = ex_crc ?xs 0xFFFFFFFF"
    by (subst crc_chunks.simps) (simp add: crc_chunks.simps [of _ _ "[]"])
  also have "\<dots> = 0xFFFFFFFF + 4 + ucast ver + ucast x"
    by (simp add: ex_crc_def ex_crc_zeros)
  finally show ?thesis
    using assms unfolding image_valid_def ex_body
    by (simp add: validate_image_header_def ex_header ex_cfg_def ex_geo_def)
qed

lemma ex_image_fits: "image_fits (ex_cfg b) ex_geo (ex_image magic crc ver x)"
  by (simp add: image_fits_def ex_header nx_size_def ex_geo_def)

lemma ex_old_new:
  "image_valid (ex_cfg b) ex_geo ex_old" "image_valid (ex_cfg b) ex_geo ex_new"
  "hdr_magic (header_of ex_old) = NXBOOT_HEADER_MAGIC" "hdr_magic (header_of ex_new) = NXBOOT_HEADER_MAGIC"
  "hdr_crc (header_of ex_old) = 0xFFFFFFF1" "hdr_crc (header_of ex_new) = 0xFFFFFFE6"
  "ver_major (hdr_img_version (header_of ex_old)) = 1" "ver_major (hdr_img_version (header_of ex_new)) = 2"
  "length ex_old = 256" "length ex_new = 256" "image_len ex_old = 132" "image_len ex_new = 132"
  by (simp_all add: ex_old_def ex_new_def ex_image_valid ex_header ex_image_length)

lemma ex_empty_header:
  "hdr_magic (header_of ex_empty) = 0xFFFFFFFF" "hdr_crc (header_of ex_empty) = 0xFFFFFFFF" "length ex_empty = 256"
  by (simp_all add: ex_empty_def header_of_def le32_def le16_def)

lemma ex_ok:
  assumes "length p = 256" "length s = 256" "length t = 256"
  shows "nx_ok ex_geo (ex_world p s t)"
proof -
  have "nx_geo ex_geo" "nx_size ex_geo = 256" by (simp_all add: nx_geo_def nx_size_def ex_geo_def)
  then show ?thesis using assms by (simp add: nx_ok_def part_ok_def ex_world_def ex_part_def)
qed

lemma ex_slots_fit:
  assumes "p \<in> {ex_old, ex_new}" "s \<in> {ex_old, ex_new}"
  shows "slots_fit (ex_cfg b) ex_geo (ex_world p s ex_empty)"
proof -
  have "image_fits (ex_cfg b) ex_geo ex_empty"
    by (simp add: image_fits_def validate_image_header_def ex_empty_header)
  moreover have "image_fits (ex_cfg b) ex_geo ex_old" "image_fits (ex_cfg b) ex_geo ex_new"
    by (simp_all add: ex_old_def ex_new_def ex_image_fits)
  ultimately show ?thesis using assms by (auto simp: slots_fit_def ex_world_def ex_part_def)
qed

lemma ex_update_slot:
  "s \<in> {ex_old, ex_new} \<Longrightarrow> update_slot (ex_world p s ex_empty) = 1"
  by (auto simp: update_slot_def select_update_def ex_old_new ex_empty_header)

lemma ex_ready: "update_ready (ex_cfg b) ex_geo (ex_world ex_old ex_new ex_empty)"
  using ex_slots_fit [of ex_old ex_new b] ex_ok [of ex_old ex_new ex_empty]
  by (simp add: update_ready_def ex_update_slot ex_old_new ex_empty_header)

lemma ex_ready_old: "update_ready (ex_cfg b) ex_geo (ex_world ex_new ex_old ex_empty)"
  using ex_slots_fit [of ex_new ex_old b] ex_ok [of ex_new ex_old ex_empty]
  by (simp add: update_ready_def ex_update_slot ex_old_new ex_empty_header)

lemma ex_inv: "boot_inv (ex_cfg b) ex_geo (ex_world ex_old ex_new ex_empty)"
  using ex_ready [of b]
  by (simp add: update_ready_def boot_inv_def bootable_def slots_distinct_def ex_empty_header)

section \<open>Witnesses\<close>

theorem power_loss_safe_witness:
  "\<exists>w1 w2. nx_boots (ex_cfg False) (ex_world ex_old ex_new ex_empty) w1 \<and>
    nxboot_perform_update (ex_cfg False) True (w1\<lparr>os_power := None\<rparr>) = Some (OK, w2) \<and>
    validate_image (ex_cfg False) NXBOOT_PRIMARY_SLOT_NUM w2 = Some True"
proof -
  let ?w = "ex_world ex_old ex_new ex_empty"
  obtain ret w1 where "nxboot_perform_update (ex_cfg False) False (?w\<lparr>os_power := Some 3\<rparr>) = Some (ret, w1)"
    using perform_safe [OF boot_inv_power [OF ex_inv [of False], of "Some 3"], of False] by auto
  then have "nx_boots (ex_cfg False) ?w w1" by (rule nx_boots.boot [OF nx_boots.none])
  then show ?thesis using power_loss_safe [OF ex_inv, of False w1 True] by blast
qed

theorem update_reverts_witness:
  "\<exists>w1 w2. nxboot_perform_update (ex_cfg False) False (ex_world ex_old ex_new ex_empty) = Some (OK, w1) \<and>
    image_body (slot_bytes w1 0) = image_body ex_new \<and>
    nxboot_perform_update (ex_cfg False) False w1 = Some (OK, w2) \<and> image_body (slot_bytes w2 0) = image_body ex_old"
  using update_reverts [OF ex_ready refl, of False] by (auto simp: ex_update_slot ex_old_new)

theorem update_confirmed_witness:
  "\<exists>w1 w2. nxboot_perform_update (ex_cfg False) False (ex_world ex_old ex_new ex_empty) = Some (OK, w1) \<and>
    nxboot_confirm (ex_cfg False) w1 = Some (OK, w2) \<and>
    nxboot_get_state (ex_cfg False) w2 = Some (OK, \<lparr>st_update = 2, st_recovery = 1, st_recovery_valid = True,
      st_recovery_present = True, st_primary_confirmed = True, st_next_boot = NXBOOT_UPDATE_TYPE_NONE\<rparr>, w2)"
  using update_confirmed [OF ex_ready refl, of False] by (auto simp: ex_update_slot ex_old_new)

theorem perform_returns_witness:
  "\<exists>ret w'. nxboot_perform_update (ex_cfg False) False (ex_world ex_old [] []) = Some (ret, w') \<and>
    ret \<in> {OK, ERROR} \<and> os_fds w' = []"
  using perform_returns [of "ex_world ex_old [] []" "ex_cfg False" False]
  by (simp add: blocks_ok_def ex_world_def ex_part_def ex_geo_def)


theorem calculate_crc_whole_witness:
  "calculate_crc (ex_cfg False) 1 (header_of ex_new) (ex_world ex_old ex_new ex_empty)
    = Some (NOT (ex_crc (image_body ex_new) 0xFFFFFFFF))"
proof -
  have "crc_stream ex_crc" by (simp add: crc_stream_def ex_crc_def)
  then show ?thesis
    using calculate_crc_whole [of "ex_cfg False" ex_geo "ex_world ex_old ex_new ex_empty" 1]
      ex_ok [of ex_old ex_new ex_empty]
    by (simp add: ex_cfg_def ex_old_new ex_empty_header nx_size_def ex_geo_def)
qed

text \<open>A header with nothing behind it, and one that claims more bytes than a partition has.\<close>

definition ex_tiny :: "u8 list" where
  "ex_tiny = le32_bytes NXBOOT_HEADER_MAGIC @ replicate 252 0"

theorem unchecked_images_witness:
  "validate_image (ex_cfg False) 0 (ex_world ex_tiny ex_new ex_empty) = Some True"
proof -
  have r: "ex_tiny = relabel NXBOOT_HEADER_MAGIC (replicate 256 0)" by (simp add: ex_tiny_def relabel_def)
  have h: "header_of ex_tiny = (header_of (replicate 256 0))\<lparr>hdr_magic := NXBOOT_HEADER_MAGIC\<rparr>"
    unfolding r by (rule header_relabel) simp
  show ?thesis
    using ex_ok [of ex_tiny ex_new ex_empty]
    by (intro unchecked_images [of ex_geo])
       (simp_all add: ex_old_new ex_empty_header h image_len_def validate_image_header_def ex_cfg_def, simp_all add: ex_tiny_def
        header_of_def le64_def le32_def le16_def)
qed

theorem downgrade_installed_witness:
  "\<exists>w1. nxboot_perform_update (ex_cfg True) False (ex_world ex_new ex_old ex_empty) = Some (OK, w1) \<and>
    ver_major (hdr_img_version (slot_header w1 0)) < 2"
  using downgrade_installed [OF ex_ready_old, of True] by (simp add: ex_update_slot ex_old_new ex_cfg_def)

theorem early_confirmation_witness:
  "\<exists>w1 st1. copy_partition 1 0 (state_zero\<lparr>st_update := 1\<rparr>) True (ex_world ex_old ex_new ex_empty) = Some (OK, w1) \<and>
    nxboot_get_state (ex_cfg False) w1 = Some (OK, st1, w1) \<and> st_primary_confirmed st1 \<and>
    st_next_boot st1 = NXBOOT_UPDATE_TYPE_NONE"
  using early_confirmation [OF ex_ready, of False 1 "state_zero\<lparr>st_update := 1\<rparr>"]
  by (simp add: ex_update_slot ex_cfg_def)

theorem get_confirm_agrees_witness:
  "\<exists>st. nxboot_get_state (ex_cfg False) (ex_world ex_old ex_new ex_empty)
      = Some (OK, st, ex_world ex_old ex_new ex_empty) \<and>
    nxboot_get_confirm (ex_world ex_old ex_new ex_empty)
      = (if st_primary_confirmed st then 1 else 0, ex_world ex_old ex_new ex_empty)"
  using ex_ready [of False]
  by (intro get_confirm_agrees [of ex_geo])
     (simp_all add: update_ready_def NXBOOT_RECOVERY_PTR_MASK_def, simp add: NXBOOT_HEADER_MAGIC_def)

end
