(* ===== verification/ByteOrder.thy ===== *)
theory ByteOrder
  imports Prelude
begin

text \<open>
  Variables and their memory, on a little endian host, and the conversions between host and
  network order. The network programs and the hash functions go back and forth between the two.
\<close>

text \<open>The memory of a 16-bit and of a 32-bit variable, as \<^verbatim>\<open>memcpy\<close> reads and writes it.\<close>

definition mem16 :: "u16 \<Rightarrow> u8 list" where
  "mem16 w = [lo8 w, hi8 w]"

definition of_mem16 :: "u8 list \<Rightarrow> u16" where
  "of_mem16 bs = be16 (bs ! 1) (bs ! 0)"

definition mem32 :: "u32 \<Rightarrow> u8 list" where
  "mem32 w = [ucast w, ucast (drop_bit 8 w), ucast (drop_bit 16 w), ucast (drop_bit 24 w)]"

definition of_mem32 :: "u8 list \<Rightarrow> u32" where
  "of_mem32 bs = ucast (bs ! 0) OR push_bit 8 (ucast (bs ! 1)) OR push_bit 16 (ucast (bs ! 2))
                 OR push_bit 24 (ucast (bs ! 3))"

definition htons :: "u16 \<Rightarrow> u16" where
  "htons w = of_mem16 (rev (mem16 w))"

definition htonl :: "u32 \<Rightarrow> u32" where
  "htonl w = of_mem32 (rev (mem32 w))"

abbreviation (input) ntohs :: "u16 \<Rightarrow> u16" where "ntohs \<equiv> htons"
abbreviation (input) ntohl :: "u32 \<Rightarrow> u32" where "ntohl \<equiv> htonl"

lemma length_mem [simp]: "length (mem16 w) = 2" "length (mem32 v) = 4"
  by (simp_all add: mem16_def mem32_def)

lemma of_mem16_mem16 [simp]: "of_mem16 (mem16 w) = w"
  by (simp add: of_mem16_def mem16_def)

lemma length2E: "length bs = 2 \<Longrightarrow> \<exists>a b. bs = [a, b]"
  by (auto simp: length_Suc_conv numeral_2_eq_2)

lemma length4E: "length bs = 4 \<Longrightarrow> \<exists>a b c d. bs = [a, b, c, d]"
  by (auto simp: length_Suc_conv eval_nat_numeral)

lemma mem16_of_mem16 [simp]: "length bs = 2 \<Longrightarrow> mem16 (of_mem16 bs) = bs"
  by (drule length2E) (auto simp: of_mem16_def mem16_def)

lemma bit_of_mem32:
  "bit (of_mem32 bs) n \<longleftrightarrow> n < 32 \<and>
     (if n < 8 then bit (bs ! 0) n else if n < 16 then bit (bs ! 1) (n - 8)
      else if n < 24 then bit (bs ! 2) (n - 16) else bit (bs ! 3) (n - 24))"
  by (auto simp: of_mem32_def bit_simps dest: bit_imp_le_length)

lemma of_mem32_mem32 [simp]: "of_mem32 (mem32 w) = w"
  by (rule bit_word_eqI) (auto simp: bit_of_mem32 mem32_def bit_simps dest: bit_imp_le_length)

lemma mem32_of_mem32 [simp]:
  assumes "length bs = 4"
  shows "mem32 (of_mem32 bs) = bs"
proof -
  obtain a b c d where bs: "bs = [a, b, c, d]" using length4E [OF assms] by blast
  have "ucast (of_mem32 bs) = a" "ucast (drop_bit 8 (of_mem32 bs)) = b"
    "ucast (drop_bit 16 (of_mem32 bs)) = c" "ucast (drop_bit 24 (of_mem32 bs)) = d"
    by (rule bit_word_eqI; auto simp: bit_of_mem32 bs bit_simps dest: bit_imp_le_length)+
  then show ?thesis by (simp add: mem32_def bs)
qed

lemma mem32_inj [simp]: "mem32 a = mem32 b \<longleftrightarrow> a = b"
  by (metis of_mem32_mem32)

lemma mem32_htonl [simp]: "mem32 (htonl w) = rev (mem32 w)"
  by (simp add: htonl_def)

lemma htonl_htonl [simp]: "htonl (htonl w) = w"
  unfolding htonl_def [of "htonl w"] by simp

lemma htonl_inj [simp]: "htonl a = htonl b \<longleftrightarrow> a = b"
  by (metis htonl_htonl)

lemma htonl_0 [simp]: "htonl 0 = 0"
  by (simp add: htonl_def mem32_def of_mem32_def)

lemma htonl_eq_0 [simp]: "htonl w = 0 \<longleftrightarrow> w = 0"
  by (metis htonl_0 htonl_htonl)

lemma mem32_0: "mem32 0 = [0, 0, 0, 0]"
  by (simp add: mem32_def)

lemma mem32_eq_0: "mem32 w = [0, 0, 0, 0] \<longleftrightarrow> w = 0"
  by (metis mem32_0 mem32_inj)

end
