(* ===== verification/DhcpTypes.thy ===== *)
theory DhcpTypes
  imports ByteOrder
begin

text \<open>
  What the DHCP server and the DHCP client share: the constants
  of the protocol and the message, which both files declare with the same layout
  (\<^verbatim>\<open>struct dhcpmsg_s\<close> of \<^verbatim>\<open>netutils/dhcpd/dhcpd.c\<close> and \<^verbatim>\<open>struct dhcp_msg\<close> of
  \<^verbatim>\<open>netutils/dhcpc/dhcpc.c\<close>, without \<^verbatim>\<open>CONFIG_NET_DHCP_LIGHT\<close>).
\<close>

section \<open>The protocol\<close>

abbreviation (input) DHCP_OPTION_PAD :: u8 where "DHCP_OPTION_PAD \<equiv> 0"
abbreviation (input) DHCP_OPTION_SUBNET_MASK :: u8 where "DHCP_OPTION_SUBNET_MASK \<equiv> 1"
abbreviation (input) DHCP_OPTION_ROUTER :: u8 where "DHCP_OPTION_ROUTER \<equiv> 3"
abbreviation (input) DHCP_OPTION_DNS_SERVER :: u8 where "DHCP_OPTION_DNS_SERVER \<equiv> 6"
abbreviation (input) DHCP_OPTION_HOST_NAME :: u8 where "DHCP_OPTION_HOST_NAME \<equiv> 12"
abbreviation (input) DHCP_OPTION_REQ_IPADDR :: u8 where "DHCP_OPTION_REQ_IPADDR \<equiv> 50"
abbreviation (input) DHCP_OPTION_LEASE_TIME :: u8 where "DHCP_OPTION_LEASE_TIME \<equiv> 51"
abbreviation (input) DHCP_OPTION_OVERLOAD :: u8 where "DHCP_OPTION_OVERLOAD \<equiv> 52"
abbreviation (input) DHCP_OPTION_MSG_TYPE :: u8 where "DHCP_OPTION_MSG_TYPE \<equiv> 53"
abbreviation (input) DHCP_OPTION_SERVER_ID :: u8 where "DHCP_OPTION_SERVER_ID \<equiv> 54"
abbreviation (input) DHCP_OPTION_REQ_LIST :: u8 where "DHCP_OPTION_REQ_LIST \<equiv> 55"
abbreviation (input) DHCP_OPTION_CLIENT_ID :: u8 where "DHCP_OPTION_CLIENT_ID \<equiv> 61"
abbreviation (input) DHCP_OPTION_END :: u8 where "DHCP_OPTION_END \<equiv> 255"

abbreviation (input) DHCP_REQUEST :: u8 where "DHCP_REQUEST \<equiv> 1"
abbreviation (input) DHCP_REPLY :: u8 where "DHCP_REPLY \<equiv> 2"

abbreviation (input) DHCPDISCOVER :: u8 where "DHCPDISCOVER \<equiv> 1"
abbreviation (input) DHCPOFFER :: u8 where "DHCPOFFER \<equiv> 2"
abbreviation (input) DHCPREQUEST :: u8 where "DHCPREQUEST \<equiv> 3"
abbreviation (input) DHCPDECLINE :: u8 where "DHCPDECLINE \<equiv> 4"
abbreviation (input) DHCPACK :: u8 where "DHCPACK \<equiv> 5"
abbreviation (input) DHCPNAK :: u8 where "DHCPNAK \<equiv> 6"
abbreviation (input) DHCPRELEASE :: u8 where "DHCPRELEASE \<equiv> 7"

abbreviation (input) DHCPD_OPTIONS_SIZE :: nat where "DHCPD_OPTIONS_SIZE \<equiv> 312"
abbreviation (input) INADDR_BROADCAST :: u32 where "INADDR_BROADCAST \<equiv> 0xFFFFFFFF"
abbreviation (input) BOOTP_BROADCAST :: u16 where "BOOTP_BROADCAST \<equiv> 0x8000"

definition g_magiccookie :: "u8 list" where
  "g_magiccookie = [99, 130, 83, 99]"

lemma length_magiccookie [simp]: "length g_magiccookie = 4"
  by (simp add: g_magiccookie_def)

section \<open>Messages\<close>

record dhcpmsg_s =
  m_op :: u8
  m_htype :: u8
  m_hlen :: u8
  m_hops :: u8
  m_xid :: "u8 list"
  m_secs :: u16
  m_flags :: u16
  m_ciaddr :: "u8 list"
  m_yiaddr :: "u8 list"
  m_siaddr :: "u8 list"
  m_giaddr :: "u8 list"
  m_chaddr :: "u8 list"
  m_sname :: "u8 list"
  m_file :: "u8 list"
  m_options :: "u8 list"

text \<open>The memory of the structure, its arrays of the declared lengths, and the message of zeros.\<close>

definition msg_bytes :: "dhcpmsg_s \<Rightarrow> u8 list" where
  "msg_bytes m = [m_op m, m_htype m, m_hlen m, m_hops m] @ m_xid m @ mem16 (m_secs m) @ mem16 (m_flags m) @
     m_ciaddr m @ m_yiaddr m @ m_siaddr m @ m_giaddr m @ m_chaddr m @ m_sname m @ m_file m @ m_options m"

definition msg_of_bytes :: "u8 list \<Rightarrow> dhcpmsg_s" where
  "msg_of_bytes bs = \<lparr>m_op = bs ! 0, m_htype = bs ! 1, m_hlen = bs ! 2, m_hops = bs ! 3,
     m_xid = take 4 (drop 4 bs), m_secs = of_mem16 (take 2 (drop 8 bs)), m_flags = of_mem16 (take 2 (drop 10 bs)),
     m_ciaddr = take 4 (drop 12 bs), m_yiaddr = take 4 (drop 16 bs), m_siaddr = take 4 (drop 20 bs),
     m_giaddr = take 4 (drop 24 bs), m_chaddr = take 16 (drop 28 bs), m_sname = take 64 (drop 44 bs),
     m_file = take 128 (drop 108 bs), m_options = take 312 (drop 236 bs)\<rparr>"

definition wf_msg :: "dhcpmsg_s \<Rightarrow> bool" where
  "wf_msg m \<longleftrightarrow> length (m_xid m) = 4 \<and> length (m_ciaddr m) = 4 \<and> length (m_yiaddr m) = 4 \<and>
     length (m_siaddr m) = 4 \<and> length (m_giaddr m) = 4 \<and> length (m_chaddr m) = 16 \<and>
     length (m_sname m) = 64 \<and> length (m_file m) = 128 \<and> length (m_options m) = 312"

definition zero_msg :: dhcpmsg_s where
  "zero_msg = msg_of_bytes (replicate 548 0)"

text \<open>
  A \<^verbatim>\<open>recv\<close> into the structure: what arrived overwrites the beginning of the memory, as far as
  the structure goes, and the rest keeps what it held.
\<close>

definition recv_into :: "u8 list \<Rightarrow> dhcpmsg_s \<Rightarrow> dhcpmsg_s" where
  "recv_into bs m = msg_of_bytes (take 548 bs @ drop (length bs) (msg_bytes m))"

lemma length_msg_bytes [simp]: "wf_msg m \<Longrightarrow> length (msg_bytes m) = 548"
  by (simp add: wf_msg_def msg_bytes_def)

lemma wf_msg_of_bytes [simp]: "length bs = 548 \<Longrightarrow> wf_msg (msg_of_bytes bs)"
  by (simp add: wf_msg_def msg_of_bytes_def)

lemma wf_zero_msg [simp]: "wf_msg zero_msg"
  by (simp add: zero_msg_def)

lemma wf_recv_into [simp]: "wf_msg m \<Longrightarrow> wf_msg (recv_into bs m)"
  unfolding recv_into_def by (rule wf_msg_of_bytes) (simp add: min_def)

text \<open>The memory of a message and the message give each other back.\<close>

lemma msg_of_bytes_msg_bytes: "wf_msg m \<Longrightarrow> msg_of_bytes (msg_bytes m) = m"
  by (cases m) (simp add: msg_of_bytes_def msg_bytes_def wf_msg_def mem16_def of_mem16_def nth_append)

lemma take_split: "n \<le> k \<Longrightarrow> take k xs = take n xs @ take (k - n) (drop n xs)"
  by (metis append_take_drop_id diff_add_inverse le_Suc_ex take_add)

lemma bytes_fields:
  assumes "length bs = (548 :: nat)"
  shows "bs = [bs ! 0, bs ! 1, bs ! 2, bs ! 3] @ take 4 (drop 4 bs) @ take 2 (drop 8 bs) @ take 2 (drop 10 bs) @
     take 4 (drop 12 bs) @ take 4 (drop 16 bs) @ take 4 (drop 20 bs) @ take 4 (drop 24 bs) @ take 16 (drop 28 bs) @
     take 64 (drop 44 bs) @ take 128 (drop 108 bs) @ take 312 (drop 236 bs)"
proof -
  have s: "take n (drop i bs) @ drop (n + i) bs = drop i bs" for i n
    by (metis append_take_drop_id drop_drop)
  have "take 4 bs = [bs ! 0, bs ! 1, bs ! 2, bs ! 3]"
    using assms by (intro nth_equalityI) (auto simp: less_Suc_eq eval_nat_numeral)
  then have "bs = [bs ! 0, bs ! 1, bs ! 2, bs ! 3] @ drop 4 bs" by (metis append_take_drop_id)
  also have "drop 4 bs = take 4 (drop 4 bs) @ take 2 (drop 8 bs) @ take 2 (drop 10 bs) @
     take 4 (drop 12 bs) @ take 4 (drop 16 bs) @ take 4 (drop 20 bs) @ take 4 (drop 24 bs) @ take 16 (drop 28 bs) @
     take 64 (drop 44 bs) @ take 128 (drop 108 bs) @ drop 236 bs"
    using s [of 4 4] s [of 2 8] s [of 2 10] s [of 4 12] s [of 4 16] s [of 4 20] s [of 4 24] s [of 16 28]
      s [of 64 44] s [of 128 108] by simp
  also have "drop 236 bs = take 312 (drop 236 bs)" using assms by simp
  finally show ?thesis .
qed

lemma msg_bytes_msg_of_bytes:
  assumes "length bs = 548"
  shows "msg_bytes (msg_of_bytes bs) = bs"
proof -
  have "msg_bytes (msg_of_bytes bs) = [bs ! 0, bs ! 1, bs ! 2, bs ! 3] @ take 4 (drop 4 bs) @
     take 2 (drop 8 bs) @ take 2 (drop 10 bs) @
     take 4 (drop 12 bs) @ take 4 (drop 16 bs) @ take 4 (drop 20 bs) @ take 4 (drop 24 bs) @ take 16 (drop 28 bs) @
     take 64 (drop 44 bs) @ take 128 (drop 108 bs) @ take 312 (drop 236 bs)"
    using assms by (simp add: msg_bytes_def msg_of_bytes_def)
  then show ?thesis using bytes_fields [OF assms] by simp
qed

text \<open>A datagram of the full size replaces the whole message, one of no bytes nothing of it.\<close>

lemma recv_into_full: "wf_msg m \<Longrightarrow> wf_msg k \<Longrightarrow> recv_into (msg_bytes k) m = k"
  by (simp add: recv_into_def msg_of_bytes_msg_bytes)

lemma recv_into_empty: "wf_msg m \<Longrightarrow> recv_into [] m = m"
  by (simp add: recv_into_def msg_of_bytes_msg_bytes)

lemma msg_bytes_recv_into:
  "wf_msg m \<Longrightarrow> msg_bytes (recv_into bs m) = take 548 bs @ drop (length bs) (msg_bytes m)"
  unfolding recv_into_def by (rule msg_bytes_msg_of_bytes) (simp add: min_def)

section \<open>Options\<close>

type_synonym dhcp_option = "u8 \<times> u8 list"

definition enc_option :: "dhcp_option \<Rightarrow> u8 list" where
  "enc_option opt = fst opt # of_nat (length (snd opt)) # snd opt"

definition enc_options :: "dhcp_option list \<Rightarrow> u8 list" where
  "enc_options opts = concat (map enc_option opts)"

lemma enc_options_simps [simp]:
  "enc_options [] = []" "enc_options (o1 # opts) = enc_option o1 @ enc_options opts"
  "enc_options (opts @ opts') = enc_options opts @ enc_options opts'"
  by (simp_all add: enc_options_def)

lemma length_enc_option [simp]: "length (enc_option opt) = length (snd opt) + 2"
  by (simp add: enc_option_def)

lemma unat_of_nat_u8: "n < 256 \<Longrightarrow> unat (of_nat n :: u8) = n"
  by (simp add: unat_of_nat)

lemma uint_of_nat_u8: "n < 256 \<Longrightarrow> uint (of_nat n :: u8) = int n"
  by (simp add: uint_nat unat_of_nat_u8)

definition msg_header :: "dhcpmsg_s \<Rightarrow> u8 list" where
  "msg_header m = [m_op m, m_htype m, m_hlen m, m_hops m] @ m_xid m @ mem16 (m_secs m) @ mem16 (m_flags m) @
     m_ciaddr m @ m_yiaddr m @ m_siaddr m @ m_giaddr m @ m_chaddr m @ m_sname m @ m_file m"

lemma msg_bytes_header: "msg_bytes m = msg_header m @ m_options m"
  by (simp add: msg_bytes_def msg_header_def)

lemma length_msg_header [simp]: "wf_msg m \<Longrightarrow> length (msg_header m) = 236"
  by (simp add: wf_msg_def msg_header_def)

lemma msg_header_options [simp]: "msg_header (m\<lparr>m_options := x\<rparr>) = msg_header m"
  by (simp add: msg_header_def)

text \<open>A message with its options on the wire, the end option last.\<close>

definition wire_bytes :: "dhcpmsg_s \<Rightarrow> dhcp_option list \<Rightarrow> u8 list" where
  "wire_bytes m opts = msg_header m @ g_magiccookie @ enc_options opts @ [DHCP_OPTION_END]"

lemma length_wire_bytes [simp]: "wf_msg m \<Longrightarrow> length (wire_bytes m opts) = 241 + length (enc_options opts)"
  by (simp add: wire_bytes_def)

text \<open>What the receiver of such a datagram finds: after the end option its memory is as before.\<close>

definition wire_options :: "dhcp_option list \<Rightarrow> dhcpmsg_s \<Rightarrow> u8 list" where
  "wire_options opts old =
     g_magiccookie @ enc_options opts @ DHCP_OPTION_END # drop (5 + length (enc_options opts)) (m_options old)"

lemma length_wire_options:
  "wf_msg old \<Longrightarrow> length (enc_options opts) \<le> 307 \<Longrightarrow> length (wire_options opts old) = 312"
  by (simp add: wire_options_def wf_msg_def)

lemma recv_wire:
  assumes m: "wf_msg m" and old: "wf_msg old" and len: "length (enc_options opts) \<le> 307"
  shows "recv_into (wire_bytes m opts) old = m\<lparr>m_options := wire_options opts old\<rparr>"
proof -
  have "drop (241 + length (enc_options opts)) (msg_bytes old) = drop (5 + length (enc_options opts)) (m_options old)"
    using old by (simp add: msg_bytes_header)
  then have "take 548 (wire_bytes m opts) @ drop (length (wire_bytes m opts)) (msg_bytes old) =
      msg_bytes (m\<lparr>m_options := wire_options opts old\<rparr>)"
    using m len by (simp add: msg_bytes_header wire_options_def wire_bytes_def)
  moreover have "wf_msg (m\<lparr>m_options := wire_options opts old\<rparr>)"
    using m length_wire_options [OF old len] by (simp add: wf_msg_def)
  ultimately show ?thesis by (simp add: recv_into_def msg_of_bytes_msg_bytes)
qed

end
