(* ===== verification/DhcpServer.thy ===== *)
theory DhcpServer
  imports DhcpTypes
begin

text \<open>
  The DHCP server, \<^verbatim>\<open>netutils/dhcpd/dhcpd.c\<close>: the lease table, the options of the incoming
  message, the construction of the reply and the handlers of the four message types. The
  build's configuration is the record \<open>dhcpd_build\<close>; the options of \<^verbatim>\<open>dhcpd_config_s\<close> that a
  build can leave out (\<^verbatim>\<open>HAVE_ROUTERIP\<close> and its like) are \<open>None\<close> there.

  The system below is a part of the state: the clock is a sequence of readings, of which
  every call of \<^verbatim>\<open>dhcpd_time\<close> takes the next, \<^verbatim>\<open>sendto\<close> answers as \<open>dos_sendto\<close> says, and
  \<open>dos_sent\<close> holds the datagrams that went out. \<^verbatim>\<open>time_t\<close> has 32 bits. A pointer to a lease is
  its index in the table, the pointer \<^verbatim>\<open>ds_optend\<close> an index in the options of the reply.
\<close>

section \<open>State\<close>

record dhcpd_build =
  cf_maxleases :: nat
  cf_leasetime :: u32
  cf_minleasetime :: u32
  cf_maxleasetime :: u32
  cf_offertime :: u32
  cf_declinetime :: u32
  cf_ignorebroadcast :: bool

record lease_s =
  lease_mac :: "u8 list"
  lease_allocated :: bool
  lease_expiry :: u32

record dhcpd_config_s =
  ds_startip :: u32
  ds_endip :: u32
  ds_routerip :: "u32 option"
  ds_netmask :: "u32 option"
  ds_dnsip :: "u32 option"

record dhcpd_state_s =
  ds_serverip :: u32
  ds_inpacket :: dhcpmsg_s
  ds_outpacket :: dhcpmsg_s
  ds_optmsgtype :: u8
  ds_optreqip :: u32
  ds_optserverip :: u32
  ds_optleasetime :: u32
  ds_optend :: "nat option"
  ds_leases :: "lease_s list"

record dhcpd = dhcpd_state_s +
  g_config :: dhcpd_config_s
  dos_clock :: "nat \<Rightarrow> u32 option"
  dos_ticks :: nat
  dos_sendto :: "nat \<Rightarrow> bool"
  dos_sends :: nat
  dos_sent :: "(u32 \<times> u16 \<times> u8 list) list"
  dos_arp :: "(u8 list \<times> u8 list) list"

definition zero_lease :: lease_s where
  "zero_lease = \<lparr>lease_mac = replicate 6 0, lease_allocated = False, lease_expiry = 0\<rparr>"

section \<open>The lease table\<close>

definition dhcpd_time :: "dhcpd \<Rightarrow> u32 \<times> dhcpd" where
  "dhcpd_time s =
     ((case dos_clock s (dos_ticks s) of Some t \<Rightarrow> t | None \<Rightarrow> 0), s\<lparr>dos_ticks := Suc (dos_ticks s)\<rparr>)"

definition dhcpd_leaseexpired :: "nat \<Rightarrow> dhcpd \<Rightarrow> (bool \<times> dhcpd) option" where
  "dhcpd_leaseexpired lease s = do {
     l \<leftarrow> array_get (ds_leases s) lease;
     let (now, s) = dhcpd_time s;
     if lease_expiry l > now then Some (False, s)
     else do {
       ls \<leftarrow> array_put (ds_leases s) lease zero_lease;
       Some (True, s\<lparr>ds_leases := ls\<rparr>)
     }
   }"

text \<open>The difference of two addresses is converted to an \<^verbatim>\<open>int\<close>.\<close>

definition dhcpd_setlease :: "dhcpd_build \<Rightarrow> u8 list \<Rightarrow> u32 \<Rightarrow> u32 \<Rightarrow> dhcpd \<Rightarrow> (nat option \<times> dhcpd) option" where
  "dhcpd_setlease b mac ipaddr expiry s =
     (let ndx = sint (ipaddr - ds_startip (g_config s)) in
      if 0 \<le> ndx \<and> ndx < int (cf_maxleases b)
      then do {
        let (now, s) = dhcpd_time s;
        ls \<leftarrow> array_put (ds_leases s) (nat ndx)
                \<lparr>lease_mac = take 6 mac, lease_allocated = True, lease_expiry = now + expiry\<rparr>;
        Some (Some (nat ndx), s\<lparr>ds_leases := ls\<rparr>)
      }
      else Some (None, s))"

definition dhcp_leaseipaddr :: "nat \<Rightarrow> dhcpd \<Rightarrow> u32" where
  "dhcp_leaseipaddr lease s = of_nat lease + ds_startip (g_config s)"

definition dhcpd_findbymac :: "dhcpd_build \<Rightarrow> u8 list \<Rightarrow> dhcpd \<Rightarrow> nat option" where
  "dhcpd_findbymac b mac s =
     find (\<lambda>i. lease_mac (ds_leases s ! i) = take 6 mac) [0..<cf_maxleases b]"

definition dhcpd_findbyipaddr :: "u32 \<Rightarrow> dhcpd \<Rightarrow> nat option option" where
  "dhcpd_findbyipaddr ipaddr s =
     (if ds_startip (g_config s) \<le> ipaddr \<and> ipaddr \<le> ds_endip (g_config s)
      then do {
        let i = unat (ipaddr - ds_startip (g_config s));
        lease \<leftarrow> array_get (ds_leases s) i;
        Some (if lease_allocated lease then Some i else None)
      }
      else Some None)"

text \<open>The condition \<^verbatim>\<open>!lease || dhcpd_leaseexpired(lease)\<close> of three functions.\<close>

definition lease_available :: "nat option \<Rightarrow> dhcpd \<Rightarrow> (bool \<times> dhcpd) option" where
  "lease_available lease s =
     (case lease of None \<Rightarrow> Some (True, s) | Some i \<Rightarrow> dhcpd_leaseexpired i s)"

text \<open>The loop of \<^verbatim>\<open>dhcpd_allocipaddr\<close>; \<open>ipaddr++\<close> wraps around.\<close>

partial_function (option) dhcpd_allocloop :: "dhcpd_build \<Rightarrow> u32 \<Rightarrow> u32 \<Rightarrow> dhcpd \<Rightarrow> (u32 \<times> dhcpd) option" where
  "dhcpd_allocloop b startaddr ipaddr s =
     (if ds_endip (g_config s) < ipaddr then Some (0, s)
      else if ipaddr AND 0xFF = 0 \<or> ipaddr AND 0xFF = 0xFF
      then dhcpd_allocloop b startaddr (ipaddr + 1) s
      else do {
        lease \<leftarrow> dhcpd_findbyipaddr ipaddr s;
        (free, s) \<leftarrow> lease_available lease s;
        if free
        then do {
          let (now, s) = dhcpd_time s;
          ls \<leftarrow> array_put (ds_leases s) (unat (ipaddr - startaddr))
                  \<lparr>lease_mac = replicate 6 0, lease_allocated = True, lease_expiry = now + cf_offertime b\<rparr>;
          Some (ipaddr, s\<lparr>ds_leases := ls\<rparr>)
        }
        else dhcpd_allocloop b startaddr (ipaddr + 1) s
      })"

definition dhcpd_allocipaddr :: "dhcpd_build \<Rightarrow> dhcpd \<Rightarrow> (u32 \<times> dhcpd) option" where
  "dhcpd_allocipaddr b s = dhcpd_allocloop b (ds_startip (g_config s)) (ds_startip (g_config s)) s"

section \<open>The options of the incoming message\<close>

text \<open>
  The local variables of \<^verbatim>\<open>dhcpd_parseoptions\<close>. \<open>currfield\<close> is 0 for the options, 1 for the file
  and 2 for the server name; \<open>ptr\<close> is an index in that field.
\<close>

record dhcpd_parser =
  p_currfield :: nat
  p_ptr :: nat
  p_remaining :: int
  p_overloaded :: u8
  p_optlen :: int

definition parser_field :: "dhcpd_parser \<Rightarrow> dhcpmsg_s \<Rightarrow> u8 list" where
  "parser_field p m = (if p_currfield p = 0 then m_options m else if p_currfield p = 1 then m_file m else m_sname m)"

text \<open>\<open>optlen = ptr[DHCPD_OPTION_LENGTH] + 2\<close>, and the last two statements of the loop.\<close>

definition parser_length :: "dhcpd_parser \<Rightarrow> dhcpmsg_s \<Rightarrow> dhcpd_parser option" where
  "parser_length p m = do {
     n \<leftarrow> array_get (parser_field p m) (p_ptr p + 1);
     Some (p\<lparr>p_optlen := int (unat n) + 2\<rparr>)
   }"

definition parser_advance :: "dhcpd_parser \<Rightarrow> dhcpd_parser" where
  "parser_advance p = p\<lparr>p_ptr := p_ptr p + nat (p_optlen p), p_remaining := p_remaining p - p_optlen p\<rparr>"

text \<open>The data of an option: one byte, or four bytes in network order.\<close>

definition parser_data8 :: "dhcpd_parser \<Rightarrow> dhcpd \<Rightarrow> u8 option" where
  "parser_data8 p s = array_get (parser_field p (ds_inpacket s)) (p_ptr p + 2)"

definition parser_data32 :: "dhcpd_parser \<Rightarrow> dhcpd \<Rightarrow> u32 option" where
  "parser_data32 p s = do {
     tmp \<leftarrow> array_slice (parser_field p (ds_inpacket s)) (p_ptr p + 2) 4;
     Some (ntohl (of_mem32 tmp))
   }"

text \<open>
  The shape of the branches for options with data: read the length, store the data if it is
  long enough (\<open>optlen >= n && optlen < remaining\<close>), advance.
\<close>

definition parser_take ::
  "int \<Rightarrow> (dhcpd_parser \<Rightarrow> dhcpd \<Rightarrow> (dhcpd_parser \<times> dhcpd) option) \<Rightarrow> dhcpd_parser \<Rightarrow> dhcpd \<Rightarrow>
   (dhcpd_parser option \<times> dhcpd) option" where
  "parser_take n store p s = do {
     p \<leftarrow> parser_length p (ds_inpacket s);
     (p, s) \<leftarrow> (if n \<le> p_optlen p \<and> p_optlen p < p_remaining p then store p s else Some (p, s));
     Some (Some (parser_advance p), s)
   }"

text \<open>One pass of the loop, the \<^verbatim>\<open>switch\<close> and the step to the next option: \<open>None\<close> is the return of true.\<close>

definition dhcpd_parseoption :: "dhcpd_parser \<Rightarrow> dhcpd \<Rightarrow> (dhcpd_parser option \<times> dhcpd) option" where
  "dhcpd_parseoption p s = do {
     code \<leftarrow> array_get (parser_field p (ds_inpacket s)) (p_ptr p);
     if code = DHCP_OPTION_PAD then Some (Some (parser_advance (p\<lparr>p_optlen := 1\<rparr>)), s)
     else if code = DHCP_OPTION_OVERLOAD then
       parser_take 3 (\<lambda>p s. do { v \<leftarrow> parser_data8 p s; Some (p\<lparr>p_overloaded := v\<rparr>, s) }) p s
     else if code = DHCP_OPTION_END then
       (if p_currfield p = 0 \<and> p_overloaded p AND 1 \<noteq> 0
        then Some (Some (parser_advance (p\<lparr>p_ptr := 0, p_remaining := 128, p_currfield := 1\<rparr>)), s)
        else if p_currfield p = 1 \<and> p_overloaded p AND 2 \<noteq> 0
        then Some (Some (parser_advance (p\<lparr>p_ptr := 0, p_remaining := 64, p_currfield := 2\<rparr>)), s)
        else Some (None, s))
     else if code = DHCP_OPTION_REQ_IPADDR then
       parser_take 6 (\<lambda>p s. do { v \<leftarrow> parser_data32 p s; Some (p, s\<lparr>ds_optreqip := v\<rparr>) }) p s
     else if code = DHCP_OPTION_LEASE_TIME then
       parser_take 6 (\<lambda>p s. do { v \<leftarrow> parser_data32 p s; Some (p, s\<lparr>ds_optleasetime := v\<rparr>) }) p s
     else if code = DHCP_OPTION_MSG_TYPE then
       parser_take 3 (\<lambda>p s. do { v \<leftarrow> parser_data8 p s; Some (p, s\<lparr>ds_optmsgtype := v\<rparr>) }) p s
     else if code = DHCP_OPTION_SERVER_ID then
       parser_take 6 (\<lambda>p s. do { v \<leftarrow> parser_data32 p s; Some (p, s\<lparr>ds_optserverip := v\<rparr>) }) p s
     else parser_take 2 (\<lambda>p s. Some (p, s)) p s
   }"

text \<open>Every pass uses up bytes of the field, or goes on to a later field.\<close>

lemma parser_length_Some:
  "parser_length p m = Some p' \<Longrightarrow>
   \<exists>n :: u8. p_ptr p + 1 < length (parser_field p m) \<and> p' = p\<lparr>p_optlen := int (unat n) + 2\<rparr>"
  by (auto simp: parser_length_def array_get_eq_Some split: bind_splits)

lemma parser_length_optlen:
  assumes "parser_length p m = Some p'"
  shows "p_currfield p' = p_currfield p" "p_remaining p' = p_remaining p" "p_ptr p' = p_ptr p"
    "p_overloaded p' = p_overloaded p" "2 \<le> p_optlen p'" "p_optlen p' \<le> 257"
proof -
  obtain n :: u8 where "p' = p\<lparr>p_optlen := int (unat n) + 2\<rparr>" using parser_length_Some [OF assms] by blast
  moreover have "int (unat n) \<le> 255" using unat_u8_less [of n] by linarith
  ultimately show "p_currfield p' = p_currfield p" "p_remaining p' = p_remaining p" "p_ptr p' = p_ptr p"
    "p_overloaded p' = p_overloaded p" "2 \<le> p_optlen p'" "p_optlen p' \<le> 257" by simp_all
qed

lemma parser_take_progress:
  assumes "parser_take n store p s = Some (r, s')"
    "\<And>p s p' s'. store p s = Some (p', s') \<Longrightarrow>
       p_currfield p' = p_currfield p \<and> p_remaining p' = p_remaining p \<and> p_ptr p' = p_ptr p \<and> p_optlen p' = p_optlen p"
  shows "\<exists>p'. r = Some p' \<and> p_currfield p' = p_currfield p \<and> p_remaining p' < p_remaining p \<and>
    int (p_ptr p') + p_remaining p' = int (p_ptr p) + p_remaining p \<and> 0 \<le> p_optlen p'"
proof -
  obtain q q' where q: "parser_length p (ds_inpacket s) = Some q"
    and q': "(if n \<le> p_optlen q \<and> p_optlen q < p_remaining q then store q s else Some (q, s)) = Some (q', s')"
    and r: "r = Some (parser_advance q')"
    using assms(1) unfolding parser_take_def by (auto split: bind_splits)
  have "p_currfield q' = p_currfield q \<and> p_remaining q' = p_remaining q \<and> p_ptr q' = p_ptr q \<and> p_optlen q' = p_optlen q"
    using q' assms(2) by (auto split: if_splits)
  with parser_length_optlen [OF q] show ?thesis by (auto simp: r parser_advance_def)
qed

lemma dhcpd_parseoption_cases:
  assumes "dhcpd_parseoption p s = Some (r, s')"
  obtains (found) "r = None"
  | (option) p' where "r = Some p'" "p_currfield p' = p_currfield p" "p_remaining p' < p_remaining p"
      "int (p_ptr p') + p_remaining p' = int (p_ptr p) + p_remaining p" "0 \<le> p_optlen p'"
  | (in_file) "p_currfield p = 0" "r = Some (parser_advance (p\<lparr>p_ptr := 0, p_remaining := 128, p_currfield := 1\<rparr>))"
  | (in_sname) "p_currfield p = 1" "r = Some (parser_advance (p\<lparr>p_ptr := 0, p_remaining := 64, p_currfield := 2\<rparr>))"
proof -
  obtain code where code: "array_get (parser_field p (ds_inpacket s)) (p_ptr p) = Some code"
    using assms unfolding dhcpd_parseoption_def by (auto split: bind_splits)
  consider "code = 0" | "code = 255" | (take) n store where "parser_take n store p s = Some (r, s')"
    "\<And>p s p' s'. store p s = Some (p', s') \<Longrightarrow>
       p_currfield p' = p_currfield p \<and> p_remaining p' = p_remaining p \<and> p_ptr p' = p_ptr p \<and> p_optlen p' = p_optlen p"
    using assms that unfolding dhcpd_parseoption_def code
    by (simp split: if_split_asm; (fastforce split: bind_splits)?)
  then show ?thesis
  proof cases
    case 1
    then show ?thesis using assms option unfolding dhcpd_parseoption_def code by (auto simp: parser_advance_def)
  next
    case 2
    then show ?thesis using assms found in_file in_sname unfolding dhcpd_parseoption_def code by (auto split: if_splits)
  next
    case take
    have "\<exists>p'. r = Some p' \<and> p_currfield p' = p_currfield p \<and> p_remaining p' < p_remaining p \<and>
        int (p_ptr p') + p_remaining p' = int (p_ptr p) + p_remaining p \<and> 0 \<le> p_optlen p'"
      by (rule parser_take_progress [OF take(1)]) (rule take(2))
    then show ?thesis using option by blast
  qed
qed

function dhcpd_parseloop :: "dhcpd_parser \<Rightarrow> dhcpd \<Rightarrow> (bool \<times> dhcpd) option" where
  "dhcpd_parseloop p s =
     (case dhcpd_parseoption p s of
        None \<Rightarrow> None
      | Some (None, s) \<Rightarrow> Some (True, s)
      | Some (Some p, s) \<Rightarrow> if 0 < p_remaining p then dhcpd_parseloop p s else Some (False, s))"
  by pat_completeness simp

termination
proof (relation "measures [\<lambda>(p, s). 2 - p_currfield p, \<lambda>(p, s). nat (p_remaining p)]", goal_cases)
  case 1
  show ?case by simp
next
  case (2 p s r r1 s' p')
  then show ?case by (auto elim!: dhcpd_parseoption_cases simp: parser_advance_def)
qed

declare dhcpd_parseloop.simps [simp del]

definition dhcpd_parseoptions :: "dhcpd \<Rightarrow> (bool \<times> dhcpd) option" where
  "dhcpd_parseoptions s = do {
     cookie \<leftarrow> array_slice (m_options (ds_inpacket s)) 0 4;
     if cookie \<noteq> g_magiccookie then Some (False, s)
     else dhcpd_parseloop
       \<lparr>p_currfield = 0, p_ptr = 4, p_remaining = int DHCPD_OPTIONS_SIZE - 4, p_overloaded = 0, p_optlen = 0\<rparr>
       (s\<lparr>ds_optmsgtype := 0, ds_optreqip := 0, ds_optserverip := 0, ds_optleasetime := 0, ds_optend := None\<rparr>)
   }"

definition dhcpd_verifyreqip :: "dhcpd \<Rightarrow> (bool \<times> dhcpd) option" where
  "dhcpd_verifyreqip s =
     (if ds_startip (g_config s) \<le> ds_optreqip s \<and> ds_optreqip s \<le> ds_endip (g_config s)
      then do {
        lease \<leftarrow> dhcpd_findbyipaddr (ds_optreqip s) s;
        lease_available lease s
      }
      else Some (False, s))"

text \<open>The lease time after the call is the second component, \<open>*leasetime\<close>.\<close>

definition dhcpd_verifyreqleasetime :: "dhcpd_build \<Rightarrow> dhcpd \<Rightarrow> u32 \<Rightarrow> bool \<times> u32" where
  "dhcpd_verifyreqleasetime b s leasetime =
     (let tmp = ds_optleasetime s in
      if tmp \<noteq> 0
      then (True, if tmp > cf_maxleasetime b then cf_maxleasetime b
                  else if tmp < cf_minleasetime b then cf_minleasetime b else tmp)
      else (False, leasetime))"

section \<open>The reply\<close>

definition dhcpd_addoption :: "u8 list \<Rightarrow> dhcpd \<Rightarrow> (nat \<times> dhcpd) option" where
  "dhcpd_addoption option s =
     (case ds_optend s of
        None \<Rightarrow> Some (4, s)
      | Some offset \<Rightarrow> do {
          n \<leftarrow> array_get option 1;
          let len = unat n + 2;
          if offset + len + 1 < DHCPD_OPTIONS_SIZE
          then do {
            src \<leftarrow> array_slice option 0 len;
            opts \<leftarrow> array_blit (m_options (ds_outpacket s)) offset src;
            opts \<leftarrow> array_put opts (offset + len) DHCP_OPTION_END;
            Some (len, s\<lparr>ds_outpacket := (ds_outpacket s)\<lparr>m_options := opts\<rparr>, ds_optend := Some (offset + len)\<rparr>)
          }
          else Some (len, s)
        })"

definition dhcpd_addoption8 :: "u8 \<Rightarrow> u8 \<Rightarrow> dhcpd \<Rightarrow> (nat \<times> dhcpd) option" where
  "dhcpd_addoption8 code value s = dhcpd_addoption [code, 1, value] s"

definition dhcpd_addoption32 :: "u8 \<Rightarrow> u32 \<Rightarrow> dhcpd \<Rightarrow> (nat \<times> dhcpd) option" where
  "dhcpd_addoption32 code value s = dhcpd_addoption ([code, 4] @ mem32 value) s"

definition dhcp_addoption32p :: "u8 \<Rightarrow> u8 list \<Rightarrow> dhcpd \<Rightarrow> (nat \<times> dhcpd) option" where
  "dhcp_addoption32p code value s = do {
     bytes \<leftarrow> array_slice value 0 4;
     dhcpd_addoption ([code, 4] @ bytes) s
   }"

definition dhcpd_initpacket :: "u8 \<Rightarrow> dhcpd \<Rightarrow> dhcpd option" where
  "dhcpd_initpacket mtype s = do {
     let inp = ds_inpacket s;
     let out = zero_msg\<lparr>m_op := DHCP_REPLY, m_htype := m_htype inp, m_hlen := m_hlen inp,
                        m_xid := m_xid inp, m_chaddr := m_chaddr inp\<rparr>;
     let out = (if m_giaddr out \<noteq> mem32 0 then out\<lparr>m_flags := m_flags inp\<rparr> else out);
     opts \<leftarrow> array_blit (m_options out) 0 g_magiccookie;
     opts \<leftarrow> array_put opts 4 DHCP_OPTION_END;
     let s = s\<lparr>ds_outpacket := out\<lparr>m_options := opts\<rparr>, ds_optend := Some 4\<rparr>;
     (_, s) \<leftarrow> dhcpd_addoption8 DHCP_OPTION_MSG_TYPE mtype s;
     (_, s) \<leftarrow> dhcpd_addoption32 DHCP_OPTION_SERVER_ID (ds_serverip s) s;
     Some s
   }"

text \<open>\<open>netlib_set_arpmapping\<close> adds to the ARP table of the system.\<close>

definition dhcpd_arpupdate :: "u8 list \<Rightarrow> u8 list \<Rightarrow> dhcpd \<Rightarrow> dhcpd" where
  "dhcpd_arpupdate ipaddr hwaddr s = s\<lparr>dos_arp := dos_arp s @ [(ipaddr, hwaddr)]\<rparr>"

definition dhcpd_sendpacket :: "dhcpd_build \<Rightarrow> bool \<Rightarrow> dhcpd \<Rightarrow> (int \<times> dhcpd) option" where
  "dhcpd_sendpacket b bbroadcast s = do {
     let out = ds_outpacket s;
     let (ipaddr, s) =
       (if cf_ignorebroadcast b \<or> bbroadcast then (INADDR_BROADCAST, s)
        else if m_ciaddr out \<noteq> mem32 0
        then (of_mem32 (m_ciaddr out), dhcpd_arpupdate (m_ciaddr out) (m_chaddr out) s)
        else if m_flags out AND htons BOOTP_BROADCAST \<noteq> 0 then (INADDR_BROADCAST, s)
        else (of_mem32 (m_yiaddr out), dhcpd_arpupdate (m_yiaddr out) (m_chaddr out) s));
     optend \<leftarrow> ds_optend s;
     data \<leftarrow> array_slice (msg_bytes out) 0 (236 + optend + 1);
     let ok = dos_sendto s (dos_sends s);
     let s = s\<lparr>dos_sends := Suc (dos_sends s)\<rparr>;
     if ok then Some (int (length data), s\<lparr>dos_sent := dos_sent s @ [(ipaddr, htons 68, data)]\<rparr>)
     else Some (-1, s)
   }"

text \<open>
  The options both \<^verbatim>\<open>dhcpd_sendoffer\<close> and \<^verbatim>\<open>dhcpd_sendack\<close> add, with the same lines: the lease
  time, and what of mask, router and name server the build has.
\<close>

definition dhcpd_netoptions :: "u32 \<Rightarrow> dhcpd \<Rightarrow> dhcpd option" where
  "dhcpd_netoptions leasetime s = do {
     (_, s) \<leftarrow> dhcpd_addoption32 DHCP_OPTION_LEASE_TIME (htonl leasetime) s;
     (_, s) \<leftarrow> (case ds_netmask (g_config s) of None \<Rightarrow> Some (0, s)
                | Some a \<Rightarrow> dhcpd_addoption32 DHCP_OPTION_SUBNET_MASK (htonl a) s);
     (_, s) \<leftarrow> (case ds_routerip (g_config s) of None \<Rightarrow> Some (0, s)
                | Some a \<Rightarrow> dhcpd_addoption32 DHCP_OPTION_ROUTER (htonl a) s);
     (_, s) \<leftarrow> (case ds_dnsip (g_config s) of None \<Rightarrow> Some (0, s)
                | Some a \<Rightarrow> dhcp_addoption32p DHCP_OPTION_DNS_SERVER (mem32 (htonl a)) s);
     Some s
   }"

definition dhcpd_sendoffer :: "dhcpd_build \<Rightarrow> u32 \<Rightarrow> u32 \<Rightarrow> dhcpd \<Rightarrow> (int \<times> dhcpd) option" where
  "dhcpd_sendoffer b ipaddr leasetime s = do {
     s \<leftarrow> dhcpd_initpacket DHCPOFFER s;
     let netaddr = htonl ipaddr;
     let s = s\<lparr>ds_outpacket := (ds_outpacket s)\<lparr>m_yiaddr := mem32 netaddr\<rparr>\<rparr>;
     s \<leftarrow> dhcpd_netoptions leasetime s;
     dhcpd_sendpacket b (cf_ignorebroadcast b) s
   }"

definition dhcpd_sendnak :: "dhcpd_build \<Rightarrow> dhcpd \<Rightarrow> (int \<times> dhcpd) option" where
  "dhcpd_sendnak b s = do {
     s \<leftarrow> dhcpd_initpacket DHCPNAK s;
     let s = s\<lparr>ds_outpacket := (ds_outpacket s)\<lparr>m_ciaddr := m_ciaddr (ds_inpacket s)\<rparr>\<rparr>;
     dhcpd_sendpacket b True s
   }"

definition dhcpd_sendack :: "dhcpd_build \<Rightarrow> u32 \<Rightarrow> dhcpd \<Rightarrow> (int \<times> dhcpd) option" where
  "dhcpd_sendack b ipaddr s = do {
     s \<leftarrow> dhcpd_initpacket DHCPACK s;
     let netaddr = htonl ipaddr;
     let s = s\<lparr>ds_outpacket := (ds_outpacket s)\<lparr>m_ciaddr := m_ciaddr (ds_inpacket s), m_yiaddr := mem32 netaddr\<rparr>\<rparr>;
     let leasetime = snd (dhcpd_verifyreqleasetime b s (cf_leasetime b));
     s \<leftarrow> dhcpd_netoptions leasetime s;
     (ret, s) \<leftarrow> dhcpd_sendpacket b (cf_ignorebroadcast b) s;
     if ret < 0 then Some (-1, s)
     else do {
       (_, s) \<leftarrow> dhcpd_setlease b (m_chaddr (ds_inpacket s)) ipaddr leasetime s;
       Some (0, s)
     }
   }"

section \<open>The handlers\<close>

text \<open>The choice of the address and the lease time at the beginning of \<^verbatim>\<open>dhcpd_discover\<close>.\<close>

definition dhcpd_discover_addr :: "dhcpd_build \<Rightarrow> dhcpd \<Rightarrow> (u32 \<times> u32 \<times> dhcpd) option" where
  "dhcpd_discover_addr b s =
     (case dhcpd_findbymac b (m_chaddr (ds_inpacket s)) s of
        Some lease \<Rightarrow> do {
          (expired, s) \<leftarrow> dhcpd_leaseexpired lease s;
          if expired then Some (dhcp_leaseipaddr lease s, cf_leasetime b, s)
          else do {
            l \<leftarrow> array_get (ds_leases s) lease;
            let (now, s) = dhcpd_time s;
            let leasetime = lease_expiry l - now;
            Some (dhcp_leaseipaddr lease s,
                  if leasetime < cf_minleasetime b then cf_minleasetime b else leasetime, s)
          }
        }
      | None \<Rightarrow> do {
          (ok, s) \<leftarrow> dhcpd_verifyreqip s;
          if ok then Some (ds_optreqip s, cf_leasetime b, s)
          else do {
            (ipaddr, s) \<leftarrow> dhcpd_allocipaddr b s;
            Some (ipaddr, cf_leasetime b, s)
          }
        })"

definition dhcpd_discover :: "dhcpd_build \<Rightarrow> dhcpd \<Rightarrow> (int \<times> dhcpd) option" where
  "dhcpd_discover b s = do {
     (ipaddr, leasetime, s) \<leftarrow> dhcpd_discover_addr b s;
     if ipaddr = 0 then Some (-1, s)
     else do {
       (lease, s) \<leftarrow> dhcpd_setlease b (m_chaddr (ds_inpacket s)) ipaddr (cf_offertime b) s;
       if lease = None then Some (-1, s)
       else dhcpd_sendoffer b ipaddr (snd (dhcpd_verifyreqleasetime b s leasetime)) s
     }
   }"

text \<open>The decision of \<^verbatim>\<open>dhcpd_request\<close>: the response, 0 for none, and the address.\<close>

definition dhcpd_request_response :: "dhcpd_build \<Rightarrow> dhcpd \<Rightarrow> (u8 \<times> u32 \<times> dhcpd) option" where
  "dhcpd_request_response b s =
     (case dhcpd_findbymac b (m_chaddr (ds_inpacket s)) s of
        Some lease \<Rightarrow>
          (let ipaddr = dhcp_leaseipaddr lease s in
           if ds_optserverip s \<noteq> 0 then
             (if ds_optserverip s = ntohl (ds_serverip s) \<and> (ds_optreqip s \<noteq> 0 \<or> ds_optreqip s = ipaddr)
              then Some (DHCPACK, ipaddr, s) else Some (DHCPNAK, ipaddr, s))
           else if ds_optreqip s \<noteq> 0 then
             (if ipaddr = ds_optreqip s then Some (DHCPACK, ipaddr, s) else Some (DHCPNAK, ipaddr, s))
           else
             (if mem32 (htonl ipaddr) = m_ciaddr (ds_inpacket s)
              then Some (DHCPACK, ipaddr, s) else Some (DHCPNAK, ipaddr, s)))
      | None \<Rightarrow>
          if ds_optreqip s \<noteq> 0 \<and> ds_optserverip s = 0 then do {
            lease \<leftarrow> dhcpd_findbyipaddr (ds_optreqip s) s;
            case lease of
              Some i \<Rightarrow> do {
                (expired, s) \<leftarrow> dhcpd_leaseexpired i s;
                Some (if expired then 0 else DHCPNAK, 0, s)
              }
            | None \<Rightarrow>
                if ds_startip (g_config s) \<le> ds_optreqip s \<and> ds_optreqip s \<le> ds_endip (g_config s)
                then Some (DHCPACK, ds_optreqip s, s)
                else Some (DHCPNAK, 0, s)
          }
          else Some (0, 0, s))"

definition dhcpd_request :: "dhcpd_build \<Rightarrow> dhcpd \<Rightarrow> (int \<times> dhcpd) option" where
  "dhcpd_request b s = do {
     (response, ipaddr, s) \<leftarrow> dhcpd_request_response b s;
     if response = DHCPACK then do { (_, s) \<leftarrow> dhcpd_sendack b ipaddr s; Some (0, s) }
     else if response = DHCPNAK then do { (_, s) \<leftarrow> dhcpd_sendnak b s; Some (0, s) }
     else Some (0, s)
   }"

definition dhcpd_decline :: "dhcpd_build \<Rightarrow> dhcpd \<Rightarrow> (int \<times> dhcpd) option" where
  "dhcpd_decline b s =
     (case dhcpd_findbymac b (m_chaddr (ds_inpacket s)) s of
        None \<Rightarrow> Some (0, s)
      | Some lease \<Rightarrow> do {
          l \<leftarrow> array_get (ds_leases s) lease;
          let (now, s) = dhcpd_time s;
          ls \<leftarrow> array_put (ds_leases s) lease (l\<lparr>lease_mac := replicate 6 0, lease_expiry := now + cf_declinetime b\<rparr>);
          Some (0, s\<lparr>ds_leases := ls\<rparr>)
        })"

definition dhcpd_release :: "dhcpd_build \<Rightarrow> dhcpd \<Rightarrow> (int \<times> dhcpd) option" where
  "dhcpd_release b s =
     (case dhcpd_findbymac b (m_chaddr (ds_inpacket s)) s of
        None \<Rightarrow> Some (0, s)
      | Some lease \<Rightarrow> do {
          ls \<leftarrow> array_put (ds_leases s) lease zero_lease;
          Some (0, s\<lparr>ds_leases := ls\<rparr>)
        })"

text \<open>The body of the loop of \<^verbatim>\<open>dhcpd_run\<close> from a successful \<^verbatim>\<open>recv\<close> on: parse, and process by message type.\<close>

definition dhcpd_process :: "dhcpd_build \<Rightarrow> dhcpd \<Rightarrow> dhcpd option" where
  "dhcpd_process b s = do {
     (_, s) \<leftarrow>
       (if ds_optmsgtype s = DHCPDISCOVER then dhcpd_discover b s
        else if ds_optmsgtype s = DHCPREQUEST then dhcpd_request b s
        else if ds_optmsgtype s = DHCPDECLINE then dhcpd_decline b s
        else if ds_optmsgtype s = DHCPRELEASE then dhcpd_release b s
        else Some (0, s));
     Some s
   }"

definition dhcpd_receive :: "dhcpd_build \<Rightarrow> u8 list \<Rightarrow> dhcpd \<Rightarrow> dhcpd option" where
  "dhcpd_receive b data s = do {
     (ok, s) \<leftarrow> dhcpd_parseoptions (s\<lparr>ds_inpacket := recv_into data (ds_inpacket s)\<rparr>);
     if ok then dhcpd_process b s else Some s
   }"

section \<open>The configuration\<close>

definition dhcpd_set_startip :: "dhcpd_build \<Rightarrow> u32 \<Rightarrow> dhcpd_config_s \<Rightarrow> dhcpd_config_s" where
  "dhcpd_set_startip b startip c = c\<lparr>ds_startip := startip, ds_endip := startip + of_nat (cf_maxleases b) - 1\<rparr>"

definition dhcpd_set_routerip :: "u32 \<Rightarrow> dhcpd_config_s \<Rightarrow> dhcpd_config_s" where
  "dhcpd_set_routerip routerip c = c\<lparr>ds_routerip := Some routerip\<rparr>"

definition dhcpd_set_netmask :: "u32 \<Rightarrow> dhcpd_config_s \<Rightarrow> dhcpd_config_s" where
  "dhcpd_set_netmask netmask c = c\<lparr>ds_netmask := Some netmask\<rparr>"

definition dhcpd_set_dnsip :: "u32 \<Rightarrow> dhcpd_config_s \<Rightarrow> dhcpd_config_s" where
  "dhcpd_set_dnsip dnsip c = c\<lparr>ds_dnsip := Some dnsip\<rparr>"

section \<open>The listening socket\<close>

text \<open>
  What the system answers to the calls of \<^verbatim>\<open>dhcpd_openlistener\<close>: the descriptor of \<^verbatim>\<open>socket\<close>, the
  success of the socket options that the build sets (\<open>None\<close> for the others), the address of the
  interface and the success of \<^verbatim>\<open>bind\<close>. The list is the open descriptors.
\<close>

record dhcpd_sockets =
  sk_socket :: int
  sk_reuseaddr :: "bool option"
  sk_broadcast :: "bool option"
  sk_bindtodevice :: "bool option"
  sk_ifaddr :: "u32 option"
  sk_bind :: bool

definition dhcpd_socket :: "dhcpd_sockets \<Rightarrow> int list \<Rightarrow> int \<times> int list" where
  "dhcpd_socket e fds =
     (let sockfd = sk_socket e in
      if sockfd < 0 then (-1, fds)
      else if sk_reuseaddr e = Some False then (-1, remove1 sockfd (sockfd # fds))
      else if sk_broadcast e = Some False then (-1, remove1 sockfd (sockfd # fds))
      else if sk_bindtodevice e = Some False then (-1, remove1 sockfd (sockfd # fds))
      else (sockfd, sockfd # fds))"

definition dhcpd_openlistener :: "dhcpd_sockets \<Rightarrow> dhcpd \<Rightarrow> int list \<Rightarrow> int \<times> dhcpd \<times> int list" where
  "dhcpd_openlistener e s fds =
     (let (sockfd, fds) = dhcpd_socket e fds in
      if sockfd < 0 then (-1, s, fds)
      else case sk_ifaddr e of
        None \<Rightarrow> (-1, s, remove1 sockfd fds)
      | Some addr \<Rightarrow>
          let s = s\<lparr>ds_serverip := addr\<rparr> in
          if \<not> sk_bind e then (-1, s, remove1 sockfd fds) else (sockfd, s, fds))"

text \<open>A listener that could not be opened leaves no descriptor behind.\<close>

lemma dhcpd_openlistener_fds:
  assumes "dhcpd_openlistener e s fds = (fd, s', fds')"
  shows "if fd < 0 then fds' = fds else fds' = fd # fds \<and> sk_ifaddr e = Some (ds_serverip s')"
  using assms by (auto simp: dhcpd_openlistener_def dhcpd_socket_def Let_def split: if_splits option.splits)

end
