(* ===== verification/DhcpLease.thy ===== *)
theory DhcpLease
  imports DhcpServer
begin

text \<open>
  The lease table of the DHCP server: the invariant of the server's state, exact equations
  for the operations on the table under it, and what one message does to the table. The
  central fact is that a message changes at most one slot, and only one that belongs to the
  sender of the message or is free.
\<close>

section \<open>The invariant\<close>

abbreviation (input) no_mac :: "u8 list" where "no_mac \<equiv> replicate 6 0"

abbreviation lease_at :: "dhcpd \<Rightarrow> nat \<Rightarrow> lease_s" where
  "lease_at s i \<equiv> ds_leases s ! i"

abbreviation client_mac :: "dhcpd \<Rightarrow> u8 list" where
  "client_mac s \<equiv> take 6 (m_chaddr (ds_inpacket s))"

text \<open>What the addresses of the pool are, and that they do not run past the address space.\<close>

definition pool_ok :: "dhcpd_build \<Rightarrow> dhcpd_config_s \<Rightarrow> bool" where
  "pool_ok b c \<longleftrightarrow> 0 < cf_maxleases b \<and> cf_maxleases b < 2 ^ 31 \<and> 0 < ds_startip c \<and>
     unat (ds_startip c) + cf_maxleases b < 2 ^ 32 \<and>
     unat (ds_endip c) = unat (ds_startip c) + cf_maxleases b - 1"

text \<open>Every client, a hardware address other than zero, has at most one lease, and it is allocated.\<close>

definition leases_ok :: "lease_s list \<Rightarrow> bool" where
  "leases_ok ls \<longleftrightarrow>
     (\<forall>i < length ls. length (lease_mac (ls ! i)) = 6) \<and>
     (\<forall>i < length ls. lease_mac (ls ! i) \<noteq> no_mac \<longrightarrow> lease_allocated (ls ! i)) \<and>
     (\<forall>i < length ls. \<forall>j < length ls. lease_mac (ls ! i) \<noteq> no_mac \<longrightarrow>
        lease_mac (ls ! i) = lease_mac (ls ! j) \<longrightarrow> i = j)"

definition dhcpd_ok :: "dhcpd_build \<Rightarrow> dhcpd \<Rightarrow> bool" where
  "dhcpd_ok b s \<longleftrightarrow> pool_ok b (g_config s) \<and> length (ds_leases s) = cf_maxleases b \<and>
     leases_ok (ds_leases s) \<and> wf_msg (ds_inpacket s)"

lemma dhcpd_okD:
  assumes "dhcpd_ok b s"
  shows "pool_ok b (g_config s)" "length (ds_leases s) = cf_maxleases b" "leases_ok (ds_leases s)"
    "wf_msg (ds_inpacket s)"
  using assms by (simp_all add: dhcpd_ok_def)

lemma leases_ok_unique:
  "leases_ok ls \<Longrightarrow> i < length ls \<Longrightarrow> j < length ls \<Longrightarrow> lease_mac (ls ! i) \<noteq> no_mac \<Longrightarrow>
   lease_mac (ls ! i) = lease_mac (ls ! j) \<Longrightarrow> i = j"
  by (simp add: leases_ok_def)

lemma leases_ok_allocated:
  "leases_ok ls \<Longrightarrow> i < length ls \<Longrightarrow> lease_mac (ls ! i) \<noteq> no_mac \<Longrightarrow> lease_allocated (ls ! i)"
  by (simp add: leases_ok_def)

text \<open>A slot may be given a new lease, as long as no other slot has its client.\<close>

lemma leases_ok_update:
  assumes ok: "leases_ok ls"
    and x: "length (lease_mac x) = 6" "lease_mac x \<noteq> no_mac \<Longrightarrow> lease_allocated x"
    and new: "\<And>j. j < length ls \<Longrightarrow> j \<noteq> i \<Longrightarrow> lease_mac x \<noteq> no_mac \<Longrightarrow> lease_mac (ls ! j) \<noteq> lease_mac x"
  shows "leases_ok (ls[i := x])"
proof -
  have at: "ls[i := x] ! j = (if j = i then x else ls ! j)" if "j < length ls" for j
    using that by (simp add: nth_list_update)
  have "j = k" if jk: "j < length ls" "k < length ls" and m: "lease_mac (ls[i := x] ! j) \<noteq> no_mac"
    and e: "lease_mac (ls[i := x] ! j) = lease_mac (ls[i := x] ! k)" for j k
  proof (cases "j = i \<or> k = i")
    case True
    then show ?thesis using at [OF jk(1)] at [OF jk(2)] m e new [OF jk(1)] new [OF jk(2)] by metis
  next
    case False
    then show ?thesis using at [OF jk(1)] at [OF jk(2)] m e leases_ok_unique [OF ok jk] by simp
  qed
  moreover have "length (lease_mac (ls[i := x] ! j)) = 6" if "j < length ls" for j
    using that ok x by (simp add: at leases_ok_def)
  moreover have "lease_allocated (ls[i := x] ! j)"
    if "j < length ls" "lease_mac (ls[i := x] ! j) \<noteq> no_mac" for j
    using that ok x by (simp add: at leases_ok_def split: if_splits)
  ultimately show ?thesis unfolding leases_ok_def by (simp, blast)
qed

section \<open>The pool\<close>

definition addr_of :: "dhcpd_config_s \<Rightarrow> nat \<Rightarrow> u32" where
  "addr_of c i = ds_startip c + of_nat i"

definition in_pool :: "dhcpd_config_s \<Rightarrow> u32 \<Rightarrow> bool" where
  "in_pool c a \<longleftrightarrow> ds_startip c \<le> a \<and> a \<le> ds_endip c"

definition slot_of :: "dhcpd_config_s \<Rightarrow> u32 \<Rightarrow> nat" where
  "slot_of c a = unat (a - ds_startip c)"

lemma dhcp_leaseipaddr_eq: "dhcp_leaseipaddr i s = addr_of (g_config s) i"
  by (simp add: dhcp_leaseipaddr_def addr_of_def add.commute)

lemma unat_addr_of:
  assumes "pool_ok b c" "i < cf_maxleases b"
  shows "unat (addr_of c i) = unat (ds_startip c) + i"
  using assms by (simp add: addr_of_def pool_ok_def unat_word_ariths unat_of_nat)

lemma in_pool_addr_of: "pool_ok b c \<Longrightarrow> i < cf_maxleases b \<Longrightarrow> in_pool c (addr_of c i)"
  using unat_addr_of [of b c i] by (simp add: in_pool_def word_le_nat_alt pool_ok_def)

lemma slot_of_addr_of [simp]:
  assumes "pool_ok b c" "i < cf_maxleases b"
  shows "slot_of c (addr_of c i) = i"
  using assms by (simp add: slot_of_def addr_of_def pool_ok_def unat_of_nat)

lemma addr_of_slot_of: "addr_of c (slot_of c a) = a"
  by (simp add: slot_of_def addr_of_def)

lemma slot_of_less:
  assumes "pool_ok b c" "in_pool c a"
  shows "slot_of c a < cf_maxleases b"
proof -
  have "unat (a - ds_startip c) = unat a - unat (ds_startip c)"
    using assms by (simp add: in_pool_def unat_sub)
  moreover have "unat a \<le> unat (ds_endip c)" using assms by (simp add: in_pool_def word_le_nat_alt)
  ultimately show ?thesis using assms by (simp add: slot_of_def pool_ok_def) linarith
qed

lemma addr_of_inj:
  "pool_ok b c \<Longrightarrow> i < cf_maxleases b \<Longrightarrow> j < cf_maxleases b \<Longrightarrow> addr_of c i = addr_of c j \<longleftrightarrow> i = j"
  by (metis slot_of_addr_of)

lemma in_pool_nonzero: "pool_ok b c \<Longrightarrow> in_pool c a \<Longrightarrow> a \<noteq> 0"
  by (auto simp: pool_ok_def in_pool_def)

lemma sint_slot:
  assumes "pool_ok b c" "in_pool c a"
  shows "sint (a - ds_startip c) = int (slot_of c a)"
proof -
  have "slot_of c a < 2 ^ 31" using slot_of_less [OF assms] assms by (simp add: pool_ok_def)
  then show ?thesis unfolding slot_of_def by (rule sint_u32)
qed

text \<open>The pool that \<^verbatim>\<open>dhcpd_set_startip\<close> sets.\<close>

lemma pool_ok_set_startip:
  assumes "0 < cf_maxleases b" "cf_maxleases b < 2 ^ 31" "0 < startip" "unat startip + cf_maxleases b < 2 ^ 32"
  shows "pool_ok b (dhcpd_set_startip b startip c)"
proof -
  have "unat (startip + of_nat (cf_maxleases b)) = unat startip + cf_maxleases b"
    using assms by (simp add: unat_word_ariths unat_of_nat)
  moreover from this have "unat (startip + of_nat (cf_maxleases b) - 1) = unat startip + cf_maxleases b - 1"
    using assms(1) by (subst unat_sub) (simp_all add: word_le_nat_alt)
  ultimately show ?thesis using assms by (simp add: pool_ok_def dhcpd_set_startip_def)
qed

section \<open>The operations on the table\<close>

definition reading :: "dhcpd \<Rightarrow> nat \<Rightarrow> u32" where
  "reading s k = (case dos_clock s k of Some t \<Rightarrow> t | None \<Rightarrow> 0)"

lemma dhcpd_time_eq: "dhcpd_time s = (reading s (dos_ticks s), s\<lparr>dos_ticks := Suc (dos_ticks s)\<rparr>)"
  by (simp add: dhcpd_time_def reading_def)

lemma reading_cong: "dos_clock s' = dos_clock s \<Longrightarrow> reading s' k = reading s k"
  by (simp add: reading_def)

lemma reading_update [simp]:
  "reading (s\<lparr>dos_ticks := t\<rparr>) = reading s" "reading (s\<lparr>ds_leases := ls\<rparr>) = reading s"
  by (simp_all add: fun_eq_iff reading_def)

lemma dhcpd_leaseexpired_eq:
  "i < length (ds_leases s) \<Longrightarrow>
   dhcpd_leaseexpired i s =
     (if reading s (dos_ticks s) < lease_expiry (lease_at s i)
      then Some (False, s\<lparr>dos_ticks := Suc (dos_ticks s)\<rparr>)
      else Some (True, s\<lparr>dos_ticks := Suc (dos_ticks s), ds_leases := (ds_leases s)[i := zero_lease]\<rparr>))"
  by (simp add: dhcpd_leaseexpired_def dhcpd_time_eq array_simps)

lemma dhcpd_setlease_eq:
  assumes "dhcpd_ok b s" "in_pool (g_config s) a"
  shows "dhcpd_setlease b mac a e s =
    Some (Some (slot_of (g_config s) a), s\<lparr>dos_ticks := Suc (dos_ticks s),
      ds_leases := (ds_leases s)[slot_of (g_config s) a :=
        \<lparr>lease_mac = take 6 mac, lease_allocated = True, lease_expiry = reading s (dos_ticks s) + e\<rparr>]\<rparr>)"
proof -
  have "sint (a - ds_startip (g_config s)) = int (slot_of (g_config s) a)"
    by (rule sint_slot [OF dhcpd_okD(1) [OF assms(1)] assms(2)])
  moreover have "slot_of (g_config s) a < cf_maxleases b"
    by (rule slot_of_less [OF dhcpd_okD(1) [OF assms(1)] assms(2)])
  ultimately show ?thesis
    using dhcpd_okD(2) [OF assms(1)] by (simp add: dhcpd_setlease_def dhcpd_time_eq array_simps)
qed

lemma dhcpd_findbymac_Some:
  assumes "dhcpd_findbymac b mac s = Some i"
  shows "i < cf_maxleases b" "lease_mac (lease_at s i) = take 6 mac"
  using assms by (auto simp: dhcpd_findbymac_def find_Some_iff)

lemma dhcpd_findbymac_None:
  assumes "dhcpd_findbymac b mac s = None" "i < cf_maxleases b"
  shows "lease_mac (lease_at s i) \<noteq> take 6 mac"
  using assms by (auto simp: dhcpd_findbymac_def find_None_iff)

text \<open>The client that has a lease is found there.\<close>

lemma dhcpd_findbymac_holder:
  assumes ok: "dhcpd_ok b s" and i: "i < cf_maxleases b"
    and m: "lease_mac (lease_at s i) = take 6 mac" "take 6 mac \<noteq> no_mac"
  shows "dhcpd_findbymac b mac s = Some i"
proof (cases "dhcpd_findbymac b mac s")
  case None
  then show ?thesis using dhcpd_findbymac_None [OF None i] m by simp
next
  case (Some j)
  then show ?thesis
    using dhcpd_findbymac_Some [OF Some] m i dhcpd_okD [OF ok] leases_ok_unique [of "ds_leases s" j i] by simp
qed

lemma dhcpd_findbyipaddr_eq:
  assumes "dhcpd_ok b s"
  shows "dhcpd_findbyipaddr a s = Some
    (if in_pool (g_config s) a \<and> lease_allocated (lease_at s (slot_of (g_config s) a))
     then Some (slot_of (g_config s) a) else None)"
proof (cases "in_pool (g_config s) a")
  case True
  then have "slot_of (g_config s) a < length (ds_leases s)"
    using slot_of_less [OF dhcpd_okD(1) [OF assms]] dhcpd_okD(2) [OF assms] by simp
  with True show ?thesis
    by (simp add: dhcpd_findbyipaddr_def in_pool_def array_simps flip: slot_of_def)
next
  case False
  then show ?thesis by (auto simp: dhcpd_findbyipaddr_def in_pool_def)
qed

text \<open>
  A slot is free between two readings of the clock if it is not allocated, or if one of the
  readings is past its expiry.
\<close>

definition slot_free :: "dhcpd \<Rightarrow> nat \<Rightarrow> nat \<Rightarrow> bool" where
  "slot_free s t i \<longleftrightarrow> \<not> lease_allocated (lease_at s i) \<or>
     (\<exists>k. dos_ticks s \<le> k \<and> k < t \<and> lease_expiry (lease_at s i) \<le> reading s k)"

lemma slot_free_mono: "slot_free s t i \<Longrightarrow> t \<le> t' \<Longrightarrow> slot_free s t' i"
  by (auto simp: slot_free_def)

text \<open>The availability of an address of the pool: a slot that is not available keeps its lease.\<close>

lemma lease_available_eq:
  assumes ok: "dhcpd_ok b s" and a: "in_pool (g_config s) a"
  shows "\<exists>lease free t ls. dhcpd_findbyipaddr a s = Some lease \<and>
    lease_available lease s = Some (free, s\<lparr>dos_ticks := t, ds_leases := ls\<rparr>) \<and> dos_ticks s \<le> t \<and>
    (if free then slot_free s t (slot_of (g_config s) a) \<and>
        (ls = ds_leases s \<or> ls = (ds_leases s)[slot_of (g_config s) a := zero_lease])
     else ls = ds_leases s \<and> t = Suc (dos_ticks s) \<and> lease_allocated (lease_at s (slot_of (g_config s) a)) \<and>
        reading s (dos_ticks s) < lease_expiry (lease_at s (slot_of (g_config s) a)))"
proof (cases "lease_allocated (lease_at s (slot_of (g_config s) a))")
  case True
  have i: "slot_of (g_config s) a < length (ds_leases s)"
    using slot_of_less [OF dhcpd_okD(1) [OF ok] a] dhcpd_okD(2) [OF ok] by simp
  show ?thesis
  proof (cases "reading s (dos_ticks s) < lease_expiry (lease_at s (slot_of (g_config s) a))")
    case unexpired: True
    show ?thesis
      by (intro exI [of _ "Some (slot_of (g_config s) a)"] exI [of _ False] exI [of _ "Suc (dos_ticks s)"]
          exI [of _ "ds_leases s"])
         (simp add: dhcpd_findbyipaddr_eq [OF ok] lease_available_def dhcpd_leaseexpired_eq [OF i] a True unexpired)
  next
    case expired: False
    then have "slot_free s (Suc (dos_ticks s)) (slot_of (g_config s) a)"
      unfolding slot_free_def by (intro disjI2 exI [of _ "dos_ticks s"]) simp
    with expired show ?thesis
      by (intro exI [of _ "Some (slot_of (g_config s) a)"] exI [of _ True] exI [of _ "Suc (dos_ticks s)"]
          exI [of _ "(ds_leases s)[slot_of (g_config s) a := zero_lease]"])
         (simp add: dhcpd_findbyipaddr_eq [OF ok] lease_available_def dhcpd_leaseexpired_eq [OF i] a True)
  qed
next
  case False
  then show ?thesis
    by (intro exI [of _ None] exI [of _ True] exI [of _ "dos_ticks s"] exI [of _ "ds_leases s"])
       (simp add: dhcpd_findbyipaddr_eq [OF ok] lease_available_def slot_free_def)
qed

text \<open>The addresses the allocation skips end in 0 or in 255.\<close>

definition usable :: "u32 \<Rightarrow> bool" where
  "usable a \<longleftrightarrow> a AND 0xFF \<noteq> 0 \<and> a AND 0xFF \<noteq> 0xFF"

text \<open>
  The allocation returns: it reserves an address whose slot is free, or gives 0 when every
  usable address from \<open>a\<close> on has a lease that a reading found unexpired. No other slot changes.
\<close>

definition alloc_spec :: "dhcpd_build \<Rightarrow> u32 \<Rightarrow> dhcpd \<Rightarrow> u32 \<Rightarrow> dhcpd \<Rightarrow> bool" where
  "alloc_spec b a s r s' \<longleftrightarrow>
     (\<exists>t \<ge> dos_ticks s.
        r = 0 \<and> s' = s\<lparr>dos_ticks := t\<rparr> \<and>
          (\<forall>x. in_pool (g_config s) x \<and> a \<le> x \<and> usable x \<longrightarrow>
             lease_allocated (lease_at s (slot_of (g_config s) x)) \<and>
             (\<exists>k. dos_ticks s \<le> k \<and> k < t \<and> reading s k < lease_expiry (lease_at s (slot_of (g_config s) x)))) \<or>
        in_pool (g_config s) r \<and> usable r \<and> slot_free s t (slot_of (g_config s) r) \<and>
          s' = s\<lparr>dos_ticks := Suc t, ds_leases := (ds_leases s)[slot_of (g_config s) r :=
            \<lparr>lease_mac = no_mac, lease_allocated = True, lease_expiry = reading s t + cf_offertime b\<rparr>]\<rparr>)"

lemma alloc_spec_skip:
  assumes spec: "alloc_spec b (a + 1) s r s'" and a: "\<not> usable a" "a + 1 \<noteq> 0"
  shows "alloc_spec b a s r s'"
proof -
  have "a + 1 \<le> x" if "a \<le> x" "usable x" for x
    using that a by (metis inc_le word_le_less_eq)
  then show ?thesis using spec unfolding alloc_spec_def by blast
qed

lemma alloc_spec_held:
  assumes spec: "alloc_spec b (a + 1) (s\<lparr>dos_ticks := Suc (dos_ticks s)\<rparr>) r s'" and a: "a + 1 \<noteq> 0"
    and held: "lease_allocated (lease_at s (slot_of (g_config s) a))"
      "reading s (dos_ticks s) < lease_expiry (lease_at s (slot_of (g_config s) a))"
  shows "alloc_spec b a s r s'"
proof -
  obtain t where t: "Suc (dos_ticks s) \<le> t" and
    c: "r = 0 \<and> s' = s\<lparr>dos_ticks := t\<rparr> \<and>
          (\<forall>x. in_pool (g_config s) x \<and> a + 1 \<le> x \<and> usable x \<longrightarrow>
             lease_allocated (lease_at s (slot_of (g_config s) x)) \<and>
             (\<exists>k. Suc (dos_ticks s) \<le> k \<and> k < t \<and> reading s k < lease_expiry (lease_at s (slot_of (g_config s) x)))) \<or>
        in_pool (g_config s) r \<and> usable r \<and> slot_free (s\<lparr>dos_ticks := Suc (dos_ticks s)\<rparr>) t (slot_of (g_config s) r) \<and>
          s' = s\<lparr>dos_ticks := Suc t, ds_leases := (ds_leases s)[slot_of (g_config s) r :=
            \<lparr>lease_mac = no_mac, lease_allocated = True, lease_expiry = reading s t + cf_offertime b\<rparr>]\<rparr>"
    using spec unfolding alloc_spec_def by auto
  from c show ?thesis
  proof (elim disjE conjE)
    assume r: "r = 0" "s' = s\<lparr>dos_ticks := t\<rparr>" and
      all: "\<forall>x. in_pool (g_config s) x \<and> a + 1 \<le> x \<and> usable x \<longrightarrow>
             lease_allocated (lease_at s (slot_of (g_config s) x)) \<and>
             (\<exists>k. Suc (dos_ticks s) \<le> k \<and> k < t \<and> reading s k < lease_expiry (lease_at s (slot_of (g_config s) x)))"
    have "lease_allocated (lease_at s (slot_of (g_config s) x)) \<and>
        (\<exists>k. dos_ticks s \<le> k \<and> k < t \<and> reading s k < lease_expiry (lease_at s (slot_of (g_config s) x)))"
      if x: "in_pool (g_config s) x \<and> a \<le> x \<and> usable x" for x
    proof (cases "x = a")
      case True
      then show ?thesis using held t by (intro conjI exI [of _ "dos_ticks s"]) auto
    next
      case False
      then have "a + 1 \<le> x" using x by (metis inc_le word_le_less_eq)
      then show ?thesis using all x by (metis Suc_leD)
    qed
    then show ?thesis using r t unfolding alloc_spec_def by (intro exI [of _ t]) auto
  next
    assume f: "slot_free (s\<lparr>dos_ticks := Suc (dos_ticks s)\<rparr>) t (slot_of (g_config s) r)"
      and rest: "in_pool (g_config s) r" "usable r" "s' = s\<lparr>dos_ticks := Suc t, ds_leases := (ds_leases s)[slot_of (g_config s) r :=
            \<lparr>lease_mac = no_mac, lease_allocated = True, lease_expiry = reading s t + cf_offertime b\<rparr>]\<rparr>"
    from f have "slot_free s t (slot_of (g_config s) r)" unfolding slot_free_def by (auto dest: Suc_leD)
    then show ?thesis using rest t unfolding alloc_spec_def by (intro exI [of _ t]) auto
  qed
qed

lemma dhcpd_allocloop_spec:
  assumes "dhcpd_ok b s" "ds_startip (g_config s) \<le> a" "unat a \<le> unat (ds_endip (g_config s)) + 1"
  shows "\<exists>r s'. dhcpd_allocloop b (ds_startip (g_config s)) a s = Some (r, s') \<and> alloc_spec b a s r s'"
  using assms
proof (induction "unat (ds_endip (g_config s)) + 1 - unat a" arbitrary: a s)
  case 0
  then have "ds_endip (g_config s) < a" by (simp add: word_less_nat_alt)
  then show ?case
    by (subst dhcpd_allocloop.simps)
       (auto simp: alloc_spec_def in_pool_def intro!: exI [of _ "dos_ticks s"] dest: order.strict_trans1)
next
  case (Suc n)
  note ok = Suc.prems(1)
  have le: "a \<le> ds_endip (g_config s)" using Suc.hyps(2) by (simp add: word_le_nat_alt)
  then have pool: "in_pool (g_config s) a" using Suc.prems(2) by (simp add: in_pool_def)
  have lim: "unat a < 2 ^ 32 - 1"
    using le dhcpd_okD(1) [OF ok] unfolding word_le_nat_alt pool_ok_def by linarith
  then have a1: "unat (a + 1) = unat a + 1" by (simp add: unat_word_ariths)
  then have a2: "a + 1 \<noteq> 0" by (metis Suc_eq_plus1 nat.distinct(1) unat_0)
  have start: "ds_startip (g_config s) \<le> a + 1" "unat (a + 1) \<le> unat (ds_endip (g_config s)) + 1"
    "n = unat (ds_endip (g_config s)) + 1 - unat (a + 1)"
    using Suc.prems(2,3) Suc.hyps(2) le a1 by (simp_all add: word_le_nat_alt)
  show ?case
  proof (cases "usable a")
    case False
    then have step: "dhcpd_allocloop b (ds_startip (g_config s)) a s = dhcpd_allocloop b (ds_startip (g_config s)) (a + 1) s"
      using le by (subst dhcpd_allocloop.simps) (auto simp: usable_def)
    show ?thesis unfolding step
      using Suc.hyps(1) [OF start(3) ok start(1,2)] alloc_spec_skip [OF _ False a2] by blast
  next
    case True
    then have step: "dhcpd_allocloop b st a s = do {
        lease \<leftarrow> dhcpd_findbyipaddr a s;
        (free, s) \<leftarrow> lease_available lease s;
        if free
        then do {
          let (now, s) = dhcpd_time s;
          ls \<leftarrow> array_put (ds_leases s) (unat (a - st))
                  \<lparr>lease_mac = replicate 6 0, lease_allocated = True, lease_expiry = now + cf_offertime b\<rparr>;
          Some (a, s\<lparr>ds_leases := ls\<rparr>)
        }
        else dhcpd_allocloop b st (a + 1) s }" for st
      using le by (subst dhcpd_allocloop.simps) (simp add: usable_def not_less [symmetric])
    obtain lease free t ls where find: "dhcpd_findbyipaddr a s = Some lease"
      and avail: "lease_available lease s = Some (free, s\<lparr>dos_ticks := t, ds_leases := ls\<rparr>)" "dos_ticks s \<le> t"
      and c: "if free then slot_free s t (slot_of (g_config s) a) \<and>
          (ls = ds_leases s \<or> ls = (ds_leases s)[slot_of (g_config s) a := zero_lease])
        else ls = ds_leases s \<and> t = Suc (dos_ticks s) \<and> lease_allocated (lease_at s (slot_of (g_config s) a)) \<and>
          reading s (dos_ticks s) < lease_expiry (lease_at s (slot_of (g_config s) a))"
      using lease_available_eq [OF ok pool] by blast
    have i: "slot_of (g_config s) a < length (ds_leases s)"
      using slot_of_less [OF dhcpd_okD(1) [OF ok] pool] dhcpd_okD(2) [OF ok] by simp
    show ?thesis
    proof (cases free)
      case True
      with c have "slot_free s t (slot_of (g_config s) a)" and
        upd: "ls[slot_of (g_config s) a := x] = (ds_leases s)[slot_of (g_config s) a := x]"
          "length ls = length (ds_leases s)" for x
        by auto
      then show ?thesis
        using True avail pool \<open>usable a\<close> i unfolding step find slot_of_def [symmetric] alloc_spec_def
        by (intro exI [of _ a] exI [of _ "s\<lparr>dos_ticks := Suc t, ds_leases := (ds_leases s)[slot_of (g_config s) a :=
            \<lparr>lease_mac = no_mac, lease_allocated = True, lease_expiry = reading s t + cf_offertime b\<rparr>]\<rparr>"]
            conjI exI [of _ t] disjI2) (simp_all add: dhcpd_time_eq array_simps)
    next
      case False
      then have held: "lease_allocated (lease_at s (slot_of (g_config s) a))"
        "reading s (dos_ticks s) < lease_expiry (lease_at s (slot_of (g_config s) a))"
        and s1: "lease_available lease s = Some (False, s\<lparr>dos_ticks := Suc (dos_ticks s)\<rparr>)"
        using c avail by auto
      have ok1: "dhcpd_ok b (s\<lparr>dos_ticks := Suc (dos_ticks s)\<rparr>)" using ok by (simp add: dhcpd_ok_def)
      obtain r s' where "dhcpd_allocloop b (ds_startip (g_config s)) (a + 1) (s\<lparr>dos_ticks := Suc (dos_ticks s)\<rparr>) = Some (r, s')"
        and "alloc_spec b (a + 1) (s\<lparr>dos_ticks := Suc (dos_ticks s)\<rparr>) r s'"
        using Suc.hyps(1) [of "s\<lparr>dos_ticks := Suc (dos_ticks s)\<rparr>" "a + 1"] start ok1 by auto
      then have "dhcpd_allocloop b (ds_startip (g_config s)) a s = Some (r, s')" "alloc_spec b a s r s'"
        using alloc_spec_held [OF _ a2 held] by (simp_all add: step find s1)
      then show ?thesis by blast
    qed
  qed
qed

lemma dhcpd_allocipaddr_cases:
  assumes ok: "dhcpd_ok b s"
  obtains (none) t where "dhcpd_allocipaddr b s = Some (0, s\<lparr>dos_ticks := t\<rparr>)" "dos_ticks s \<le> t"
      "\<forall>x. in_pool (g_config s) x \<and> usable x \<longrightarrow> lease_allocated (lease_at s (slot_of (g_config s) x)) \<and>
         (\<exists>k. dos_ticks s \<le> k \<and> k < t \<and> reading s k < lease_expiry (lease_at s (slot_of (g_config s) x)))"
  | (addr) a t where "dhcpd_allocipaddr b s = Some (a, s\<lparr>dos_ticks := Suc t, ds_leases := (ds_leases s)[slot_of (g_config s) a :=
        \<lparr>lease_mac = no_mac, lease_allocated = True, lease_expiry = reading s t + cf_offertime b\<rparr>]\<rparr>)"
      "in_pool (g_config s) a" "usable a" "slot_free s t (slot_of (g_config s) a)" "dos_ticks s \<le> t"
proof -
  have "unat (ds_startip (g_config s)) \<le> unat (ds_endip (g_config s)) + 1"
    using dhcpd_okD(1) [OF ok] by (simp add: pool_ok_def)
  then obtain r s' where "dhcpd_allocipaddr b s = Some (r, s')" "alloc_spec b (ds_startip (g_config s)) s r s'"
    using dhcpd_allocloop_spec [OF ok order_refl] unfolding dhcpd_allocipaddr_def by blast
  then show ?thesis using none addr unfolding alloc_spec_def in_pool_def by blast
qed

end
