(* ===== verification/DhcpOptions.thy ===== *)
theory DhcpOptions
  imports DhcpServer
begin

text \<open>
  The options of the DHCP messages. An option is a code and its data; the reply of the server
  is built option by option, and its parser stores the options of a well-formed message one
  after the other. The parser is safe on every message whose fields end in a pad or an end
  option, and reads past the field on others.
\<close>

section \<open>The reply of the server\<close>

lemma parser_field_upd [simp]:
  "parser_field (p\<lparr>p_optlen := x\<rparr>) m = parser_field p m" "parser_field (p\<lparr>p_ptr := n\<rparr>) m = parser_field p m"
  "parser_field (p\<lparr>p_remaining := x\<rparr>) m = parser_field p m"
  by (simp_all add: parser_field_def)

text \<open>The options field of a reply with the options \<open>bs\<close>, and the state while it is built.\<close>

definition reply_field :: "u8 list \<Rightarrow> u8 list" where
  "reply_field bs = g_magiccookie @ bs @ [DHCP_OPTION_END] @ replicate (307 - length bs) 0"

definition building :: "dhcpmsg_s \<Rightarrow> u8 list \<Rightarrow> dhcpd \<Rightarrow> dhcpd" where
  "building out bs s = s\<lparr>ds_outpacket := out\<lparr>m_options := reply_field bs\<rparr>, ds_optend := Some (4 + length bs)\<rparr>"

lemma building_simps [simp]:
  "ds_serverip (building out bs s) = ds_serverip s" "ds_inpacket (building out bs s) = ds_inpacket s"
  "ds_optleasetime (building out bs s) = ds_optleasetime s" "ds_leases (building out bs s) = ds_leases s"
  "g_config (building out bs s) = g_config s" "ds_optend (building out bs s) = Some (4 + length bs)"
  "ds_outpacket (building out bs s) = out\<lparr>m_options := reply_field bs\<rparr>"
  by (simp_all add: building_def)

lemma building_addr [simp]:
  "(building out bs s)\<lparr>ds_outpacket := out\<lparr>m_options := reply_field bs, m_yiaddr := y\<rparr>\<rparr> = building (out\<lparr>m_yiaddr := y\<rparr>) bs s"
  "(building out bs s)\<lparr>ds_outpacket := out\<lparr>m_options := reply_field bs, m_ciaddr := c\<rparr>\<rparr> = building (out\<lparr>m_ciaddr := c\<rparr>) bs s"
  "(building out bs s)\<lparr>ds_outpacket := out\<lparr>m_options := reply_field bs, m_ciaddr := c, m_yiaddr := y\<rparr>\<rparr> =
   building (out\<lparr>m_ciaddr := c, m_yiaddr := y\<rparr>) bs s"
  by (simp_all add: building_def)

lemma length_reply_field: "length bs \<le> 307 \<Longrightarrow> length (reply_field bs) = 312"
  by (simp add: reply_field_def)

lemma reply_field_add:
  assumes "length bs + length new < 307" "new \<noteq> []"
  shows "array_blit (reply_field bs) (4 + length bs) new =
      Some (g_magiccookie @ bs @ new @ replicate (308 - length bs - length new) 0)"
    and "array_put (g_magiccookie @ bs @ new @ replicate (308 - length bs - length new) 0)
      (4 + length bs + length new) DHCP_OPTION_END = Some (reply_field (bs @ new))"
proof -
  have "drop (length new) (255 # replicate (307 - length bs) (0 :: u8)) = replicate (308 - length bs - length new) 0"
    using assms(2) by (cases new) simp_all
  then show "array_blit (reply_field bs) (4 + length bs) new =
      Some (g_magiccookie @ bs @ new @ replicate (308 - length bs - length new) 0)"
    using assms by (simp add: array_blit_def reply_field_def)
  have "308 - length bs - length new = Suc (307 - length bs - length new)" using assms by simp
  then show "array_put (g_magiccookie @ bs @ new @ replicate (308 - length bs - length new) 0)
      (4 + length bs + length new) DHCP_OPTION_END = Some (reply_field (bs @ new))"
    using assms by (simp add: array_put_def reply_field_def list_update_append)
qed

lemma dhcpd_addoption_building:
  assumes "length (snd opt) < 256" "length bs + length (snd opt) < 305"
  shows "dhcpd_addoption (enc_option opt) (building out bs s) =
    Some (length (snd opt) + 2, building out (bs @ enc_option opt) s)"
proof -
  have "array_get (enc_option opt) 1 = Some (of_nat (length (snd opt)))"
    by (simp add: array_get_def enc_option_def)
  moreover have "array_slice (enc_option opt) 0 (length (snd opt) + 2) = Some (enc_option opt)"
    by (simp add: array_slice_def)
  moreover have "enc_option opt \<noteq> []" by (simp add: enc_option_def)
  ultimately show ?thesis
    using reply_field_add [of bs "enc_option opt"] assms
    by (simp add: dhcpd_addoption_def building_def unat_of_nat_u8 add.assoc)
qed

lemma dhcpd_addoption8_building:
  assumes "length bs < 304"
  shows "dhcpd_addoption8 code v (building out bs s) = Some (3, building out (bs @ enc_option (code, [v])) s)"
  using dhcpd_addoption_building [of "(code, [v])" bs out s] assms
  by (simp add: dhcpd_addoption8_def enc_option_def)

lemma dhcpd_addoption32_building:
  assumes "length bs < 301"
  shows "dhcpd_addoption32 code v (building out bs s) = Some (6, building out (bs @ enc_option (code, mem32 v)) s)"
  using dhcpd_addoption_building [of "(code, mem32 v)" bs out s] assms
  by (simp add: dhcpd_addoption32_def enc_option_def)

lemma dhcp_addoption32p_building:
  assumes "length bs < 301"
  shows "dhcp_addoption32p code (mem32 v) (building out bs s) = Some (6, building out (bs @ enc_option (code, mem32 v)) s)"
  using dhcpd_addoption32_building [OF assms, of code v out s]
  by (simp add: dhcp_addoption32p_def dhcpd_addoption32_def array_slice_def)

text \<open>The header of a reply before its addresses, and the options of an offer or an acknowledgement.\<close>

definition reply_head :: "dhcpd \<Rightarrow> dhcpmsg_s" where
  "reply_head s = zero_msg\<lparr>m_op := DHCP_REPLY, m_htype := m_htype (ds_inpacket s), m_hlen := m_hlen (ds_inpacket s),
     m_xid := m_xid (ds_inpacket s), m_chaddr := m_chaddr (ds_inpacket s)\<rparr>"

definition base_options :: "u8 \<Rightarrow> dhcpd \<Rightarrow> dhcp_option list" where
  "base_options mtype s = [(DHCP_OPTION_MSG_TYPE, [mtype]), (DHCP_OPTION_SERVER_ID, mem32 (ds_serverip s))]"

definition addr_option :: "u8 \<Rightarrow> u32 option \<Rightarrow> dhcp_option list" where
  "addr_option code a = (case a of None \<Rightarrow> [] | Some a \<Rightarrow> [(code, mem32 (htonl a))])"

definition net_options :: "u32 \<Rightarrow> dhcpd_config_s \<Rightarrow> dhcp_option list" where
  "net_options leasetime c = (DHCP_OPTION_LEASE_TIME, mem32 (htonl leasetime)) #
     addr_option DHCP_OPTION_SUBNET_MASK (ds_netmask c) @ addr_option DHCP_OPTION_ROUTER (ds_routerip c) @
     addr_option DHCP_OPTION_DNS_SERVER (ds_dnsip c)"

lemma giaddr_reply: "m_giaddr zero_msg = mem32 0"
  by (simp add: zero_msg_def msg_of_bytes_def mem32_0 eval_nat_numeral)

lemma dhcpd_initpacket_eq:
  "dhcpd_initpacket mtype s = Some (building (reply_head s) (enc_options (base_options mtype s)) s)"
proof -
  have "m_options zero_msg = replicate 312 0"
    by (simp add: zero_msg_def msg_of_bytes_def)
  then have "array_blit (m_options zero_msg) 0 g_magiccookie = Some (g_magiccookie @ replicate 308 0)"
    by (simp add: array_blit_def)
  moreover have "array_put (g_magiccookie @ replicate 308 0) 4 DHCP_OPTION_END = Some (reply_field [])"
  proof -
    have "replicate 308 (0 :: u8) = 0 # replicate 307 0" using replicate_Suc [of 307 "0 :: u8"] by simp
    then show ?thesis by (simp add: array_put_def reply_field_def list_update_append)
  qed
  ultimately have "dhcpd_initpacket mtype s = do {
      (_, s) \<leftarrow> dhcpd_addoption8 DHCP_OPTION_MSG_TYPE mtype (building (reply_head s) [] s);
      (_, s) \<leftarrow> dhcpd_addoption32 DHCP_OPTION_SERVER_ID (ds_serverip s) s;
      Some s }"
    by (simp add: dhcpd_initpacket_def giaddr_reply building_def reply_head_def Let_def)
  also have "\<dots> = Some (building (reply_head s) (enc_options (base_options mtype s)) s)"
    by (simp add: dhcpd_addoption8_building dhcpd_addoption32_building base_options_def)
  finally show ?thesis .
qed

lemma length_base_options: "length (enc_options (base_options mtype s)) = 9"
  by (simp add: base_options_def)

lemma length_addr_option: "length (enc_options (addr_option code a)) \<le> 6"
  by (simp add: addr_option_def split: option.split)

lemma length_net_options: "length (enc_options (net_options leasetime c)) \<le> 24"
  using length_addr_option [of 1 "ds_netmask c"] length_addr_option [of 3 "ds_routerip c"]
    length_addr_option [of 6 "ds_dnsip c"]
  by (simp add: net_options_def)

lemma addr_option_building:
  assumes "length bs < 301"
  shows "(case a of None \<Rightarrow> Some (0, building out bs s) | Some v \<Rightarrow> dhcpd_addoption32 code (htonl v) (building out bs s)) =
      Some (length (enc_options (addr_option code a)), building out (bs @ enc_options (addr_option code a)) s)"
    and "(case a of None \<Rightarrow> Some (0, building out bs s) | Some v \<Rightarrow> dhcp_addoption32p code (mem32 (htonl v)) (building out bs s)) =
      Some (length (enc_options (addr_option code a)), building out (bs @ enc_options (addr_option code a)) s)"
  using dhcpd_addoption32_building [OF assms] dhcp_addoption32p_building [OF assms]
  by (simp_all add: addr_option_def split: option.split del: mem32_htonl)

lemma dhcpd_netoptions_building:
  assumes "length bs < 200"
  shows "dhcpd_netoptions leasetime (building out bs s) =
    Some (building out (bs @ enc_options (net_options leasetime (g_config s))) s)"
proof -
  note l = length_addr_option [of 1 "ds_netmask (g_config s)"] length_addr_option [of 3 "ds_routerip (g_config s)"]
    length_addr_option [of 6 "ds_dnsip (g_config s)"]
  show ?thesis
    using assms l
    by (simp add: dhcpd_netoptions_def dhcpd_addoption32_building addr_option_building net_options_def del: mem32_htonl)
qed

text \<open>Where a reply goes, the entries the server adds to the ARP table, and the state after sending.\<close>

definition reply_route :: "dhcpd_build \<Rightarrow> bool \<Rightarrow> dhcpmsg_s \<Rightarrow> u32 \<times> (u8 list \<times> u8 list) list" where
  "reply_route b bc out =
     (if cf_ignorebroadcast b \<or> bc then (INADDR_BROADCAST, [])
      else if m_ciaddr out \<noteq> mem32 0 then (of_mem32 (m_ciaddr out), [(m_ciaddr out, m_chaddr out)])
      else if m_flags out AND htons BOOTP_BROADCAST \<noteq> 0 then (INADDR_BROADCAST, [])
      else (of_mem32 (m_yiaddr out), [(m_yiaddr out, m_chaddr out)]))"

definition reply_sent :: "dhcpd_build \<Rightarrow> bool \<Rightarrow> dhcpmsg_s \<Rightarrow> dhcp_option list \<Rightarrow> dhcpd \<Rightarrow> dhcpd" where
  "reply_sent b bc out opts s = (building out (enc_options opts) s)\<lparr>
     dos_arp := dos_arp s @ snd (reply_route b bc out),
     dos_sends := Suc (dos_sends s),
     dos_sent := dos_sent s @ (if dos_sendto s (dos_sends s)
       then [(fst (reply_route b bc out), htons 68,
              msg_header out @ g_magiccookie @ enc_options opts @ [DHCP_OPTION_END])] else [])\<rparr>"

lemma reply_sent_simps [simp]:
  "ds_serverip (reply_sent b bc out opts s) = ds_serverip s" "ds_inpacket (reply_sent b bc out opts s) = ds_inpacket s"
  "ds_optreqip (reply_sent b bc out opts s) = ds_optreqip s"
  "ds_optserverip (reply_sent b bc out opts s) = ds_optserverip s"
  "ds_optmsgtype (reply_sent b bc out opts s) = ds_optmsgtype s"
  "ds_optleasetime (reply_sent b bc out opts s) = ds_optleasetime s"
  "ds_leases (reply_sent b bc out opts s) = ds_leases s"
  "g_config (reply_sent b bc out opts s) = g_config s" "dos_ticks (reply_sent b bc out opts s) = dos_ticks s"
  "dos_clock (reply_sent b bc out opts s) = dos_clock s" "dos_sendto (reply_sent b bc out opts s) = dos_sendto s"
  "dos_sends (reply_sent b bc out opts s) = Suc (dos_sends s)"
  by (simp_all add: reply_sent_def building_def)

lemma dhcpd_sendpacket_building:
  assumes "wf_msg out" "length (enc_options opts) < 200"
  shows "dhcpd_sendpacket b bc (building out (enc_options opts) s) =
    Some (if dos_sendto s (dos_sends s) then int (241 + length (enc_options opts)) else -1, reply_sent b bc out opts s)"
proof -
  have "array_slice (msg_bytes (out\<lparr>m_options := reply_field (enc_options opts)\<rparr>)) 0 (236 + (4 + length (enc_options opts)) + 1) =
      Some (msg_header out @ g_magiccookie @ enc_options opts @ [DHCP_OPTION_END])"
    using assms by (simp add: array_slice_def msg_bytes_header reply_field_def)
  moreover have "length (msg_header out @ g_magiccookie @ enc_options opts @ [DHCP_OPTION_END :: u8]) =
      241 + length (enc_options opts)"
    using assms by simp
  ultimately show ?thesis
    by (simp add: dhcpd_sendpacket_def Let_def reply_sent_def reply_route_def building_def dhcpd_arpupdate_def)
qed

lemma wf_reply_head [simp]:
  "wf_msg (ds_inpacket s) \<Longrightarrow> wf_msg (reply_head s)"
  "wf_msg m \<Longrightarrow> wf_msg (m\<lparr>m_yiaddr := mem32 a\<rparr>)"
  "wf_msg m \<Longrightarrow> wf_msg k \<Longrightarrow> wf_msg (m\<lparr>m_ciaddr := m_ciaddr k\<rparr>)"
  "wf_msg m \<Longrightarrow> wf_msg k \<Longrightarrow> wf_msg (m\<lparr>m_ciaddr := m_ciaddr k, m_yiaddr := mem32 a\<rparr>)"
  using wf_zero_msg by (auto simp: reply_head_def wf_msg_def)

definition offer_msg :: "u32 \<Rightarrow> dhcpd \<Rightarrow> dhcpmsg_s" where
  "offer_msg ipaddr s = (reply_head s)\<lparr>m_yiaddr := mem32 (htonl ipaddr)\<rparr>"

definition ack_msg :: "u32 \<Rightarrow> dhcpd \<Rightarrow> dhcpmsg_s" where
  "ack_msg ipaddr s = (reply_head s)\<lparr>m_ciaddr := m_ciaddr (ds_inpacket s), m_yiaddr := mem32 (htonl ipaddr)\<rparr>"

definition nak_msg :: "dhcpd \<Rightarrow> dhcpmsg_s" where
  "nak_msg s = (reply_head s)\<lparr>m_ciaddr := m_ciaddr (ds_inpacket s)\<rparr>"

lemma wf_reply_msg:
  assumes "wf_msg (ds_inpacket s)"
  shows "wf_msg (offer_msg a s)" "wf_msg (ack_msg a s)" "wf_msg (nak_msg s)"
  using assms by (simp_all add: offer_msg_def ack_msg_def nak_msg_def del: mem32_htonl)

lemma dhcpd_sendoffer_eq:
  assumes "wf_msg (ds_inpacket s)"
  shows "dhcpd_sendoffer b ipaddr leasetime s =
    Some (if dos_sendto s (dos_sends s)
          then int (241 + length (enc_options (base_options DHCPOFFER s @ net_options leasetime (g_config s)))) else -1,
      reply_sent b (cf_ignorebroadcast b) (offer_msg ipaddr s)
        (base_options DHCPOFFER s @ net_options leasetime (g_config s)) s)"
proof -
  have len: "length (enc_options (base_options DHCPOFFER s @ net_options leasetime (g_config s))) < 200"
    using length_base_options [of 2 s] length_net_options [of leasetime "g_config s"] by simp
  show ?thesis
    using dhcpd_sendpacket_building [OF wf_reply_msg(1) [OF assms] len, of b "cf_ignorebroadcast b" ipaddr s]
      length_base_options [of 2 s]
    by (simp add: dhcpd_sendoffer_def dhcpd_initpacket_eq dhcpd_netoptions_building offer_msg_def Let_def del: mem32_htonl)
qed

lemma dhcpd_sendnak_eq:
  assumes "wf_msg (ds_inpacket s)"
  shows "dhcpd_sendnak b s =
    Some (if dos_sendto s (dos_sends s) then int (241 + length (enc_options (base_options DHCPNAK s))) else -1,
      reply_sent b True (nak_msg s) (base_options DHCPNAK s) s)"
  using dhcpd_sendpacket_building [OF wf_reply_msg(3) [OF assms], of "base_options DHCPNAK s" b True s]
    length_base_options [of 6 s]
  by (simp add: dhcpd_sendnak_def dhcpd_initpacket_eq nak_msg_def Let_def)

definition granted_time :: "dhcpd_build \<Rightarrow> dhcpd \<Rightarrow> u32 \<Rightarrow> u32" where
  "granted_time b s t = snd (dhcpd_verifyreqleasetime b s t)"

lemma dhcpd_sendack_eq:
  assumes "wf_msg (ds_inpacket s)"
  shows "dhcpd_sendack b ipaddr s =
    (let s1 = reply_sent b (cf_ignorebroadcast b) (ack_msg ipaddr s)
                (base_options DHCPACK s @ net_options (granted_time b s (cf_leasetime b)) (g_config s)) s in
     if dos_sendto s (dos_sends s)
     then do {
       (_, s2) \<leftarrow> dhcpd_setlease b (m_chaddr (ds_inpacket s)) ipaddr (granted_time b s (cf_leasetime b)) s1;
       Some (0, s2)
     }
     else Some (-1, s1))"
proof -
  let ?t = "granted_time b s (cf_leasetime b)"
  have len: "length (enc_options (base_options DHCPACK s @ net_options ?t (g_config s))) < 200"
    using length_base_options [of 5 s] length_net_options [of ?t "g_config s"] by simp
  have t: "snd (dhcpd_verifyreqleasetime b (building out bs s) (cf_leasetime b)) = ?t" for out bs
    by (simp add: granted_time_def dhcpd_verifyreqleasetime_def)
  show ?thesis
    using dhcpd_sendpacket_building [OF wf_reply_msg(2) [OF assms] len, of b "cf_ignorebroadcast b" ipaddr s]
      length_base_options [of 5 s]
    by (simp add: dhcpd_sendack_def dhcpd_initpacket_eq dhcpd_netoptions_building ack_msg_def Let_def t del: mem32_htonl)
qed

section \<open>The parser of the server\<close>

text \<open>What the server keeps of an option.\<close>

definition option_store :: "dhcp_option \<Rightarrow> dhcpd \<Rightarrow> dhcpd" where
  "option_store opt s =
     (let code = fst opt; data = snd opt in
      if code = DHCP_OPTION_REQ_IPADDR \<and> 4 \<le> length data then s\<lparr>ds_optreqip := ntohl (of_mem32 (take 4 data))\<rparr>
      else if code = DHCP_OPTION_LEASE_TIME \<and> 4 \<le> length data then s\<lparr>ds_optleasetime := ntohl (of_mem32 (take 4 data))\<rparr>
      else if code = DHCP_OPTION_MSG_TYPE \<and> 1 \<le> length data then s\<lparr>ds_optmsgtype := data ! 0\<rparr>
      else if code = DHCP_OPTION_SERVER_ID \<and> 4 \<le> length data then s\<lparr>ds_optserverip := ntohl (of_mem32 (take 4 data))\<rparr>
      else s)"

definition wf_option :: "dhcp_option \<Rightarrow> bool" where
  "wf_option opt \<longleftrightarrow> fst opt \<notin> {DHCP_OPTION_PAD, DHCP_OPTION_OVERLOAD, DHCP_OPTION_END} \<and> length (snd opt) < 256"

lemma option_store_inpacket [simp]: "ds_inpacket (option_store opt s) = ds_inpacket s"
  by (simp add: option_store_def Let_def)

lemma parser_take_enc:
  assumes "parser_field p (ds_inpacket s) = pre @ enc_option opt @ rest" "p_ptr p = length pre"
    "length (snd opt) < 256"
  shows "parser_take n store p s =
    (let q = p\<lparr>p_optlen := int (length (snd opt)) + 2\<rparr> in
     case (if n \<le> int (length (snd opt)) + 2 \<and> int (length (snd opt)) + 2 < p_remaining p then store q s else Some (q, s)) of
       None \<Rightarrow> None
     | Some (q, s) \<Rightarrow> Some (Some (parser_advance q), s))"
proof -
  have "parser_length p (ds_inpacket s) = Some (p\<lparr>p_optlen := int (length (snd opt)) + 2\<rparr>)"
    using assms by (simp add: parser_length_def array_get_def enc_option_def nth_append uint_of_nat_u8)
  then show ?thesis
    by (simp add: parser_take_def Let_def split: option.split)
qed

lemma dhcpd_parseoption_enc:
  assumes f: "parser_field p (ds_inpacket s) = pre @ enc_option opt @ rest" "p_ptr p = length pre"
    and opt: "wf_option opt" and rest: "int (length (snd opt)) + 2 < p_remaining p"
  shows "dhcpd_parseoption p s = Some (Some (p\<lparr>p_ptr := length pre + length (enc_option opt),
      p_remaining := p_remaining p - int (length (enc_option opt)), p_optlen := int (length (snd opt)) + 2\<rparr>),
    option_store opt s)"
proof -
  let ?q = "p\<lparr>p_optlen := int (length (snd opt)) + 2\<rparr>"
  have code: "array_get (parser_field p (ds_inpacket s)) (p_ptr p) = Some (fst opt)"
    using f by (simp add: array_get_def enc_option_def nth_append)
  have f': "parser_field ?q (ds_inpacket s) = pre @ enc_option opt @ rest" using f by simp
  have d8: "parser_data8 ?q s = Some (snd opt ! 0)" if "1 \<le> length (snd opt)"
    using that f' f(2) by (cases "snd opt") (simp_all add: parser_data8_def array_get_def enc_option_def nth_append)
  have d32: "parser_data32 ?q s = Some (ntohl (of_mem32 (take 4 (snd opt))))" if "4 \<le> length (snd opt)"
    using that f' f(2) by (simp add: parser_data32_def array_slice_def enc_option_def)
  have adv: "nat (int (length (snd opt)) + 2) = Suc (Suc (length (snd opt)))" by linarith
  show ?thesis
    using opt rest f(2)
    unfolding dhcpd_parseoption_def code parser_take_enc [OF f conjunct2 [OF opt [unfolded wf_option_def]]]
    by (auto simp: Let_def option_store_def wf_option_def d8 d32 parser_advance_def adv)
qed

lemma dhcpd_parseloop_enc:
  assumes "parser_field p (ds_inpacket s) = pre @ enc_options opts @ DHCP_OPTION_END # rest"
    "p_ptr p = length pre" "p_remaining p = int (length (enc_options opts) + 1 + length rest)"
    "p_currfield p = 0" "p_overloaded p = 0" "\<forall>opt \<in> set opts. wf_option opt"
  shows "dhcpd_parseloop p s = Some (True, fold option_store opts s)"
  using assms
proof (induction opts arbitrary: p s pre)
  case Nil
  then show ?case by (subst dhcpd_parseloop.simps) (simp add: dhcpd_parseoption_def array_get_def nth_append)
next
  case (Cons opt opts)
  let ?q = "p\<lparr>p_ptr := length pre + length (enc_option opt),
      p_remaining := p_remaining p - int (length (enc_option opt)), p_optlen := int (length (snd opt)) + 2\<rparr>"
  have step: "dhcpd_parseoption p s = Some (Some ?q, option_store opt s)"
    by (rule dhcpd_parseoption_enc [where rest = "enc_options opts @ DHCP_OPTION_END # rest"]) (use Cons.prems in simp_all)
  have "dhcpd_parseloop ?q (option_store opt s) = Some (True, fold option_store opts (option_store opt s))"
    by (rule Cons.IH [where pre = "pre @ enc_option opt"]) (use Cons.prems in \<open>simp_all add: parser_field_def\<close>)
  moreover have "0 < p_remaining ?q" using Cons.prems by simp
  ultimately show ?case by (subst dhcpd_parseloop.simps) (simp add: step)
qed

definition options_reset :: "dhcpd \<Rightarrow> dhcpd" where
  "options_reset s = s\<lparr>ds_optmsgtype := 0, ds_optreqip := 0, ds_optserverip := 0, ds_optleasetime := 0, ds_optend := None\<rparr>"

lemma dhcpd_parseoptions_enc:
  assumes "m_options (ds_inpacket s) = g_magiccookie @ enc_options opts @ DHCP_OPTION_END # rest"
    "length (m_options (ds_inpacket s)) = 312" "\<forall>opt \<in> set opts. wf_option opt"
  shows "dhcpd_parseoptions s = Some (True, fold option_store opts (options_reset s))"
proof -
  have len: "int (length (enc_options opts) + 1 + length rest) = 308" using assms(1,2) by simp
  have "dhcpd_parseloop \<lparr>p_currfield = 0, p_ptr = 4, p_remaining = 308, p_overloaded = 0, p_optlen = 0\<rparr> (options_reset s) =
      Some (True, fold option_store opts (options_reset s))"
    by (rule dhcpd_parseloop_enc [where pre = g_magiccookie and rest = rest])
       (use assms len in \<open>simp_all add: parser_field_def options_reset_def\<close>)
  moreover have "array_slice (m_options (ds_inpacket s)) 0 4 = Some g_magiccookie"
    using assms(1) by (simp add: array_slice_def)
  ultimately show ?thesis by (simp add: dhcpd_parseoptions_def options_reset_def)
qed

text \<open>A field ends safely if its last byte is a pad or an end option: only the length byte is read unchecked.\<close>

definition field_safe :: "u8 list \<Rightarrow> bool" where
  "field_safe f \<longleftrightarrow> f \<noteq> [] \<and> last f \<in> {DHCP_OPTION_PAD, DHCP_OPTION_END}"

definition parser_ok :: "dhcpd_parser \<Rightarrow> dhcpmsg_s \<Rightarrow> bool" where
  "parser_ok p m \<longleftrightarrow> p_currfield p \<le> 2 \<and> 0 < p_remaining p \<and> 0 \<le> p_optlen p \<and>
     int (p_ptr p) + p_remaining p = int (length (parser_field p m))"

lemma parser_take_safe:
  assumes ok: "parser_ok p (ds_inpacket s)" "1 < p_remaining p"
    and store: "\<And>q. parser_field q (ds_inpacket s) = parser_field p (ds_inpacket s) \<Longrightarrow> p_ptr q = p_ptr p \<Longrightarrow>
      p_remaining q = p_remaining p \<Longrightarrow> n \<le> p_optlen q \<Longrightarrow> p_optlen q < p_remaining q \<Longrightarrow> store q s \<noteq> None"
  shows "parser_take n store p s \<noteq> None"
proof -
  have "p_ptr p + 1 < length (parser_field p (ds_inpacket s))" using ok by (simp add: parser_ok_def)
  then obtain v :: u8 where v: "parser_length p (ds_inpacket s) = Some (p\<lparr>p_optlen := int (unat v) + 2\<rparr>)"
    by (simp add: parser_length_def array_simps)
  have "store (p\<lparr>p_optlen := int (unat v) + 2\<rparr>) s \<noteq> None"
    if "n \<le> int (unat v) + 2 \<and> int (unat v) + 2 < p_remaining p"
    using that by (intro store) (simp_all add: parser_field_def)
  then show ?thesis
    using v by (auto simp: parser_take_def split: prod.split)
qed

lemma dhcpd_parseoption_safe:
  assumes ok: "parser_ok p (ds_inpacket s)" and f: "field_safe (parser_field p (ds_inpacket s))"
  shows "dhcpd_parseoption p s \<noteq> None"
proof -
  let ?f = "parser_field p (ds_inpacket s)"
  have i: "p_ptr p < length ?f" using ok by (simp add: parser_ok_def)
  have rem: "1 < p_remaining p" if "?f ! p_ptr p \<notin> {0, 255}"
  proof (rule ccontr)
    assume "\<not> 1 < p_remaining p"
    then have "p_ptr p = length ?f - 1" using ok unfolding parser_ok_def by linarith
    then show False using f that by (auto simp: field_safe_def last_conv_nth)
  qed
  have take: "parser_take n store p s \<noteq> None"
    if "?f ! p_ptr p \<notin> {0, 255}"
      "\<And>q. parser_field q (ds_inpacket s) = ?f \<Longrightarrow> p_ptr q = p_ptr p \<Longrightarrow>
      p_remaining q = p_remaining p \<Longrightarrow> n \<le> p_optlen q \<Longrightarrow> p_optlen q < p_remaining q \<Longrightarrow> store q s \<noteq> None" for n store
    using parser_take_safe [OF ok rem [OF that(1)]] that(2) by blast
  have d8: "parser_data8 q s \<noteq> None" if "parser_field q (ds_inpacket s) = ?f" "p_ptr q = p_ptr p"
      "p_remaining q = p_remaining p" "3 \<le> p_optlen q" "p_optlen q < p_remaining q" for q
    using that ok by (simp add: parser_data8_def array_get_def parser_ok_def)
  have d32: "parser_data32 q s \<noteq> None" if "parser_field q (ds_inpacket s) = ?f" "p_ptr q = p_ptr p"
      "p_remaining q = p_remaining p" "6 \<le> p_optlen q" "p_optlen q < p_remaining q" for q
    using that ok by (simp add: parser_data32_def array_slice_def parser_ok_def)
  have t8: "parser_take 3 (\<lambda>p s. do { v \<leftarrow> parser_data8 p s; Some (g p s v) }) p s \<noteq> None"
    if "?f ! p_ptr p \<notin> {0, 255}" for g
    by (rule take [OF that], rule bind_Some_ne, rule d8; assumption)
  have t32: "parser_take 6 (\<lambda>p s. do { v \<leftarrow> parser_data32 p s; Some (g p s v) }) p s \<noteq> None"
    if "?f ! p_ptr p \<notin> {0, 255}" for g
    by (rule take [OF that], rule bind_Some_ne, rule d32; assumption)
  have t0: "parser_take 2 (\<lambda>p s. Some (p, s)) p s \<noteq> None" if "?f ! p_ptr p \<notin> {0, 255}"
    by (intro take [OF that]) auto
  show ?thesis
    unfolding dhcpd_parseoption_def array_get_Some [OF i] Option.bind.simps
    by (intro if_ne t8 t32 t0) simp_all
qed

text \<open>The parser changes nothing but the parsed options.\<close>

definition without_options :: "dhcpd \<Rightarrow> dhcpd" where
  "without_options s = s\<lparr>ds_optmsgtype := 0, ds_optreqip := 0, ds_optserverip := 0, ds_optleasetime := 0\<rparr>"

lemma without_options_upd [simp]:
  "without_options (s\<lparr>ds_optmsgtype := mt\<rparr>) = without_options s" "without_options (s\<lparr>ds_optreqip := ri\<rparr>) = without_options s"
  "without_options (s\<lparr>ds_optserverip := si\<rparr>) = without_options s" "without_options (s\<lparr>ds_optleasetime := lt\<rparr>) = without_options s"
  by (simp_all add: without_options_def)

lemma without_options_simps:
  assumes "without_options s' = without_options s"
  shows "ds_inpacket s' = ds_inpacket s" "ds_serverip s' = ds_serverip s" "ds_leases s' = ds_leases s"
    "g_config s' = g_config s" "dos_clock s' = dos_clock s" "dos_ticks s' = dos_ticks s"
    "dos_sendto s' = dos_sendto s" "dos_sends s' = dos_sends s" "dos_sent s' = dos_sent s" "dos_arp s' = dos_arp s"
  using arg_cong [OF assms, of ds_inpacket] arg_cong [OF assms, of ds_serverip] arg_cong [OF assms, of ds_leases]
    arg_cong [OF assms, of g_config] arg_cong [OF assms, of dos_clock] arg_cong [OF assms, of dos_ticks]
    arg_cong [OF assms, of dos_sendto] arg_cong [OF assms, of dos_sends] arg_cong [OF assms, of dos_sent]
    arg_cong [OF assms, of dos_arp]
  by (simp_all add: without_options_def)

lemma parser_take_frame:
  assumes "parser_take n store p s = Some (r, s')"
    "\<And>q q' s'. store q s = Some (q', s') \<Longrightarrow> without_options s' = without_options s"
  shows "without_options s' = without_options s"
  using assms by (auto simp: parser_take_def split: bind_splits if_splits)

lemma dhcpd_parseoption_frame:
  assumes "dhcpd_parseoption p s = Some (r, s')"
  shows "without_options s' = without_options s"
proof -
  obtain code where "array_get (parser_field p (ds_inpacket s)) (p_ptr p) = Some code"
    using assms unfolding dhcpd_parseoption_def by (auto split: bind_splits)
  then show ?thesis
    using assms unfolding dhcpd_parseoption_def
    by (simp split: if_split_asm) (erule parser_take_frame; auto split: bind_splits)+
qed

lemma dhcpd_parseloop_step:
  assumes "dhcpd_parseoption p s = Some (r, s1)"
  shows "dhcpd_parseloop p s = (case r of None \<Rightarrow> Some (True, s1)
    | Some q \<Rightarrow> if 0 < p_remaining q then dhcpd_parseloop q s1 else Some (False, s1))"
  by (subst dhcpd_parseloop.simps) (simp add: assms split: option.split)

lemma dhcpd_parseloop_frame:
  "dhcpd_parseloop p s = Some (ok, s') \<Longrightarrow> without_options s' = without_options s"
proof (induction p s rule: dhcpd_parseloop.induct)
  case (1 p s)
  obtain r s1 where r: "dhcpd_parseoption p s = Some (r, s1)"
    using 1(2) dhcpd_parseloop.simps [of p s] by (auto split: option.splits)
  have "without_options s' = without_options s1"
    using 1(1) [OF r refl] 1(2) unfolding dhcpd_parseloop_step [OF r]
    by (auto split: if_splits option.splits)
  then show ?case using dhcpd_parseoption_frame [OF r] by simp
qed

lemma dhcpd_parseloop_safe:
  assumes "parser_ok p (ds_inpacket s)" "wf_msg (ds_inpacket s)"
    "field_safe (m_options (ds_inpacket s))" "field_safe (m_file (ds_inpacket s))" "field_safe (m_sname (ds_inpacket s))"
  shows "dhcpd_parseloop p s \<noteq> None"
  using assms
proof (induction p s rule: dhcpd_parseloop.induct)
  case (1 p s)
  have "field_safe (parser_field p (ds_inpacket s))" using 1 by (simp add: parser_field_def)
  then obtain r s1 where r: "dhcpd_parseoption p s = Some (r, s1)"
    using dhcpd_parseoption_safe [OF 1(2)] by auto
  have inp: "ds_inpacket s1 = ds_inpacket s"
    by (rule without_options_simps(1) [OF dhcpd_parseoption_frame [OF r]])
  have "parser_ok q (ds_inpacket s1)" if "r = Some q" "0 < p_remaining q" for q
    using that 1(2,3) inp
    by (cases rule: dhcpd_parseoption_cases [OF r])
       (auto simp: parser_ok_def parser_advance_def parser_field_def wf_msg_def)
  then show ?case
    using 1(1) [OF r refl] 1(3-) inp unfolding dhcpd_parseloop_step [OF r]
    by (auto split: if_splits option.splits)
qed

text \<open>The server parses every message with safe fields without reading outside of them.\<close>

lemma dhcpd_parseoptions_safe:
  assumes "wf_msg (ds_inpacket s)"
    "field_safe (m_options (ds_inpacket s))" "field_safe (m_file (ds_inpacket s))" "field_safe (m_sname (ds_inpacket s))"
  shows "dhcpd_parseoptions s \<noteq> None"
proof -
  let ?p = "\<lparr>p_currfield = 0, p_ptr = 4, p_remaining = 308, p_overloaded = 0, p_optlen = 0\<rparr>"
  let ?s = "s\<lparr>ds_optmsgtype := 0, ds_optreqip := 0, ds_optserverip := 0, ds_optleasetime := 0, ds_optend := None\<rparr>"
  have "length (m_options (ds_inpacket s)) = 312" using assms(1) by (simp add: wf_msg_def)
  then have "parser_ok ?p (ds_inpacket ?s)" and "array_slice (m_options (ds_inpacket s)) 0 4 \<noteq> None"
    by (simp_all add: parser_ok_def parser_field_def array_slice_def)
  moreover have "dhcpd_parseloop ?p ?s \<noteq> None"
    by (rule dhcpd_parseloop_safe) (use assms calculation in simp_all)
  ultimately show ?thesis by (auto simp: dhcpd_parseoptions_def)
qed

lemma dhcpd_parseoptions_frame:
  assumes "dhcpd_parseoptions s = Some (ok, s')"
  shows "ds_inpacket s' = ds_inpacket s" "ds_serverip s' = ds_serverip s" "ds_leases s' = ds_leases s"
    "g_config s' = g_config s" "dos_clock s' = dos_clock s" "dos_ticks s' = dos_ticks s"
    "dos_sendto s' = dos_sendto s" "dos_sends s' = dos_sends s" "dos_sent s' = dos_sent s" "dos_arp s' = dos_arp s"
proof -
  have "s' = s \<or> without_options s' = without_options (s\<lparr>ds_optend := None\<rparr>)"
    using assms by (auto simp: dhcpd_parseoptions_def split: bind_splits if_splits dest!: dhcpd_parseloop_frame)
       (simp_all add: without_options_def)
  then show "ds_inpacket s' = ds_inpacket s" "ds_serverip s' = ds_serverip s" "ds_leases s' = ds_leases s"
    "g_config s' = g_config s" "dos_clock s' = dos_clock s" "dos_ticks s' = dos_ticks s"
    "dos_sendto s' = dos_sendto s" "dos_sends s' = dos_sends s" "dos_sent s' = dos_sent s" "dos_arp s' = dos_arp s"
    by (auto dest: without_options_simps)
qed

text \<open>Pads are skipped one by one; an option code in the last byte makes the parser read past the field.\<close>

lemma dhcpd_parseloop_pads:
  assumes "parser_field p (ds_inpacket s) = pre @ replicate n 0 @ rest" "p_ptr p = length pre" "0 < length rest"
    "p_remaining p = int (n + length rest)" "0 < n"
  shows "dhcpd_parseloop p s = dhcpd_parseloop (p\<lparr>p_ptr := length pre + n, p_remaining := int (length rest), p_optlen := 1\<rparr>) s"
  using assms
proof (induction n arbitrary: p pre)
  case (Suc n)
  let ?q = "p\<lparr>p_ptr := length pre + 1, p_remaining := int (n + length rest), p_optlen := 1\<rparr>"
  have "dhcpd_parseoption p s = Some (Some ?q, s)"
    using Suc.prems by (simp add: dhcpd_parseoption_def array_get_def nth_append parser_advance_def)
  moreover have "0 < int n + int (length rest)" using Suc.prems(3) by linarith
  ultimately have step: "dhcpd_parseloop p s = dhcpd_parseloop ?q s" by (simp add: dhcpd_parseloop_step)
  show ?case
  proof (cases "n = 0")
    case True
    then show ?thesis using step by simp
  next
    case False
    have "parser_field ?q (ds_inpacket s) = (pre @ [0]) @ replicate n 0 @ rest"
      using Suc.prems(1) by simp
    then have "dhcpd_parseloop ?q s =
        dhcpd_parseloop (?q\<lparr>p_ptr := length (pre @ [0 :: u8]) + n, p_remaining := int (length rest), p_optlen := 1\<rparr>) s"
      using Suc.prems(3) False by (intro Suc.IH) simp_all
    then show ?thesis using step by simp
  qed
qed simp

lemma dhcpd_parseoption_last:
  assumes "parser_field p (ds_inpacket s) = pre @ [c]" "p_ptr p = length pre" "c \<notin> {DHCP_OPTION_PAD, DHCP_OPTION_END}"
  shows "dhcpd_parseoption p s = None"
proof -
  have "parser_take n store p s = None" for n store
    using assms(1,2) by (simp add: parser_take_def parser_length_def array_get_def)
  then show ?thesis
    using assms by (simp add: dhcpd_parseoption_def array_get_def nth_append)
qed

lemma dhcpd_parseoptions_overread:
  assumes opts: "m_options (ds_inpacket s) = g_magiccookie @ replicate 307 0 @ [c]"
    and c: "c \<notin> {DHCP_OPTION_PAD, DHCP_OPTION_END}"
  shows "dhcpd_parseoptions s = None"
proof -
  let ?p = "\<lparr>p_currfield = 0, p_ptr = 4, p_remaining = 308, p_overloaded = 0, p_optlen = 0\<rparr>"
  let ?q = "?p\<lparr>p_ptr := 311, p_remaining := 1, p_optlen := 1\<rparr>"
  have f: "parser_field p (ds_inpacket (options_reset s)) = g_magiccookie @ replicate 307 0 @ [c]" if "p_currfield p = 0" for p
    using that opts by (simp add: parser_field_def options_reset_def)
  have "dhcpd_parseloop ?p (options_reset s) = dhcpd_parseloop ?q (options_reset s)"
    using dhcpd_parseloop_pads [OF f, of ?p] by simp
  also have "dhcpd_parseoption ?q (options_reset s) = None"
    by (rule dhcpd_parseoption_last [where pre = "g_magiccookie @ replicate 307 0", OF _ _ c]) (simp_all add: f)
  then have "dhcpd_parseloop ?q (options_reset s) = None" by (subst dhcpd_parseloop.simps) simp
  finally show ?thesis
    using opts by (simp add: dhcpd_parseoptions_def array_slice_def options_reset_def)
qed

text \<open>
  When the options continue in the file field, \<^verbatim>\<open>optlen\<close> still has the length of the last option,
  and the parser skips as many bytes of the file: here the whole message type.
\<close>

lemma dhcpd_parseoptions_overload:
  assumes len: "wf_msg (ds_inpacket s)"
    and opts: "m_options (ds_inpacket s) = g_magiccookie @ [DHCP_OPTION_OVERLOAD, 1, 1, DHCP_OPTION_END] @ rest"
    and f: "m_file (ds_inpacket s) = [DHCP_OPTION_MSG_TYPE, 1, t, DHCP_OPTION_END] @ rest'"
  shows "dhcpd_parseoptions s = Some (True, options_reset s)"
proof -
  let ?p = "\<lparr>p_currfield = 0, p_ptr = 4, p_remaining = 308, p_overloaded = 0, p_optlen = 0\<rparr>"
  let ?p1 = "\<lparr>p_currfield = 0, p_ptr = 7, p_remaining = 305, p_overloaded = 1, p_optlen = 3\<rparr>"
  let ?p2 = "\<lparr>p_currfield = 1, p_ptr = 3, p_remaining = 125, p_overloaded = 1, p_optlen = 3\<rparr>"
  let ?s = "options_reset s"
  have inp: "ds_inpacket ?s = ds_inpacket s" by (simp add: options_reset_def)
  have "dhcpd_parseoption ?p ?s = Some (Some ?p1, ?s)"
    by (simp add: dhcpd_parseoption_def array_get_def parser_field_def inp opts g_magiccookie_def parser_take_def
        parser_length_def parser_data8_def parser_advance_def)
  moreover have "dhcpd_parseoption ?p1 ?s = Some (Some ?p2, ?s)"
    by (simp add: dhcpd_parseoption_def array_get_def parser_field_def inp opts g_magiccookie_def parser_advance_def)
  moreover have "dhcpd_parseoption ?p2 ?s = Some (None, ?s)"
    by (simp add: dhcpd_parseoption_def array_get_def parser_field_def inp f)
  ultimately have "dhcpd_parseloop ?p ?s = Some (True, ?s)" by (simp add: dhcpd_parseloop_step)
  then show ?thesis
    using opts by (simp add: dhcpd_parseoptions_def array_slice_def options_reset_def g_magiccookie_def)
qed

end
