(* ===== verification/DhcpHandlers.thy ===== *)
theory DhcpHandlers
  imports DhcpLease DhcpOptions
begin

text \<open>
  What a message does to the server. Under the invariant every handler returns, changes at
  most one slot of the lease table, one that the sender of the message has or that is free,
  and sends at most one reply, for an address that the table then gives to the sender. From
  this follow the invariant, and that a lease is exclusive until it expires.
\<close>

section \<open>One message\<close>

text \<open>The part of the state that no message changes; the clock only goes on.\<close>

definition same_server :: "dhcpd \<Rightarrow> dhcpd \<Rightarrow> bool" where
  "same_server s s' \<longleftrightarrow> g_config s' = g_config s \<and> ds_inpacket s' = ds_inpacket s \<and> ds_serverip s' = ds_serverip s \<and>
     dos_clock s' = dos_clock s \<and> dos_sendto s' = dos_sendto s \<and> dos_ticks s \<le> dos_ticks s'"

text \<open>One slot gets a new lease. The new lease is nobody's, or the only one of the sender.\<close>

definition slot_change :: "dhcpd_build \<Rightarrow> dhcpd \<Rightarrow> dhcpd \<Rightarrow> nat \<Rightarrow> lease_s \<Rightarrow> bool" where
  "slot_change b s s' i x \<longleftrightarrow> i < cf_maxleases b \<and> ds_leases s' = (ds_leases s)[i := x] \<and>
     (lease_mac (lease_at s i) = client_mac s \<or> slot_free s (dos_ticks s') i) \<and>
     (lease_mac x = no_mac \<or>
      lease_mac x = client_mac s \<and> lease_allocated x \<and>
      (\<forall>j < cf_maxleases b. j \<noteq> i \<longrightarrow> client_mac s \<noteq> no_mac \<longrightarrow> lease_mac (lease_at s j) \<noteq> client_mac s))"

text \<open>The reply to the sender, if any: a refusal without an address, or an address the sender now has.\<close>

definition reply_ok :: "dhcpd_build \<Rightarrow> dhcpd \<Rightarrow> (u32 \<times> u16 \<times> u8 list) list \<Rightarrow> bool" where
  "reply_ok b s sent \<longleftrightarrow> sent = [] \<or>
     (\<exists>dest out opts. sent = [(dest, htons 68, wire_bytes out opts)] \<and> wf_msg out \<and>
        (m_yiaddr out = mem32 0 \<or>
         (\<exists>i < cf_maxleases b. m_yiaddr out = mem32 (htonl (addr_of (g_config s) i)) \<and>
            lease_mac (lease_at s i) = client_mac s \<and> lease_allocated (lease_at s i))))"

definition dhcpd_step :: "dhcpd_build \<Rightarrow> dhcpd \<Rightarrow> dhcpd \<Rightarrow> bool" where
  "dhcpd_step b s s' \<longleftrightarrow> same_server s s' \<and> (ds_leases s' = ds_leases s \<or> (\<exists>i x. slot_change b s s' i x)) \<and>
     (\<exists>sent. dos_sent s' = dos_sent s @ sent \<and> reply_ok b s' sent)"

lemma length_client_mac: "wf_msg (ds_inpacket s) \<Longrightarrow> length (client_mac s) = 6"
  by (simp add: wf_msg_def)

lemma dhcpd_step_ok:
  assumes ok: "dhcpd_ok b s" and step: "dhcpd_step b s s'"
  shows "dhcpd_ok b s'"
proof -
  have same: "g_config s' = g_config s" "ds_inpacket s' = ds_inpacket s"
    using step by (simp_all add: dhcpd_step_def same_server_def)
  have "length (ds_leases s') = length (ds_leases s) \<and> leases_ok (ds_leases s')"
  proof (cases "ds_leases s' = ds_leases s")
    case True
    then show ?thesis using dhcpd_okD(3) [OF ok] by simp
  next
    case False
    then obtain i x where c: "slot_change b s s' i x" using step unfolding dhcpd_step_def by blast
    then have eq: "ds_leases s' = (ds_leases s)[i := x]" by (simp add: slot_change_def)
    have "leases_ok ((ds_leases s)[i := x])"
      using c length_client_mac [OF dhcpd_okD(4) [OF ok]] dhcpd_okD(2) [OF ok]
      by (intro leases_ok_update [OF dhcpd_okD(3) [OF ok]]) (auto simp: slot_change_def)
    with eq show ?thesis by simp
  qed
  then show ?thesis using ok same by (simp add: dhcpd_ok_def)
qed

lemma reply_sent_dos_sent:
  "dos_sent (reply_sent b bc out opts s) =
   dos_sent s @ (if dos_sendto s (dos_sends s) then [(fst (reply_route b bc out), htons 68, wire_bytes out opts)] else [])"
  by (simp add: reply_sent_def wire_bytes_def)

section \<open>DISCOVER\<close>

text \<open>The slot of the offered address: the client's own, or a free one while the client has none.\<close>

definition offer_slot :: "dhcpd_build \<Rightarrow> dhcpd \<Rightarrow> nat \<Rightarrow> nat \<Rightarrow> bool" where
  "offer_slot b s t i \<longleftrightarrow> i < cf_maxleases b \<and> dos_ticks s \<le> t \<and>
     (lease_mac (lease_at s i) = client_mac s \<or> slot_free s t i) \<and>
     (\<forall>j < cf_maxleases b. j \<noteq> i \<longrightarrow> client_mac s \<noteq> no_mac \<longrightarrow> lease_mac (lease_at s j) \<noteq> client_mac s)"

lemma offer_slot_found:
  assumes ok: "dhcpd_ok b s" and i: "dhcpd_findbymac b (m_chaddr (ds_inpacket s)) s = Some i" and t: "dos_ticks s \<le> t"
  shows "offer_slot b s t i"
  using dhcpd_findbymac_Some [OF i] t dhcpd_okD(2) [OF ok] leases_ok_unique [OF dhcpd_okD(3) [OF ok], of _ i]
  unfolding offer_slot_def by auto

lemma offer_slot_free:
  assumes "dhcpd_findbymac b (m_chaddr (ds_inpacket s)) s = None" "i < cf_maxleases b" "slot_free s t i" "dos_ticks s \<le> t"
  shows "offer_slot b s t i"
  using assms dhcpd_findbymac_None [OF assms(1)] unfolding offer_slot_def by blast

text \<open>No address: the client has no lease, and every usable address has one that is not expired.\<close>

definition pool_exhausted :: "dhcpd_build \<Rightarrow> dhcpd \<Rightarrow> nat \<Rightarrow> bool" where
  "pool_exhausted b s t \<longleftrightarrow> dhcpd_findbymac b (m_chaddr (ds_inpacket s)) s = None \<and>
     (\<forall>x. in_pool (g_config s) x \<and> usable x \<longrightarrow> lease_allocated (lease_at s (slot_of (g_config s) x)) \<and>
       (\<exists>k. dos_ticks s \<le> k \<and> k < t \<and> reading s k < lease_expiry (lease_at s (slot_of (g_config s) x))))"

text \<open>A requested address is taken if its slot is free.\<close>

lemma dhcpd_verifyreqip_cases:
  assumes ok: "dhcpd_ok b s"
  obtains (req) t ls where "dhcpd_verifyreqip s = Some (True, s\<lparr>dos_ticks := t, ds_leases := ls\<rparr>)"
      "in_pool (g_config s) (ds_optreqip s)" "dos_ticks s \<le> t" "slot_free s t (slot_of (g_config s) (ds_optreqip s))"
      "ls = ds_leases s \<or> ls = (ds_leases s)[slot_of (g_config s) (ds_optreqip s) := zero_lease]"
  | (alloc) t where "dhcpd_verifyreqip s = Some (False, s\<lparr>dos_ticks := t\<rparr>)" "dos_ticks s \<le> t"
proof (cases "in_pool (g_config s) (ds_optreqip s)")
  let ?a = "ds_optreqip s" and ?c = "g_config s"
  case True
  then obtain lease free t ls where *: "dhcpd_findbyipaddr ?a s = Some lease"
    "lease_available lease s = Some (free, s\<lparr>dos_ticks := t, ds_leases := ls\<rparr>)" "dos_ticks s \<le> t"
    "if free then slot_free s t (slot_of ?c ?a) \<and> (ls = ds_leases s \<or> ls = (ds_leases s)[slot_of ?c ?a := zero_lease])
     else ls = ds_leases s \<and> t = Suc (dos_ticks s) \<and> lease_allocated (lease_at s (slot_of ?c ?a)) \<and>
       reading s (dos_ticks s) < lease_expiry (lease_at s (slot_of ?c ?a))"
    using lease_available_eq [OF ok True] by blast
  then have v: "dhcpd_verifyreqip s = Some (free, s\<lparr>dos_ticks := t, ds_leases := ls\<rparr>)"
    using True by (simp add: dhcpd_verifyreqip_def in_pool_def)
  show ?thesis
  proof (cases free)
    case True
    then show ?thesis using req [where t = t and ls = ls] v * \<open>in_pool ?c ?a\<close> by simp
  next
    case False
    then show ?thesis using alloc [where t = t] v * by simp
  qed
next
  case False
  then show ?thesis using alloc [where t = "dos_ticks s"] by (auto simp: dhcpd_verifyreqip_def in_pool_def)
qed

lemma dhcpd_discover_addr_spec:
  assumes ok: "dhcpd_ok b s"
  obtains (none) lt t where "dhcpd_discover_addr b s = Some (0, lt, s\<lparr>dos_ticks := t\<rparr>)" "dos_ticks s \<le> t"
      "pool_exhausted b s t"
  | (addr) i lt t ls x where "dhcpd_discover_addr b s = Some (addr_of (g_config s) i, lt, s\<lparr>dos_ticks := t, ds_leases := ls\<rparr>)"
      "offer_slot b s t i" "ls = ds_leases s \<or> ls = (ds_leases s)[i := x] \<and> lease_mac x = no_mac"
proof (cases "dhcpd_findbymac b (m_chaddr (ds_inpacket s)) s")
  case (Some i)
  have i: "i < length (ds_leases s)" using dhcpd_findbymac_Some(1) [OF Some] dhcpd_okD(2) [OF ok] by simp
  show ?thesis
  proof (cases "reading s (dos_ticks s) < lease_expiry (lease_at s i)")
    case True
    show ?thesis
      by (rule addr [where i = i and t = "Suc (Suc (dos_ticks s))" and ls = "ds_leases s"])
         (use Some i True in \<open>simp_all add: dhcpd_discover_addr_def dhcpd_leaseexpired_eq array_simps dhcpd_time_eq
           dhcp_leaseipaddr_eq offer_slot_found [OF ok Some] Let_def\<close>)
  next
    case False
    show ?thesis
      by (rule addr [where i = i and t = "Suc (dos_ticks s)" and ls = "(ds_leases s)[i := zero_lease]" and x = zero_lease])
         (use Some i False in \<open>simp_all add: dhcpd_discover_addr_def dhcpd_leaseexpired_eq
           dhcp_leaseipaddr_eq offer_slot_found [OF ok Some] zero_lease_def\<close>)
  qed
next
  case None
  let ?a = "ds_optreqip s" and ?c = "g_config s"
  show ?thesis using ok
  proof (cases rule: dhcpd_verifyreqip_cases)
    case (req t ls)
    have "slot_of ?c ?a < cf_maxleases b" by (rule slot_of_less [OF dhcpd_okD(1) [OF ok] req(2)])
    then show ?thesis
      by (intro addr [where i = "slot_of ?c ?a" and t = t and ls = ls and x = zero_lease])
         (use None req in \<open>simp_all add: dhcpd_discover_addr_def addr_of_slot_of offer_slot_free zero_lease_def\<close>)
  next
    case (alloc t)
    let ?s = "s\<lparr>dos_ticks := t\<rparr>"
    have ok1: "dhcpd_ok b ?s" using ok by (simp add: dhcpd_ok_def)
    then show ?thesis
    proof (cases rule: dhcpd_allocipaddr_cases)
      case 1: (none t')
      then have "pool_exhausted b s t'"
        using None alloc(2) unfolding pool_exhausted_def by (simp, meson order_trans)
      then show ?thesis
        by (intro none [where t = t']) (use None alloc 1 in \<open>simp_all add: dhcpd_discover_addr_def\<close>)
    next
      case 2: (addr r t')
      let ?x = "\<lparr>lease_mac = no_mac, lease_allocated = True, lease_expiry = reading s t' + cf_offertime b\<rparr>"
      have "slot_of ?c r < cf_maxleases b" using 2(2) slot_of_less [OF dhcpd_okD(1) [OF ok], of r] by simp
      moreover have "slot_free s (Suc t') (slot_of ?c r)"
        using 2(4) alloc(2) unfolding slot_free_def by (auto intro: order_trans less_SucI)
      ultimately have "offer_slot b s (Suc t') (slot_of ?c r)"
        using offer_slot_free [OF None] 2(5) alloc(2) by simp
      moreover have "dhcpd_discover_addr b s = Some (r, cf_leasetime b, s\<lparr>dos_ticks := Suc t',
          ds_leases := (ds_leases s)[slot_of ?c r := ?x]\<rparr>)"
        using None alloc 2(1) by (simp add: dhcpd_discover_addr_def)
      ultimately show ?thesis
        by (intro addr [where i = "slot_of ?c r" and t = "Suc t'" and ls = "(ds_leases s)[slot_of ?c r := ?x]" and x = ?x])
           (simp_all add: addr_of_slot_of)
    qed
  qed
qed

definition leased :: "dhcpd \<Rightarrow> nat \<Rightarrow> nat \<Rightarrow> u32 \<Rightarrow> dhcpd" where
  "leased s t i e = s\<lparr>dos_ticks := Suc t, ds_leases := (ds_leases s)[i :=
     \<lparr>lease_mac = client_mac s, lease_allocated = True, lease_expiry = reading s t + e\<rparr>]\<rparr>"

lemma leased_simps [simp]:
  "ds_inpacket (leased s t i e) = ds_inpacket s" "ds_serverip (leased s t i e) = ds_serverip s"
  "g_config (leased s t i e) = g_config s" "dos_clock (leased s t i e) = dos_clock s"
  "dos_sendto (leased s t i e) = dos_sendto s" "dos_sends (leased s t i e) = dos_sends s"
  "dos_sent (leased s t i e) = dos_sent s" "ds_optleasetime (leased s t i e) = ds_optleasetime s"
  "dos_ticks (leased s t i e) = Suc t" "ds_optserverip (leased s t i e) = ds_optserverip s"
  "ds_leases (leased s t i e) = (ds_leases s)[i :=
     \<lparr>lease_mac = client_mac s, lease_allocated = True, lease_expiry = reading s t + e\<rparr>]"
  by (simp_all add: leased_def)

lemma offer_cong [simp]:
  "offer_msg a (leased s t i e) = offer_msg a s" "base_options mt (leased s t i e) = base_options mt s"
  "granted_time b (leased s t i e) lt = granted_time b s lt"
  by (simp_all add: offer_msg_def reply_head_def base_options_def granted_time_def dhcpd_verifyreqleasetime_def)

definition offer_options :: "dhcpd_build \<Rightarrow> u32 \<Rightarrow> dhcpd \<Rightarrow> dhcp_option list" where
  "offer_options b lt s = base_options DHCPOFFER s @ net_options (granted_time b s lt) (g_config s)"

definition offered :: "dhcpd_build \<Rightarrow> dhcpd \<Rightarrow> nat \<Rightarrow> nat \<Rightarrow> u32 \<Rightarrow> dhcpd" where
  "offered b s t i lt = reply_sent b (cf_ignorebroadcast b) (offer_msg (addr_of (g_config s) i) s) (offer_options b lt s)
     (leased s t i (cf_offertime b))"

text \<open>A DISCOVER is answered with an offer, for which the slot is reserved, unless the pool is exhausted.\<close>

lemma dhcpd_discover_cases:
  assumes ok: "dhcpd_ok b s"
  obtains (none) t where "dhcpd_discover b s = Some (-1, s\<lparr>dos_ticks := t\<rparr>)" "dos_ticks s \<le> t" "pool_exhausted b s t"
  | (offer) i t lt ret where "dhcpd_discover b s = Some (ret, offered b s t i lt)" "offer_slot b s t i"
  using ok
proof (cases rule: dhcpd_discover_addr_spec)
  case 1: (none lt t)
  then show ?thesis using none [of t] by (simp add: dhcpd_discover_def)
next
  case 2: (addr i lt t ls x)
  let ?c = "g_config s" and ?s = "s\<lparr>dos_ticks := t, ds_leases := ls\<rparr>"
  have i: "i < cf_maxleases b" using 2(2) by (simp add: offer_slot_def)
  note pool = in_pool_addr_of [OF dhcpd_okD(1) [OF ok] i]
  have "leases_ok ls"
    using 2(3) dhcpd_okD(3) [OF ok] leases_ok_update [OF dhcpd_okD(3) [OF ok], of x i] by auto
  moreover have len: "length ls = length (ds_leases s)" "ls[i := y] = (ds_leases s)[i := y]" for y
    using 2(3) by auto
  ultimately have ok1: "dhcpd_ok b ?s" using ok by (simp add: dhcpd_ok_def)
  have set: "dhcpd_setlease b (m_chaddr (ds_inpacket s)) (addr_of ?c i) (cf_offertime b) ?s =
      Some (Some i, leased s t i (cf_offertime b))"
    using dhcpd_setlease_eq [OF ok1, of "addr_of ?c i"] pool slot_of_addr_of [OF dhcpd_okD(1) [OF ok] i]
    by (simp add: leased_def len)
  have "addr_of ?c i \<noteq> 0" by (rule in_pool_nonzero [OF dhcpd_okD(1) [OF ok] pool])
  then show ?thesis
    using offer [of _ t i lt] 2(1,2) set dhcpd_okD(4) [OF ok]
    by (simp add: dhcpd_discover_def dhcpd_sendoffer_eq offered_def offer_options_def flip: granted_time_def)
qed

lemma offer_slot_change:
  assumes ok: "dhcpd_ok b s" and i: "offer_slot b s t i"
    and s': "ds_leases s' = ds_leases (leased s t i e)" "Suc t \<le> dos_ticks s'"
  shows "slot_change b s s' i \<lparr>lease_mac = client_mac s, lease_allocated = True, lease_expiry = reading s t + e\<rparr>"
  using assms slot_free_mono [of s t i "dos_ticks s'"] unfolding slot_change_def offer_slot_def by auto

lemma reply_ok_lease:
  assumes "i < cf_maxleases b" "lease_mac (lease_at s i) = client_mac s" "lease_allocated (lease_at s i)"
    "wf_msg out" "m_yiaddr out = mem32 (htonl (addr_of (g_config s) i))"
  shows "reply_ok b s (if c then [(dest, htons 68, wire_bytes out opts)] else [])"
  using assms unfolding reply_ok_def by auto

lemma dhcpd_discover_step:
  assumes ok: "dhcpd_ok b s"
  shows "\<exists>ret s'. dhcpd_discover b s = Some (ret, s') \<and> dhcpd_step b s s'"
  using ok
proof (cases rule: dhcpd_discover_cases)
  case (none t)
  then have "dhcpd_step b s (s\<lparr>dos_ticks := t\<rparr>)" by (simp add: dhcpd_step_def same_server_def reply_ok_def)
  then show ?thesis using none(1) by blast
next
  case (offer i t lt ret)
  have i: "i < length (ds_leases s)" "i < cf_maxleases b" "dos_ticks s \<le> t"
    using offer(2) dhcpd_okD(2) [OF ok] by (simp_all add: offer_slot_def)
  have "slot_change b s (offered b s t i lt) i
      \<lparr>lease_mac = client_mac s, lease_allocated = True, lease_expiry = reading s t + cf_offertime b\<rparr>"
    by (rule offer_slot_change [OF ok offer(2)]) (simp_all add: offered_def)
  moreover have "same_server s (offered b s t i lt)" using i by (simp add: same_server_def offered_def)
  moreover have "reply_ok b (offered b s t i lt) (if dos_sendto s (dos_sends s)
      then [(fst (reply_route b (cf_ignorebroadcast b) (offer_msg (addr_of (g_config s) i) s)), htons 68,
             wire_bytes (offer_msg (addr_of (g_config s) i) s) (offer_options b lt s))] else [])"
    by (rule reply_ok_lease [OF i(2)])
       (use i wf_reply_msg(1) [OF dhcpd_okD(4) [OF ok]] in \<open>simp_all add: offered_def offer_msg_def\<close>)
  ultimately have "dhcpd_step b s (offered b s t i lt)"
    unfolding dhcpd_step_def by (auto simp: offered_def reply_sent_dos_sent)
  then show ?thesis using offer(1) by blast
qed

section \<open>REQUEST\<close>

lemma dhcpd_request_response_cases:
  assumes ok: "dhcpd_ok b s"
  obtains (ack) i where "dhcpd_request_response b s = Some (DHCPACK, addr_of (g_config s) i, s)"
      "offer_slot b s (dos_ticks s) i"
  | (nak) a t where "dhcpd_request_response b s = Some (DHCPNAK, a, s\<lparr>dos_ticks := t\<rparr>)" "dos_ticks s \<le> t"
  | (silent) t ls where "dhcpd_request_response b s = Some (0, 0, s\<lparr>dos_ticks := t, ds_leases := ls\<rparr>)" "dos_ticks s \<le> t"
      "ls = ds_leases s \<or> (\<exists>i < cf_maxleases b. ls = (ds_leases s)[i := zero_lease] \<and> slot_free s t i)"
proof (cases "dhcpd_findbymac b (m_chaddr (ds_inpacket s)) s")
  case (Some i)
  have "dhcpd_request_response b s = Some (DHCPACK, addr_of (g_config s) i, s) \<or>
      dhcpd_request_response b s = Some (DHCPNAK, addr_of (g_config s) i, s\<lparr>dos_ticks := dos_ticks s\<rparr>)"
    using Some by (simp add: dhcpd_request_response_def dhcp_leaseipaddr_eq Let_def)
  then show ?thesis using ack [of i] nak offer_slot_found [OF ok Some order_refl] by blast
next
  case None
  let ?a = "ds_optreqip s" and ?i = "slot_of (g_config s) (ds_optreqip s)"
  have plain: "s = s\<lparr>dos_ticks := dos_ticks s, ds_leases := ds_leases s\<rparr>" by simp
  consider (other) "?a = 0 \<or> ds_optserverip s \<noteq> 0" | (out) "?a \<noteq> 0" "ds_optserverip s = 0" "\<not> in_pool (g_config s) ?a"
    | (vacant) "?a \<noteq> 0" "ds_optserverip s = 0" "in_pool (g_config s) ?a" "\<not> lease_allocated (lease_at s ?i)"
    | (taken) "?a \<noteq> 0" "ds_optserverip s = 0" "in_pool (g_config s) ?a" "lease_allocated (lease_at s ?i)"
    by blast
  then show ?thesis
  proof cases
    case other
    then show ?thesis using None silent [where t = "dos_ticks s" and ls = "ds_leases s"] by (auto simp: dhcpd_request_response_def)
  next
    case out
    then have "dhcpd_request_response b s = Some (DHCPNAK, 0, s\<lparr>dos_ticks := dos_ticks s\<rparr>)"
      using None by (auto simp: dhcpd_request_response_def dhcpd_findbyipaddr_eq [OF ok] in_pool_def)
    then show ?thesis using nak by blast
  next
    case vacant
    then have "?i < cf_maxleases b" using slot_of_less [OF dhcpd_okD(1) [OF ok]] by blast
    then have "offer_slot b s (dos_ticks s) ?i"
      using offer_slot_free [OF None, of ?i "dos_ticks s"] vacant(4) by (simp add: slot_free_def)
    moreover have "dhcpd_request_response b s = Some (DHCPACK, addr_of (g_config s) ?i, s)"
      using None vacant by (simp add: dhcpd_request_response_def dhcpd_findbyipaddr_eq [OF ok] addr_of_slot_of)
        (simp add: in_pool_def)
    ultimately show ?thesis using ack by blast
  next
    case taken
    have i: "?i < cf_maxleases b" using slot_of_less [OF dhcpd_okD(1) [OF ok]] taken(3) by blast
    then have "?i < length (ds_leases s)" using dhcpd_okD(2) [OF ok] by simp
    note eq = dhcpd_leaseexpired_eq [OF this]
    show ?thesis
    proof (cases "reading s (dos_ticks s) < lease_expiry (lease_at s ?i)")
      case True
      then show ?thesis
        using None taken nak [of 0 "Suc (dos_ticks s)"]
        by (simp add: dhcpd_request_response_def dhcpd_findbyipaddr_eq [OF ok] eq)
    next
      case False
      then have "slot_free s (Suc (dos_ticks s)) ?i"
        unfolding slot_free_def by (intro disjI2 exI [of _ "dos_ticks s"]) simp
      then show ?thesis
        using None taken False i silent [where t = "Suc (dos_ticks s)" and ls = "(ds_leases s)[?i := zero_lease]"]
        by (auto simp: dhcpd_request_response_def dhcpd_findbyipaddr_eq [OF ok] eq)
    qed
  qed
qed

definition ack_options :: "dhcpd_build \<Rightarrow> dhcpd \<Rightarrow> dhcp_option list" where
  "ack_options b s = base_options DHCPACK s @ net_options (granted_time b s (cf_leasetime b)) (g_config s)"

definition ack_sent :: "dhcpd_build \<Rightarrow> dhcpd \<Rightarrow> nat \<Rightarrow> dhcpd" where
  "ack_sent b s i = reply_sent b (cf_ignorebroadcast b) (ack_msg (addr_of (g_config s) i) s) (ack_options b s) s"

definition acked :: "dhcpd_build \<Rightarrow> dhcpd \<Rightarrow> nat \<Rightarrow> dhcpd" where
  "acked b s i = leased (ack_sent b s i) (dos_ticks s) i (granted_time b s (cf_leasetime b))"

definition nak_sent :: "dhcpd_build \<Rightarrow> dhcpd \<Rightarrow> dhcpd" where
  "nak_sent b s = reply_sent b True (nak_msg s) (base_options DHCPNAK s) s"

lemma reading_reply_sent [simp]: "reading (reply_sent b bc out opts s) = reading s"
  by (simp add: fun_eq_iff reading_def)

lemma dhcpd_sendack_slot:
  assumes ok: "dhcpd_ok b s" and i: "i < cf_maxleases b"
  shows "dhcpd_sendack b (addr_of (g_config s) i) s =
    (if dos_sendto s (dos_sends s) then Some (0, acked b s i) else Some (-1, ack_sent b s i))"
proof -
  have ok1: "dhcpd_ok b (ack_sent b s i)" using ok by (simp add: dhcpd_ok_def ack_sent_def)
  have "dhcpd_setlease b (m_chaddr (ds_inpacket s)) (addr_of (g_config s) i) e (ack_sent b s i) =
      Some (Some i, leased (ack_sent b s i) (dos_ticks s) i e)" for e
    using dhcpd_setlease_eq [OF ok1, of "addr_of (g_config s) i"] in_pool_addr_of [OF dhcpd_okD(1) [OF ok] i]
      slot_of_addr_of [OF dhcpd_okD(1) [OF ok] i]
    by (simp add: leased_def ack_sent_def)
  then show ?thesis
    by (simp add: dhcpd_sendack_eq [OF dhcpd_okD(4) [OF ok]] acked_def ack_sent_def ack_options_def Let_def)
qed

lemma acked_step:
  assumes ok: "dhcpd_ok b s" and i: "offer_slot b s (dos_ticks s) i"
  shows "dhcpd_step b s (if dos_sendto s (dos_sends s) then acked b s i else ack_sent b s i)"
proof (cases "dos_sendto s (dos_sends s)")
  case True
  have i': "i < length (ds_leases s)" "i < cf_maxleases b" using i dhcpd_okD(2) [OF ok] by (simp_all add: offer_slot_def)
  have "slot_change b s (acked b s i) i
      \<lparr>lease_mac = client_mac s, lease_allocated = True, lease_expiry = reading s (dos_ticks s) + granted_time b s (cf_leasetime b)\<rparr>"
    by (rule offer_slot_change [OF ok i]) (simp_all add: acked_def ack_sent_def)
  moreover have "same_server s (acked b s i)" by (simp add: same_server_def acked_def ack_sent_def)
  moreover have "reply_ok b (acked b s i) (if dos_sendto s (dos_sends s)
      then [(fst (reply_route b (cf_ignorebroadcast b) (ack_msg (addr_of (g_config s) i) s)), htons 68,
             wire_bytes (ack_msg (addr_of (g_config s) i) s) (ack_options b s))] else [])"
    by (rule reply_ok_lease [OF i'(2)])
       (use i' wf_reply_msg(2) [OF dhcpd_okD(4) [OF ok]] in \<open>simp_all add: acked_def ack_sent_def ack_msg_def\<close>)
  ultimately show ?thesis
    using True unfolding dhcpd_step_def by (auto simp: acked_def ack_sent_def reply_sent_dos_sent)
next
  case False
  then show ?thesis
    by (simp add: dhcpd_step_def same_server_def ack_sent_def reply_sent_dos_sent reply_ok_def)
qed

lemma nak_step:
  assumes ok: "dhcpd_ok b s"
  shows "dhcpd_step b s (nak_sent b s)"
proof -
  have "m_yiaddr (nak_msg s) = mem32 0"
    by (simp add: nak_msg_def reply_head_def zero_msg_def msg_of_bytes_def mem32_0 eval_nat_numeral)
  then have "reply_ok b (nak_sent b s) (if dos_sendto s (dos_sends s)
      then [(fst (reply_route b True (nak_msg s)), htons 68, wire_bytes (nak_msg s) (base_options DHCPNAK s))] else [])"
    using wf_reply_msg(3) [OF dhcpd_okD(4) [OF ok]] by (auto simp: reply_ok_def)
  then show ?thesis
    by (auto simp: dhcpd_step_def same_server_def nak_sent_def reply_sent_dos_sent)
qed

lemma dhcpd_step_ticks:
  assumes "dhcpd_step b (s\<lparr>dos_ticks := t\<rparr>) s'" "dos_ticks s \<le> t" "ds_leases s' = ds_leases s"
  shows "dhcpd_step b s s'"
  using assms by (auto simp: dhcpd_step_def same_server_def)

lemma dhcpd_request_step:
  assumes ok: "dhcpd_ok b s"
  shows "\<exists>ret s'. dhcpd_request b s = Some (ret, s') \<and> dhcpd_step b s s'"
  using ok
proof (cases rule: dhcpd_request_response_cases)
  case (ack i)
  have "i < cf_maxleases b" using ack(2) by (simp add: offer_slot_def)
  then have "dhcpd_request b s = Some (0, if dos_sendto s (dos_sends s) then acked b s i else ack_sent b s i)"
    using ack(1) by (simp add: dhcpd_request_def dhcpd_sendack_slot [OF ok])
  then show ?thesis using acked_step [OF ok ack(2)] by blast
next
  case (nak a t)
  let ?s = "s\<lparr>dos_ticks := t\<rparr>"
  have ok1: "dhcpd_ok b ?s" using ok by (simp add: dhcpd_ok_def)
  have "dhcpd_request b s = Some (0, nak_sent b ?s)"
    using nak(1) by (simp add: dhcpd_request_def dhcpd_sendnak_eq [OF dhcpd_okD(4) [OF ok1]] nak_sent_def)
  moreover have "dhcpd_step b s (nak_sent b ?s)"
    by (rule dhcpd_step_ticks [OF nak_step [OF ok1] nak(2)]) (simp add: nak_sent_def)
  ultimately show ?thesis by blast
next
  case (silent t ls)
  let ?s = "s\<lparr>dos_ticks := t, ds_leases := ls\<rparr>"
  have "ls = ds_leases s \<or> (\<exists>i. slot_change b s ?s i zero_lease)"
    using silent(3) by (auto simp: slot_change_def zero_lease_def)
  then have "dhcpd_step b s ?s"
    using silent(2) by (auto simp: dhcpd_step_def same_server_def reply_ok_def)
  moreover have "dhcpd_request b s = Some (0, ?s)" using silent(1) by (simp add: dhcpd_request_def)
  ultimately show ?thesis by blast
qed

section \<open>DECLINE, RELEASE and the other messages\<close>

lemma own_slot_change:
  assumes ok: "dhcpd_ok b s" and i: "dhcpd_findbymac b (m_chaddr (ds_inpacket s)) s = Some i" and x: "lease_mac x = no_mac"
    and t: "dos_ticks s \<le> t"
  shows "dhcpd_step b s (s\<lparr>dos_ticks := t, ds_leases := (ds_leases s)[i := x]\<rparr>)"
proof -
  have "slot_change b s (s\<lparr>dos_ticks := t, ds_leases := (ds_leases s)[i := x]\<rparr>) i x"
    using dhcpd_findbymac_Some [OF i] x by (simp add: slot_change_def)
  then show ?thesis using t by (auto simp: dhcpd_step_def same_server_def reply_ok_def)
qed

lemma dhcpd_step_refl: "dhcpd_step b s s"
  by (simp add: dhcpd_step_def same_server_def reply_ok_def)

lemma dhcpd_decline_step:
  assumes ok: "dhcpd_ok b s"
  shows "\<exists>ret s'. dhcpd_decline b s = Some (ret, s') \<and> dhcpd_step b s s'"
proof (cases "dhcpd_findbymac b (m_chaddr (ds_inpacket s)) s")
  case None
  then show ?thesis using dhcpd_step_refl by (simp add: dhcpd_decline_def)
next
  case (Some i)
  let ?x = "(lease_at s i)\<lparr>lease_mac := no_mac, lease_expiry := reading s (dos_ticks s) + cf_declinetime b\<rparr>"
  have "i < length (ds_leases s)" using dhcpd_findbymac_Some(1) [OF Some] dhcpd_okD(2) [OF ok] by simp
  then have "dhcpd_decline b s = Some (0, s\<lparr>dos_ticks := Suc (dos_ticks s), ds_leases := (ds_leases s)[i := ?x]\<rparr>)"
    using Some by (simp add: dhcpd_decline_def array_simps dhcpd_time_eq)
  then show ?thesis using own_slot_change [OF ok Some, of ?x "Suc (dos_ticks s)"] by simp
qed

lemma dhcpd_release_step:
  assumes ok: "dhcpd_ok b s"
  shows "\<exists>ret s'. dhcpd_release b s = Some (ret, s') \<and> dhcpd_step b s s'"
proof (cases "dhcpd_findbymac b (m_chaddr (ds_inpacket s)) s")
  case None
  then show ?thesis using dhcpd_step_refl by (simp add: dhcpd_release_def)
next
  case (Some i)
  have "i < length (ds_leases s)" using dhcpd_findbymac_Some(1) [OF Some] dhcpd_okD(2) [OF ok] by simp
  then have "dhcpd_release b s = Some (0, s\<lparr>dos_ticks := dos_ticks s, ds_leases := (ds_leases s)[i := zero_lease]\<rparr>)"
    using Some by (simp add: dhcpd_release_def array_simps)
  then show ?thesis using own_slot_change [OF ok Some, of zero_lease "dos_ticks s"] by (simp add: zero_lease_def)
qed

lemma dhcpd_process_step:
  assumes ok: "dhcpd_ok b s"
  shows "\<exists>s'. dhcpd_process b s = Some s' \<and> dhcpd_step b s s'"
  using dhcpd_discover_step [OF ok] dhcpd_request_step [OF ok] dhcpd_decline_step [OF ok] dhcpd_release_step [OF ok]
    dhcpd_step_refl [of b s]
  unfolding dhcpd_process_def by (auto split: if_split)

text \<open>
  A datagram: the message is what arrived over what the last message left. The handlers run
  when the parser does not leave its field.
\<close>

definition received :: "u8 list \<Rightarrow> dhcpd \<Rightarrow> dhcpd" where
  "received data s = s\<lparr>ds_inpacket := recv_into data (ds_inpacket s)\<rparr>"

lemma dhcpd_receive_step:
  assumes ok: "dhcpd_ok b s" and parse: "dhcpd_parseoptions (received data s) \<noteq> None"
  shows "\<exists>s'. dhcpd_receive b data s = Some s' \<and> dhcpd_step b (received data s) s' \<and> dhcpd_ok b s'"
proof -
  obtain r s1 where r: "dhcpd_parseoptions (received data s) = Some (r, s1)" using parse by auto
  note frame = dhcpd_parseoptions_frame [OF r]
  have ok0: "dhcpd_ok b (received data s)" using ok by (simp add: dhcpd_ok_def received_def)
  then have ok1: "dhcpd_ok b s1" using frame by (simp add: dhcpd_ok_def)
  have mono: "dhcpd_step b (received data s) s'" if "dhcpd_step b s1 s'" for s'
  proof -
    have "slot_change b s1 s' i x \<longleftrightarrow> slot_change b (received data s) s' i x" for i x
      using frame by (simp add: slot_change_def slot_free_def reading_def)
    then show ?thesis using that frame by (auto simp: dhcpd_step_def same_server_def)
  qed
  obtain s2 where "dhcpd_process b s1 = Some s2" "dhcpd_step b s1 s2" using dhcpd_process_step [OF ok1] by blast
  then have "\<exists>s'. dhcpd_receive b data s = Some s' \<and> dhcpd_step b s1 s'"
    using r dhcpd_step_refl by (auto simp: dhcpd_receive_def received_def)
  then show ?thesis using mono dhcpd_step_ok [OF ok0] by blast
qed

end
