(* ===== verification/DhcpSafety.thy ===== *)
theory DhcpSafety
  imports DhcpHandlers
begin

text \<open>
  The DHCP server over a sequence of datagrams: it answers all of them, keeps its invariant,
  and an unexpired lease stays with its client. The datagrams are arbitrary, except that the
  last byte of an options field must not be an option code, where the parser reads one byte
  too far.
\<close>

section \<open>Sequences of datagrams\<close>

primrec dhcpd_receives :: "dhcpd_build \<Rightarrow> u8 list list \<Rightarrow> dhcpd \<Rightarrow> dhcpd option" where
  "dhcpd_receives b [] s = Some s"
| "dhcpd_receives b (d # ds) s = do { s \<leftarrow> dhcpd_receive b d s; dhcpd_receives b ds s }"

text \<open>The three fields the options may be in end at these offsets of the message.\<close>

definition safe_datagram :: "u8 list \<Rightarrow> bool" where
  "safe_datagram d \<longleftrightarrow> (\<forall>k \<in> {107, 235, 547}. k < length d \<longrightarrow> d ! k \<in> {DHCP_OPTION_PAD, DHCP_OPTION_END})"

definition msg_safe :: "dhcpmsg_s \<Rightarrow> bool" where
  "msg_safe m \<longleftrightarrow> field_safe (m_options m) \<and> field_safe (m_file m) \<and> field_safe (m_sname m)"

lemma msg_safe_bytes:
  assumes "length bs = 548"
  shows "msg_safe (msg_of_bytes bs) \<longleftrightarrow> (\<forall>k \<in> {107, 235, 547}. bs ! k \<in> {DHCP_OPTION_PAD, DHCP_OPTION_END})"
proof -
  have l: "last (take n (drop i bs)) = bs ! (i + n - 1)" if "i + n \<le> 548" "0 < n" for i n
  proof -
    have "length (take n (drop i bs)) = n" using that assms by simp
    then show ?thesis using that assms by (subst last_conv_nth) (auto simp del: length_take length_drop)
  qed
  show ?thesis
    using assms l [of 44 64] l [of 108 128] l [of 236 312]
    by (auto simp: msg_safe_def field_safe_def msg_of_bytes_def)
qed

lemma msg_safe_recv:
  assumes m: "wf_msg m" "msg_safe m" and d: "safe_datagram d"
  shows "msg_safe (recv_into d m)"
proof -
  have old: "\<forall>k \<in> {107, 235, 547}. msg_bytes m ! k \<in> {0, 255}"
    using msg_safe_bytes [OF length_msg_bytes [OF m(1)]] m by (simp add: msg_of_bytes_msg_bytes)
  have at: "(take 548 d @ drop (length d) (msg_bytes m)) ! k = (if k < length d then d ! k else msg_bytes m ! k)"
    if "k < 548" for k
    using that length_msg_bytes [OF m(1)] by (auto simp: nth_append min_def)
  have "length (take 548 d @ drop (length d) (msg_bytes m)) = 548"
    using m(1) by (simp add: min_def)
  then show ?thesis
    unfolding recv_into_def using old d by (simp add: msg_safe_bytes at safe_datagram_def)
qed

lemma msg_safe_zero [simp]: "msg_safe zero_msg"
  by (simp add: zero_msg_def msg_safe_bytes)

definition dhcpd_inv :: "dhcpd_build \<Rightarrow> dhcpd \<Rightarrow> bool" where
  "dhcpd_inv b s \<longleftrightarrow> dhcpd_ok b s \<and> msg_safe (ds_inpacket s)"

lemma dhcpd_inv_receive:
  assumes "dhcpd_inv b s" "safe_datagram d"
  shows "\<exists>s'. dhcpd_receive b d s = Some s' \<and> dhcpd_step b (received d s) s' \<and> dhcpd_inv b s'"
proof -
  have s: "dhcpd_ok b s" "wf_msg (ds_inpacket s)" "msg_safe (ds_inpacket s)"
    using assms(1) by (simp_all add: dhcpd_inv_def dhcpd_ok_def)
  have safe: "msg_safe (ds_inpacket (received d s))" "wf_msg (ds_inpacket (received d s))"
    using msg_safe_recv [OF s(2,3) assms(2)] s(2) by (simp_all add: received_def)
  then have "dhcpd_parseoptions (received d s) \<noteq> None"
    using dhcpd_parseoptions_safe by (simp add: msg_safe_def)
  then obtain s' where s': "dhcpd_receive b d s = Some s'" "dhcpd_step b (received d s) s'" "dhcpd_ok b s'"
    using dhcpd_receive_step [OF s(1)] by blast
  then have "dhcpd_inv b s'" using safe(1) by (simp add: dhcpd_inv_def dhcpd_step_def same_server_def)
  then show ?thesis using s' by blast
qed

text \<open>The memory of the daemon when it starts to listen, zeros and the address of its interface.\<close>

definition dhcpd_listening :: "dhcpd_build \<Rightarrow> u32 \<Rightarrow> dhcpd_config_s \<Rightarrow> (nat \<Rightarrow> u32 option) \<Rightarrow> (nat \<Rightarrow> bool) \<Rightarrow> dhcpd" where
  "dhcpd_listening b serverip c clock sendto = \<lparr>ds_serverip = serverip, ds_inpacket = zero_msg, ds_outpacket = zero_msg,
     ds_optmsgtype = 0, ds_optreqip = 0, ds_optserverip = 0, ds_optleasetime = 0, ds_optend = None,
     ds_leases = replicate (cf_maxleases b) zero_lease,
     g_config = c, dos_clock = clock, dos_ticks = 0, dos_sendto = sendto, dos_sends = 0, dos_sent = [], dos_arp = []\<rparr>"

lemma dhcpd_inv_listening: "pool_ok b c \<Longrightarrow> dhcpd_inv b (dhcpd_listening b serverip c clock sendto)"
  by (simp add: dhcpd_inv_def dhcpd_ok_def dhcpd_listening_def leases_ok_def zero_lease_def)

lemma dhcpd_inv_receives_same:
  "dhcpd_inv b s \<Longrightarrow> \<forall>d \<in> set ds. safe_datagram d \<Longrightarrow> dhcpd_receives b ds s = Some s' \<Longrightarrow>
   g_config s' = g_config s \<and> dos_clock s' = dos_clock s \<and> dos_ticks s \<le> dos_ticks s'"
proof (induction ds arbitrary: s)
  case (Cons d ds)
  obtain s1 where "dhcpd_receive b d s = Some s1" "dhcpd_step b (received d s) s1" "dhcpd_inv b s1"
    using dhcpd_inv_receive [OF Cons.prems(1)] Cons.prems(2) by auto
  then show ?case
    using Cons.IH [of s1] Cons.prems(2,3) by (auto simp: dhcpd_step_def same_server_def received_def)
qed simp

lemma dhcpd_inv_receives:
  "dhcpd_inv b s \<Longrightarrow> \<forall>d \<in> set ds. safe_datagram d \<Longrightarrow> \<exists>s'. dhcpd_receives b ds s = Some s' \<and> dhcpd_inv b s'"
proof (induction ds arbitrary: s)
  case (Cons d ds)
  then show ?case using dhcpd_inv_receive [OF Cons.prems(1), of d] by fastforce
qed simp

section \<open>Exclusive leases\<close>

definition lease_held :: "dhcpd \<Rightarrow> nat \<Rightarrow> u8 list \<Rightarrow> u32 \<Rightarrow> bool" where
  "lease_held s i m e \<longleftrightarrow> i < length (ds_leases s) \<and>
     lease_at s i = \<lparr>lease_mac = m, lease_allocated = True, lease_expiry = e\<rparr>"

text \<open>The address a datagram of the server gives away, \<^verbatim>\<open>yiaddr\<close>.\<close>

definition yiaddr_of :: "u8 list \<Rightarrow> u8 list" where
  "yiaddr_of data = take 4 (drop 16 data)"

lemma yiaddr_of_reply: "wf_msg out \<Longrightarrow> yiaddr_of (wire_bytes out opts) = m_yiaddr out"
  by (simp add: yiaddr_of_def wire_bytes_def msg_header_def wf_msg_def)

lemma lease_held_step:
  assumes ok: "dhcpd_ok b s" and step: "dhcpd_step b s s'" and held: "lease_held s i m e"
    and m: "m \<noteq> no_mac" "client_mac s \<noteq> m"
    and time: "\<forall>k. dos_ticks s \<le> k \<and> k < dos_ticks s' \<longrightarrow> reading s k < e"
  shows "lease_held s' i m e"
    and "\<exists>sent. dos_sent s' = dos_sent s @ sent \<and>
      (\<forall>(dest, port, data) \<in> set sent. yiaddr_of data \<noteq> mem32 (htonl (addr_of (g_config s) i)))"
proof -
  have "\<not> (lease_mac (lease_at s i) = client_mac s \<or> slot_free s (dos_ticks s') i)"
    using held m time by (simp add: lease_held_def slot_free_def) (meson leD)
  then have "ds_leases s' ! i = ds_leases s ! i \<and> length (ds_leases s') = length (ds_leases s)"
    using step unfolding dhcpd_step_def slot_change_def by (metis length_list_update nth_list_update_neq)
  then show held': "lease_held s' i m e" using held by (simp add: lease_held_def)
  obtain sent where sent: "dos_sent s' = dos_sent s @ sent" "reply_ok b s' sent"
    and same: "g_config s' = g_config s" "client_mac s' = client_mac s"
    using step by (auto simp: dhcpd_step_def same_server_def)
  have i: "i < cf_maxleases b" using held dhcpd_okD(2) [OF ok] by (simp add: lease_held_def)
  have "yiaddr_of data \<noteq> mem32 (htonl (addr_of (g_config s) i))" if new: "(dest, port, data) \<in> set sent" for dest port data
  proof -
    obtain dest' out opts where r: "sent = [(dest', htons 68, wire_bytes out opts)]" and out: "wf_msg out"
      "m_yiaddr out = mem32 0 \<or> (\<exists>j < cf_maxleases b. m_yiaddr out = mem32 (htonl (addr_of (g_config s) j)) \<and>
         lease_mac (lease_at s' j) = client_mac s)"
      using new sent(2) unfolding reply_ok_def same by (metis emptyE list.set(1))
    have "addr_of (g_config s) i \<noteq> 0"
      using in_pool_nonzero [OF dhcpd_okD(1) [OF ok] in_pool_addr_of [OF dhcpd_okD(1) [OF ok] i]] .
    moreover have "j \<noteq> i" if "lease_mac (lease_at s' j) = client_mac s" for j
      using that held' m(2) by (auto simp: lease_held_def)
    ultimately show ?thesis
      using new r out i addr_of_inj [OF dhcpd_okD(1) [OF ok]] by (auto simp: yiaddr_of_reply simp del: mem32_htonl)
  qed
  then show "\<exists>sent. dos_sent s' = dos_sent s @ sent \<and>
      (\<forall>(dest, port, data) \<in> set sent. yiaddr_of data \<noteq> mem32 (htonl (addr_of (g_config s) i)))"
    using sent(1) by blast
qed

text \<open>A datagram of another client: long enough to contain its hardware address.\<close>

definition from_other :: "u8 list \<Rightarrow> u8 list \<Rightarrow> bool" where
  "from_other m d \<longleftrightarrow> safe_datagram d \<and> 34 \<le> length d \<and> take 6 (drop 28 d) \<noteq> m"

lemma client_mac_received:
  assumes "wf_msg (ds_inpacket s)" "34 \<le> length d"
  shows "client_mac (received d s) = take 6 (drop 28 d)"
proof -
  have "client_mac (received d s) = take 6 (drop 28 (take 548 d @ drop (length d) (msg_bytes (ds_inpacket s))))"
    by (simp add: received_def recv_into_def msg_of_bytes_def del: drop_append take_append)
  also have "\<dots> = take 6 (drop 28 d)" using assms(2) by (simp add: take_drop min_def)
  finally show ?thesis .
qed

lemma lease_held_receives:
  assumes "dhcpd_inv b s" "lease_held s i m e" "m \<noteq> no_mac" "\<forall>d \<in> set ds. from_other m d"
    "dhcpd_receives b ds s = Some s'" "\<forall>k. dos_ticks s \<le> k \<and> k < dos_ticks s' \<longrightarrow> reading s k < e"
  shows "lease_held s' i m e \<and> dos_ticks s \<le> dos_ticks s' \<and> (\<exists>sent. dos_sent s' = dos_sent s @ sent \<and>
      (\<forall>(dest, port, data) \<in> set sent. yiaddr_of data \<noteq> mem32 (htonl (addr_of (g_config s) i))))"
  using assms
proof (induction ds arbitrary: s)
  case Nil
  then show ?case by simp
next
  case (Cons d ds)
  have d: "safe_datagram d" "client_mac (received d s) \<noteq> m"
    using Cons.prems(1,4) by (auto simp: from_other_def dhcpd_inv_def dhcpd_ok_def client_mac_received)
  obtain s1 where s1: "dhcpd_receive b d s = Some s1" "dhcpd_step b (received d s) s1" "dhcpd_inv b s1"
    using dhcpd_inv_receive [OF Cons.prems(1) d(1)] by blast
  have rest: "dhcpd_receives b ds s1 = Some s'" using Cons.prems(5) s1(1) by simp
  have ok: "dhcpd_ok b (received d s)" using Cons.prems(1) by (simp add: dhcpd_inv_def dhcpd_ok_def received_def)
  have same: "g_config s1 = g_config s" "dos_clock s1 = dos_clock s" "dos_ticks s \<le> dos_ticks s1"
    using s1(2) by (simp_all add: dhcpd_step_def same_server_def received_def)
  have mono: "dos_ticks s1 \<le> dos_ticks s'"
    using dhcpd_inv_receives_same [OF s1(3) _ rest] Cons.prems(4) by (auto simp: from_other_def)
  have held: "lease_held (received d s) i m e" using Cons.prems(2) by (simp add: lease_held_def received_def)
  have r: "reading (received d s) = reading s" "reading s1 = reading s"
    using same(2) by (simp_all add: fun_eq_iff reading_def received_def)
  have time: "\<forall>k. dos_ticks (received d s) \<le> k \<and> k < dos_ticks s1 \<longrightarrow> reading (received d s) k < e"
    using Cons.prems(6) mono unfolding r by (auto simp: received_def)
  note step = lease_held_step [OF ok s1(2) held Cons.prems(3) d(2) time]
  have "lease_held s' i m e \<and> dos_ticks s1 \<le> dos_ticks s' \<and> (\<exists>sent. dos_sent s' = dos_sent s1 @ sent \<and>
      (\<forall>(dest, port, data) \<in> set sent. yiaddr_of data \<noteq> mem32 (htonl (addr_of (g_config s1) i))))"
    by (rule Cons.IH [OF s1(3) step(1) Cons.prems(3) _ rest]) (use Cons.prems(4,6) same r in auto)
  then show ?case
    using step(2) same by (auto simp: received_def simp del: mem32_htonl)
qed

end
