(* ===== verification/DhcpClient.thy ===== *)
theory DhcpClient
  imports DhcpTypes
begin

text \<open>
  The DHCP client, \<^verbatim>\<open>netutils/dhcpc/dhcpc.c\<close>: the messages it sends, the parser of the replies
  and the request with its two loops, DISCOVER until an offer and REQUEST until an
  acknowledgement. The system is a record of functions on a state \<open>'w\<close> of the world: what
  \<^verbatim>\<open>sendto\<close>, \<^verbatim>\<open>recv\<close>, \<^verbatim>\<open>clock\<close>, \<^verbatim>\<open>gethostname\<close> and the two \<^verbatim>\<open>netlib\<close> calls answer, and the flag
  \<open>cancel\<close>, which another thread sets. Addresses are in network order, as \<^verbatim>\<open>s_addr\<close> is.
\<close>

section \<open>State\<close>

record dhcpc_state =
  r_serverid :: u32
  r_ipaddr :: u32
  r_netmask :: u32
  r_dnsaddr :: u32
  r_default_router :: u32
  r_lease_time :: u32

record dhcpc_state_s =
  c_xid :: "u8 list"
  c_ipaddr :: u32
  c_serverid :: u32
  c_packet :: dhcpmsg_s
  c_maclen :: nat
  c_macaddr :: "u8 list"

record dhcpc_build =
  cc_hostname :: "u8 list"
  cc_bootp_flags :: u16
  cc_recv_timeout :: nat
  cc_retries :: nat
  cc_tick2msec :: "u32 \<Rightarrow> nat"
  cc_host_name_max :: nat

record 'w dhcpc_os =
  nw_sendto :: "u8 list \<Rightarrow> u32 \<Rightarrow> 'w \<Rightarrow> bool \<times> 'w"
  nw_recv :: "'w \<Rightarrow> (u8 list + nat) \<times> 'w"
  nw_clock :: "'w \<Rightarrow> u32 \<times> 'w"
  nw_gethostname :: "'w \<Rightarrow> u8 list option"
  nw_get_addr :: "'w \<Rightarrow> u32 option"
  nw_set_addr :: "u32 \<Rightarrow> 'w \<Rightarrow> 'w"
  nw_cancel :: "'w \<Rightarrow> bool"

abbreviation (input) EINTR :: nat where "EINTR \<equiv> 4"
abbreviation (input) EAGAIN :: nat where "EAGAIN \<equiv> 11"
abbreviation (input) ECONNREFUSED :: nat where "ECONNREFUSED \<equiv> 111"

text \<open>The return of \<^verbatim>\<open>dhcpc_request\<close>: \<^verbatim>\<open>ERROR\<close> with the \<^verbatim>\<open>errno\<close> it sets, if it sets one.\<close>

datatype dhcpc_ret = RetOK | RetError "nat option"

definition zero_result :: dhcpc_state where
  "zero_result = \<lparr>r_serverid = 0, r_ipaddr = 0, r_netmask = 0, r_dnsaddr = 0, r_default_router = 0, r_lease_time = 0\<rparr>"

section \<open>Sending\<close>

text \<open>The writes through \<^verbatim>\<open>optptr\<close>: the options array and the index of the pointer.\<close>

definition opt_write :: "u8 list \<Rightarrow> u8 list \<times> nat \<Rightarrow> (u8 list \<times> nat) option" where
  "opt_write bs p = do {
     opts \<leftarrow> array_blit (fst p) (snd p) bs;
     Some (opts, snd p + length bs)
   }"

definition dhcpc_addhostname :: "u8 list \<Rightarrow> u8 list \<times> nat \<Rightarrow> (u8 list \<times> nat) option" where
  "dhcpc_addhostname hostname p = opt_write ([DHCP_OPTION_HOST_NAME, of_nat (length hostname)] @ hostname) p"

definition dhcpc_addmsgtype :: "u8 list \<times> nat \<Rightarrow> u8 \<Rightarrow> (u8 list \<times> nat) option" where
  "dhcpc_addmsgtype p type = opt_write [DHCP_OPTION_MSG_TYPE, 1, type] p"

definition dhcpc_addserverid :: "u32 \<Rightarrow> u8 list \<times> nat \<Rightarrow> (u8 list \<times> nat) option" where
  "dhcpc_addserverid serverid p = opt_write ([DHCP_OPTION_SERVER_ID, 4] @ mem32 serverid) p"

definition dhcpc_addreqipaddr :: "u32 \<Rightarrow> u8 list \<times> nat \<Rightarrow> (u8 list \<times> nat) option" where
  "dhcpc_addreqipaddr ipaddr p = opt_write ([DHCP_OPTION_REQ_IPADDR, 4] @ mem32 ipaddr) p"

definition dhcpc_addclientid :: "u8 list \<Rightarrow> u8 \<Rightarrow> u8 list \<times> nat \<Rightarrow> (u8 list \<times> nat) option" where
  "dhcpc_addclientid clientid len p = do {
     mac \<leftarrow> array_slice clientid 0 (unat len);
     opt_write ([DHCP_OPTION_CLIENT_ID, 1 + len, 1] @ mac) p
   }"

definition dhcpc_addreqoptions :: "u8 list \<times> nat \<Rightarrow> (u8 list \<times> nat) option" where
  "dhcpc_addreqoptions p =
     opt_write [DHCP_OPTION_REQ_LIST, 3, DHCP_OPTION_SUBNET_MASK, DHCP_OPTION_ROUTER, DHCP_OPTION_DNS_SERVER] p"

definition dhcpc_addend :: "u8 list \<times> nat \<Rightarrow> (u8 list \<times> nat) option" where
  "dhcpc_addend p = opt_write [DHCP_OPTION_END] p"

text \<open>The name the client sends: what \<^verbatim>\<open>gethostname\<close> gives, or the configured one.\<close>

definition dhcpc_hostname :: "dhcpc_build \<Rightarrow> 'w dhcpc_os \<Rightarrow> 'w \<Rightarrow> u8 list" where
  "dhcpc_hostname b os w =
     (case nw_gethostname os w of
        Some name \<Rightarrow> if name = [] then take (cc_host_name_max b) (cc_hostname b) else name
      | None \<Rightarrow> take (cc_host_name_max b) (cc_hostname b))"

definition dhcpc_sendmsg ::
  "dhcpc_build \<Rightarrow> 'w dhcpc_os \<Rightarrow> dhcpc_state \<Rightarrow> u8 \<Rightarrow> dhcpc_state_s \<Rightarrow> 'w \<Rightarrow> (int \<times> dhcpc_state_s \<times> 'w) option" where
  "dhcpc_sendmsg b os presult msgtype c w = do {
     mac \<leftarrow> array_slice (c_macaddr c) 0 (c_maclen c);
     chaddr \<leftarrow> array_blit (m_chaddr zero_msg) 0 mac;
     opts \<leftarrow> array_blit (m_options zero_msg) 0 g_magiccookie;
     let m = zero_msg\<lparr>m_op := DHCP_REQUEST, m_htype := 1, m_hlen := of_nat (c_maclen c), m_xid := c_xid c,
                      m_chaddr := chaddr, m_options := opts\<rparr>;
     pend \<leftarrow> dhcpc_addmsgtype (opts, 4) msgtype;
     let hostname = dhcpc_hostname b os w;
     body \<leftarrow>
       (if msgtype = DHCPDISCOVER then do {
          pend \<leftarrow> dhcpc_addhostname hostname pend;
          pend \<leftarrow> dhcpc_addreqoptions pend;
          pend \<leftarrow> dhcpc_addclientid (c_macaddr c) (of_nat (c_maclen c)) pend;
          Some (Some (m\<lparr>m_flags := htons (cc_bootp_flags b)\<rparr>, pend, INADDR_BROADCAST))
        }
        else if msgtype = DHCPREQUEST then do {
          pend \<leftarrow> dhcpc_addhostname hostname pend;
          pend \<leftarrow> dhcpc_addserverid (c_serverid c) pend;
          pend \<leftarrow> dhcpc_addreqipaddr (c_ipaddr c) pend;
          pend \<leftarrow> dhcpc_addclientid (c_macaddr c) (of_nat (c_maclen c)) pend;
          Some (Some (m\<lparr>m_flags := htons (cc_bootp_flags b)\<rparr>, pend, INADDR_BROADCAST))
        }
        else if msgtype = DHCPDECLINE then do {
          pend \<leftarrow> dhcpc_addserverid (r_serverid presult) pend;
          Some (Some (m\<lparr>m_ciaddr := mem32 (r_ipaddr presult)\<rparr>, pend, r_serverid presult))
        }
        else Some None);
     case body of
       None \<Rightarrow> Some (-1, c\<lparr>c_packet := m\<lparr>m_options := fst pend\<rparr>\<rparr>, w)
     | Some (m, pend, dest) \<Rightarrow> do {
         pend \<leftarrow> dhcpc_addend pend;
         let m = m\<lparr>m_options := fst pend\<rparr>;
         data \<leftarrow> array_slice (msg_bytes m) 0 (236 + snd pend);
         let (ok, w) = nw_sendto os data dest w;
         Some (if ok then int (length data) else -1, c\<lparr>c_packet := m\<rparr>, w)
       }
   }"

section \<open>Parsing\<close>

text \<open>The data of an option, if the packet has all of it: \<open>optptr + n <= end\<close>.\<close>

definition opt_data :: "u8 list \<Rightarrow> nat \<Rightarrow> int \<Rightarrow> nat \<Rightarrow> u8 list option option" where
  "opt_data opts ptr end n =
     (if int (ptr + 2 + n) \<le> end then do { v \<leftarrow> array_slice opts (ptr + 2) n; Some (Some v) } else Some None)"

text \<open>The \<^verbatim>\<open>switch\<close> on the option code, without \<^verbatim>\<open>DHCP_OPTION_END\<close>.\<close>

definition dhcpc_parseoption ::
  "u8 \<Rightarrow> u8 list \<Rightarrow> nat \<Rightarrow> int \<Rightarrow> u8 \<times> dhcpc_state \<Rightarrow> (u8 \<times> dhcpc_state) option" where
  "dhcpc_parseoption code opts ptr end st =
     (let (type, r) = st in
      if code = DHCP_OPTION_SUBNET_MASK then do {
        d \<leftarrow> opt_data opts ptr end 4;
        Some (type, case d of Some v \<Rightarrow> r\<lparr>r_netmask := of_mem32 v\<rparr> | None \<Rightarrow> r)
      }
      else if code = DHCP_OPTION_ROUTER then do {
        d \<leftarrow> opt_data opts ptr end 4;
        Some (type, case d of Some v \<Rightarrow> r\<lparr>r_default_router := of_mem32 v\<rparr> | None \<Rightarrow> r)
      }
      else if code = DHCP_OPTION_DNS_SERVER then do {
        d \<leftarrow> opt_data opts ptr end 4;
        Some (type, case d of Some v \<Rightarrow> r\<lparr>r_dnsaddr := of_mem32 v\<rparr> | None \<Rightarrow> r)
      }
      else if code = DHCP_OPTION_MSG_TYPE then do {
        d \<leftarrow> opt_data opts ptr end 1;
        Some (case d of Some v \<Rightarrow> v ! 0 | None \<Rightarrow> type, r)
      }
      else if code = DHCP_OPTION_SERVER_ID then do {
        d \<leftarrow> opt_data opts ptr end 4;
        Some (type, case d of Some v \<Rightarrow> r\<lparr>r_serverid := of_mem32 v\<rparr> | None \<Rightarrow> r)
      }
      else if code = DHCP_OPTION_LEASE_TIME then do {
        d \<leftarrow> opt_data opts ptr end 4;
        Some (type, case d of
            Some v \<Rightarrow> r\<lparr>r_lease_time := push_bit 16 (ucast (ntohs (of_mem16 (take 2 v)))) OR
                                          ucast (ntohs (of_mem16 (drop 2 v)))\<rparr>
          | None \<Rightarrow> r)
      }
      else Some (type, r))"

function dhcpc_parseoptions :: "u8 list \<Rightarrow> nat \<Rightarrow> int \<Rightarrow> u8 \<times> dhcpc_state \<Rightarrow> (u8 \<times> dhcpc_state) option" where
  "dhcpc_parseoptions opts optptr end st =
     (if int optptr < end
      then do {
        code \<leftarrow> array_get opts optptr;
        if code = DHCP_OPTION_END then Some st
        else do {
          st \<leftarrow> dhcpc_parseoption code opts optptr end st;
          if end \<le> int (optptr + 1) then Some st
          else do {
            n \<leftarrow> array_get opts (optptr + 1);
            dhcpc_parseoptions opts (optptr + (unat n + 2)) end st
          }
        }
      }
      else Some st)"
  by pat_completeness auto

termination
proof (relation "measure (\<lambda>(opts, optptr, end, st). nat (end - int optptr))", goal_cases)
  case 1
  show ?case by simp
next
  case (2 opts optptr "end" st code st' n)
  then have "int optptr < end" by simp
  then have "nat (end - int (optptr + (unat n + 2))) < nat (end - int optptr)"
    by (simp only: zless_nat_conj) linarith
  then show ?case by simp
qed

declare dhcpc_parseoptions.simps [simp del]

definition dhcpc_parsemsg :: "dhcpc_state_s \<Rightarrow> nat \<Rightarrow> dhcpc_state \<Rightarrow> (u8 \<times> dhcpc_state) option" where
  "dhcpc_parsemsg c buflen presult =
     (if 44 \<le> buflen \<and> m_op (c_packet c) = DHCP_REPLY \<and> m_xid (c_packet c) = c_xid c
      then do {
        a \<leftarrow> array_slice (m_chaddr (c_packet c)) 0 (c_maclen c);
        m \<leftarrow> array_slice (c_macaddr c) 0 (c_maclen c);
        if a = m
        then dhcpc_parseoptions (m_options (c_packet c)) 4 (4 + (int buflen - 240))
               (0, presult\<lparr>r_ipaddr := of_mem32 (m_yiaddr (c_packet c))\<rparr>)
        else Some (0, presult)
      }
      else Some (0, presult))"

section \<open>The request\<close>

text \<open>
  The local state of \<^verbatim>\<open>dhcpc_request\<close>: \<open>q_state\<close> is \<^verbatim>\<open>STATE_INITIAL\<close> 0, \<^verbatim>\<open>STATE_HAVE_OFFER\<close> 1 or
  \<^verbatim>\<open>STATE_HAVE_LEASE\<close> 2. A loop ends with the state, or with the error it returns.
\<close>

record 'w dhcpc_run =
  q_c :: dhcpc_state_s
  q_result :: dhcpc_state
  q_state :: nat
  q_world :: 'w

type_synonym 'w dhcpc_loop = "(dhcpc_ret option \<times> 'w dhcpc_run) option"

text \<open>The condition at the end of the inner loops, \<open>state == s && TICK2MSEC(clock() - start) < timeout\<close>.\<close>

definition keep_waiting :: "dhcpc_build \<Rightarrow> 'w dhcpc_os \<Rightarrow> nat \<Rightarrow> u32 \<Rightarrow> 'w dhcpc_run \<Rightarrow> bool \<times> 'w dhcpc_run" where
  "keep_waiting b os st start q =
     (if q_state q = st
      then let (now, w) = nw_clock os (q_world q) in
           (cc_tick2msec b (now - start) < cc_recv_timeout b, q\<lparr>q_world := w\<rparr>)
      else (False, q))"

text \<open>One pass of the loop for the DHCPOFFER.\<close>

definition dhcpc_recvoffer :: "'w dhcpc_os \<Rightarrow> 'w dhcpc_run \<Rightarrow> 'w dhcpc_loop" where
  "dhcpc_recvoffer os q =
     (let (r, w) = nw_recv os (q_world q) in
      case r of
        Inl data \<Rightarrow> do {
          let c = (q_c q)\<lparr>c_packet := recv_into data (c_packet (q_c q))\<rparr>;
          (msgtype, result) \<leftarrow> dhcpc_parsemsg c (min 548 (length data)) (q_result q);
          if msgtype = DHCPOFFER
          then Some (None, q\<lparr>q_c := c\<lparr>c_ipaddr := r_ipaddr result, c_serverid := r_serverid result\<rparr>,
                             q_result := result, q_state := 1, q_world := nw_set_addr os (r_ipaddr result) w\<rparr>)
          else Some (None, q\<lparr>q_c := c, q_result := result, q_world := w\<rparr>)
        }
      | Inr errno \<Rightarrow>
          Some (if errno \<noteq> EAGAIN \<and> errno \<noteq> EINTR then Some (RetError None) else None, q\<lparr>q_world := w\<rparr>))"

partial_function (option) dhcpc_waitoffer :: "dhcpc_build \<Rightarrow> 'w dhcpc_os \<Rightarrow> u32 \<Rightarrow> 'w dhcpc_run \<Rightarrow> 'w dhcpc_loop" where
  "dhcpc_waitoffer b os start q = do {
     (err, q) \<leftarrow> dhcpc_recvoffer os q;
     if err \<noteq> None then Some (err, q)
     else let (more, q) = keep_waiting b os 0 start q in
          if more then dhcpc_waitoffer b os start q else Some (None, q)
   }"

text \<open>The loop that sends DISCOVER; the argument is \<^verbatim>\<open>CONFIG_NETUTILS_DHCPC_RETRIES - retries\<close>.\<close>

fun dhcpc_discover :: "dhcpc_build \<Rightarrow> 'w dhcpc_os \<Rightarrow> nat \<Rightarrow> 'w dhcpc_run \<Rightarrow> 'w dhcpc_loop" where
  "dhcpc_discover b os left q =
     (if nw_cancel os (q_world q) then Some (Some (RetError (Some EINTR)), q)
      else do {
        (ret, c, w) \<leftarrow> dhcpc_sendmsg b os (q_result q) DHCPDISCOVER (q_c q) (q_world q);
        let q = q\<lparr>q_c := c, q_world := w\<rparr>;
        if ret < 0 then Some (Some (RetError None), q)
        else do {
          let (start, w) = nw_clock os (q_world q);
          (err, q) \<leftarrow> dhcpc_waitoffer b os start (q\<lparr>q_world := w\<rparr>);
          if err \<noteq> None then Some (err, q)
          else if q_state q = 0 \<and> 1 < left then dhcpc_discover b os (left - 1) q
          else Some (None, q)
        }
      })"

declare dhcpc_discover.simps [simp del]

text \<open>One pass of the loop for the ACK or NAK; \<open>oldaddr\<close> is the address before the request.\<close>

definition dhcpc_recvack :: "dhcpc_build \<Rightarrow> 'w dhcpc_os \<Rightarrow> u32 \<Rightarrow> 'w dhcpc_run \<Rightarrow> 'w dhcpc_loop" where
  "dhcpc_recvack b os oldaddr q =
     (let (r, w) = nw_recv os (q_world q) in
      case r of
        Inl data \<Rightarrow> do {
          let c = (q_c q)\<lparr>c_packet := recv_into data (c_packet (q_c q))\<rparr>;
          (msgtype, result) \<leftarrow> dhcpc_parsemsg c (min 548 (length data)) (q_result q);
          let q = q\<lparr>q_c := c, q_result := result, q_world := w\<rparr>;
          if msgtype = DHCPACK then Some (None, q\<lparr>q_state := 2\<rparr>)
          else if msgtype = DHCPNAK
          then Some (Some (RetError (Some ECONNREFUSED)), q\<lparr>q_world := nw_set_addr os 0 (q_world q)\<rparr>)
          else if msgtype = DHCPOFFER \<and> c_serverid (q_c q) \<noteq> r_serverid result
          then do {
            (_, c, w) \<leftarrow> dhcpc_sendmsg b os result DHCPDECLINE (q_c q) (q_world q);
            Some (None, q\<lparr>q_c := c, q_world := w\<rparr>)
          }
          else Some (None, q)
        }
      | Inr errno \<Rightarrow>
          if errno \<noteq> EAGAIN \<and> errno \<noteq> EINTR
          then Some (Some (RetError None), q\<lparr>q_world := nw_set_addr os oldaddr w\<rparr>)
          else Some (None, q\<lparr>q_world := w\<rparr>))"

partial_function (option) dhcpc_waitack ::
  "dhcpc_build \<Rightarrow> 'w dhcpc_os \<Rightarrow> u32 \<Rightarrow> u32 \<Rightarrow> 'w dhcpc_run \<Rightarrow> 'w dhcpc_loop" where
  "dhcpc_waitack b os oldaddr start q = do {
     (err, q) \<leftarrow> dhcpc_recvack b os oldaddr q;
     if err \<noteq> None then Some (err, q)
     else let (more, q) = keep_waiting b os 1 start q in
          if more then dhcpc_waitack b os oldaddr start q else Some (None, q)
   }"

fun dhcpc_confirm :: "dhcpc_build \<Rightarrow> 'w dhcpc_os \<Rightarrow> u32 \<Rightarrow> nat \<Rightarrow> 'w dhcpc_run \<Rightarrow> 'w dhcpc_loop" where
  "dhcpc_confirm b os oldaddr left q =
     (if nw_cancel os (q_world q) then Some (Some (RetError (Some EINTR)), q)
      else do {
        (ret, c, w) \<leftarrow> dhcpc_sendmsg b os (q_result q) DHCPREQUEST (q_c q) (q_world q);
        let q = q\<lparr>q_c := c, q_world := w\<rparr>;
        if ret < 0 then Some (Some (RetError None), q)
        else do {
          let (start, w) = nw_clock os (q_world q);
          (err, q) \<leftarrow> dhcpc_waitack b os oldaddr start (q\<lparr>q_world := w\<rparr>);
          if err \<noteq> None then Some (err, q)
          else if q_state q = 1 \<and> 1 < left then dhcpc_confirm b os oldaddr (left - 1) q
          else Some (None, q)
        }
      })"

declare dhcpc_confirm.simps [simp del]

definition dhcpc_request ::
  "dhcpc_build \<Rightarrow> 'w dhcpc_os \<Rightarrow> dhcpc_state_s \<Rightarrow> 'w \<Rightarrow> (dhcpc_ret \<times> dhcpc_state \<times> dhcpc_state_s \<times> 'w) option" where
  "dhcpc_request b os c w = do {
     x \<leftarrow> array_get (c_xid c) 3;
     xid \<leftarrow> array_put (c_xid c) 3 (x + 1);
     let oldaddr = (case nw_get_addr os w of Some a \<Rightarrow> a | None \<Rightarrow> 0);
     (err, q) \<leftarrow> dhcpc_discover b os (cc_retries b)
                  \<lparr>q_c = c\<lparr>c_xid := xid\<rparr>, q_result = zero_result, q_state = 0, q_world = w\<rparr>;
     case err of
       Some ret \<Rightarrow> Some (ret, q_result q, q_c q, q_world q)
     | None \<Rightarrow>
         if q_state q = 0 then Some (RetError None, q_result q, q_c q, q_world q)
         else do {
           (err, q) \<leftarrow> dhcpc_confirm b os oldaddr (cc_retries b) q;
           case err of
             Some ret \<Rightarrow> Some (ret, q_result q, q_c q, q_world q)
           | None \<Rightarrow>
               Some (if q_state q = 2 then RetOK else RetError None, q_result q, q_c q, q_world q)
         }
   }"

section \<open>The parser\<close>

lemma opt_data_safe: "end \<le> int (length opts) \<Longrightarrow> opt_data opts ptr end n \<noteq> None"
  by (simp add: opt_data_def array_slice_def)

lemma dhcpc_parseoption_safe:
  "end \<le> int (length opts) \<Longrightarrow> dhcpc_parseoption code opts ptr end st \<noteq> None"
  using opt_data_safe [of "end" opts ptr] unfolding dhcpc_parseoption_def Let_def
  by (cases st) (simp only: prod.case, intro if_ne bind_Some_ne; simp)

lemma dhcpc_parseoptions_safe:
  "end \<le> int (length opts) \<Longrightarrow> dhcpc_parseoptions opts ptr end st \<noteq> None"
proof (induction opts ptr "end" st rule: dhcpc_parseoptions.induct)
  case (1 opts ptr "end" st)
  show ?case
  proof (cases "int ptr < end \<and> opts ! ptr \<noteq> 255")
    case True
    then have code: "array_get opts ptr = Some (opts ! ptr)" using 1(2) by (intro array_get_Some) linarith
    obtain st' where st': "dhcpc_parseoption (opts ! ptr) opts ptr end st = Some st'"
      using dhcpc_parseoption_safe [OF 1(2)] by (meson not_Some_eq)
    show ?thesis
    proof (cases "end \<le> int (ptr + 1)")
      case last: True
      then show ?thesis using True by (subst dhcpc_parseoptions.simps) (simp add: code st')
    next
      case False
      then have n: "array_get opts (ptr + 1) = Some (opts ! (ptr + 1))" using 1(2) by (intro array_get_Some) linarith
      show ?thesis
        using 1(1) [OF _ code _ st' False n 1(2)] True False n
        by (subst dhcpc_parseoptions.simps) (simp add: code st')
    qed
  next
    case False
    then show ?thesis using 1(2) by (subst dhcpc_parseoptions.simps) (auto simp: array_get_def)
  qed
qed

text \<open>What the client keeps of an option that has the size the protocol gives it.\<close>

definition result_store :: "dhcp_option \<Rightarrow> u8 \<times> dhcpc_state \<Rightarrow> u8 \<times> dhcpc_state" where
  "result_store opt st =
     (let (type, r) = st; code = fst opt; data = snd opt in
      if code = DHCP_OPTION_SUBNET_MASK then (type, r\<lparr>r_netmask := of_mem32 data\<rparr>)
      else if code = DHCP_OPTION_ROUTER then (type, r\<lparr>r_default_router := of_mem32 data\<rparr>)
      else if code = DHCP_OPTION_DNS_SERVER then (type, r\<lparr>r_dnsaddr := of_mem32 data\<rparr>)
      else if code = DHCP_OPTION_MSG_TYPE then (data ! 0, r)
      else if code = DHCP_OPTION_SERVER_ID then (type, r\<lparr>r_serverid := of_mem32 data\<rparr>)
      else if code = DHCP_OPTION_LEASE_TIME then (type, r\<lparr>r_lease_time := ntohl (of_mem32 data)\<rparr>)
      else (type, r))"

definition sized_option :: "dhcp_option \<Rightarrow> bool" where
  "sized_option opt \<longleftrightarrow> fst opt \<noteq> DHCP_OPTION_END \<and> length (snd opt) < 256 \<and>
     (fst opt \<in> {DHCP_OPTION_SUBNET_MASK, DHCP_OPTION_ROUTER, DHCP_OPTION_DNS_SERVER, DHCP_OPTION_SERVER_ID,
        DHCP_OPTION_LEASE_TIME} \<longrightarrow> length (snd opt) = 4) \<and>
     (fst opt = DHCP_OPTION_MSG_TYPE \<longrightarrow> length (snd opt) = 1)"

text \<open>The two halves of the lease time, each in network order, are the 32-bit number in network order.\<close>

lemma lease_time_halves:
  assumes "length v = 4"
  shows "push_bit 16 (ucast (ntohs (of_mem16 (take 2 v)))) OR ucast (ntohs (of_mem16 (drop 2 v))) = ntohl (of_mem32 v)"
proof -
  obtain b0 b1 b2 b3 where v: "v = [b0, b1, b2, b3]" using length4E [OF assms] by blast
  have "ntohl (of_mem32 v) = of_mem32 [b3, b2, b1, b0]" using assms by (simp add: htonl_def v)
  moreover have "ntohs (of_mem16 [x, y]) = be16 x y" for x y
    by (simp add: htons_def of_mem16_def mem16_def)
  ultimately show ?thesis
    by (intro bit_word_eqI) (auto simp: v bit_of_mem32 bit_simps bit_be16 dest: bit_imp_le_length)
qed

lemma opt_data_enc:
  assumes "opts = pre @ enc_option opt @ rest" "int (length pre + length (enc_option opt)) \<le> end"
    "n = length (snd opt)"
  shows "opt_data opts (length pre) end n = Some (Some (snd opt))"
  using assms by (simp add: opt_data_def array_slice_def enc_option_def)

lemma dhcpc_parseoption_enc:
  assumes "opts = pre @ enc_option opt @ rest" "int (length pre + length (enc_option opt)) \<le> end" "sized_option opt"
  shows "dhcpc_parseoption (fst opt) opts (length pre) end st = Some (result_store opt st)"
proof -
  have d4: "opt_data opts (length pre) end 4 = Some (Some (snd opt))" if "length (snd opt) = 4"
    using opt_data_enc [OF assms(1,2), of 4] that by simp
  have d1: "opt_data opts (length pre) end 1 = Some (Some (snd opt))" if "length (snd opt) = 1"
    using opt_data_enc [OF assms(1,2), of 1] that by simp
  show ?thesis
    using assms(3) d4 d1 lease_time_halves [of "snd opt"]
    by (cases st) (auto simp: dhcpc_parseoption_def result_store_def sized_option_def Let_def)
qed

lemma dhcpc_parseoptions_enc:
  assumes "opts = pre @ enc_options os @ DHCP_OPTION_END # rest" "\<forall>opt \<in> set os. sized_option opt"
    "int (length pre + length (enc_options os) + 1) \<le> end"
  shows "dhcpc_parseoptions opts (length pre) end st = Some (fold result_store os st)"
  using assms
proof (induction os arbitrary: pre st)
  case Nil
  then show ?case by (subst dhcpc_parseoptions.simps) (simp add: array_get_def)
next
  case (Cons opt os)
  have opts: "opts = pre @ enc_option opt @ (enc_options os @ DHCP_OPTION_END # rest)" using Cons.prems(1) by simp
  have opt: "sized_option opt" "fst opt \<noteq> 255" "length (snd opt) < 256" using Cons.prems(2) by (auto simp: sized_option_def)
  have "array_get opts (length pre) = Some (fst opt)"
    "array_get opts (length pre + 1) = Some (of_nat (length (snd opt)))"
    by (simp_all add: opts array_get_def enc_option_def nth_append)
  moreover have "dhcpc_parseoption (fst opt) opts (length pre) end st = Some (result_store opt st)"
    by (rule dhcpc_parseoption_enc [OF opts _ opt(1)]) (use Cons.prems(3) in simp)
  moreover have "dhcpc_parseoptions opts (length pre + (length (snd opt) + 2)) end (result_store opt st) =
      Some (fold result_store os (result_store opt st))"
    using Cons.IH [of "pre @ enc_option opt" "result_store opt st"] Cons.prems by (simp add: add.assoc)
  ultimately show ?case
    using Cons.prems(3) opt(2) by (subst dhcpc_parseoptions.simps) (simp add: unat_of_nat_u8 [OF opt(3)])
qed

section \<open>The messages of the client\<close>

definition mac_of :: "dhcpc_state_s \<Rightarrow> u8 list" where
  "mac_of c = take (c_maclen c) (c_macaddr c)"

definition client_head :: "dhcpc_build \<Rightarrow> dhcpc_state_s \<Rightarrow> dhcpmsg_s" where
  "client_head b c = zero_msg\<lparr>m_op := DHCP_REQUEST, m_htype := 1, m_hlen := of_nat (c_maclen c), m_xid := c_xid c,
     m_chaddr := mac_of c @ replicate (16 - c_maclen c) 0, m_flags := htons (cc_bootp_flags b)\<rparr>"

definition discover_options :: "u8 list \<Rightarrow> dhcpc_state_s \<Rightarrow> dhcp_option list" where
  "discover_options host c = [(DHCP_OPTION_MSG_TYPE, [DHCPDISCOVER]), (DHCP_OPTION_HOST_NAME, host),
     (DHCP_OPTION_REQ_LIST, [DHCP_OPTION_SUBNET_MASK, DHCP_OPTION_ROUTER, DHCP_OPTION_DNS_SERVER]),
     (DHCP_OPTION_CLIENT_ID, 1 # mac_of c)]"

definition request_options :: "u8 list \<Rightarrow> dhcpc_state_s \<Rightarrow> dhcp_option list" where
  "request_options host c = [(DHCP_OPTION_MSG_TYPE, [DHCPREQUEST]), (DHCP_OPTION_HOST_NAME, host),
     (DHCP_OPTION_SERVER_ID, mem32 (c_serverid c)), (DHCP_OPTION_REQ_IPADDR, mem32 (c_ipaddr c)),
     (DHCP_OPTION_CLIENT_ID, 1 # mac_of c)]"

text \<open>A client whose transaction number, hardware address and host name have the lengths they must have.\<close>

definition client_ok :: "dhcpc_state_s \<Rightarrow> bool" where
  "client_ok c \<longleftrightarrow> length (c_xid c) = 4 \<and> c_maclen c \<le> 16 \<and> c_maclen c \<le> length (c_macaddr c) \<and> wf_msg (c_packet c)"

lemma length_mac_of [simp]: "client_ok c \<Longrightarrow> length (mac_of c) = c_maclen c"
  by (simp add: client_ok_def mac_of_def)

lemma wf_client_head: "client_ok c \<Longrightarrow> wf_msg (client_head b c)"
  using wf_zero_msg by (auto simp: client_head_def wf_msg_def client_ok_def mac_of_def)

definition client_field :: "u8 list \<Rightarrow> u8 list" where
  "client_field bs = g_magiccookie @ bs @ replicate (308 - length bs) 0"

lemma opt_write_field:
  assumes "length bs + length new \<le> 308" "p = 4 + length bs"
  shows "opt_write new (client_field bs, p) = Some (client_field (bs @ new), p + length new)"
  using assms by (simp add: opt_write_def array_blit_def client_field_def)

text \<open>Every function that adds an option writes its encoding.\<close>

lemma dhcpc_add_enc:
  "dhcpc_addmsgtype p t = opt_write (enc_option (DHCP_OPTION_MSG_TYPE, [t])) p"
  "dhcpc_addhostname host p = opt_write (enc_option (DHCP_OPTION_HOST_NAME, host)) p"
  "dhcpc_addserverid a p = opt_write (enc_option (DHCP_OPTION_SERVER_ID, mem32 a)) p"
  "dhcpc_addreqipaddr a p = opt_write (enc_option (DHCP_OPTION_REQ_IPADDR, mem32 a)) p"
  "dhcpc_addreqoptions p = opt_write (enc_option (DHCP_OPTION_REQ_LIST,
     [DHCP_OPTION_SUBNET_MASK, DHCP_OPTION_ROUTER, DHCP_OPTION_DNS_SERVER])) p"
  by (simp_all add: dhcpc_addmsgtype_def dhcpc_addhostname_def dhcpc_addserverid_def dhcpc_addreqipaddr_def
      dhcpc_addreqoptions_def enc_option_def)

lemma dhcpc_addclientid_enc:
  "client_ok c \<Longrightarrow>
   dhcpc_addclientid (c_macaddr c) (of_nat (c_maclen c)) p = opt_write (enc_option (DHCP_OPTION_CLIENT_ID, 1 # mac_of c)) p"
  by (simp add: dhcpc_addclientid_def enc_option_def array_slice_def client_ok_def mac_of_def unat_of_nat_u8)

lemma sendmsg_start:
  assumes "client_ok c"
  shows "array_slice (c_macaddr c) 0 (c_maclen c) = Some (mac_of c)"
    "array_blit (m_chaddr zero_msg) 0 (mac_of c) = Some (mac_of c @ replicate (16 - c_maclen c) 0)"
    "array_blit (m_options zero_msg) 0 g_magiccookie = Some (client_field [])"
proof -
  have "m_chaddr zero_msg = replicate 16 0" "m_options zero_msg = replicate 312 0"
    by (simp_all add: zero_msg_def msg_of_bytes_def)
  then show "array_slice (c_macaddr c) 0 (c_maclen c) = Some (mac_of c)"
    "array_blit (m_chaddr zero_msg) 0 (mac_of c) = Some (mac_of c @ replicate (16 - c_maclen c) 0)"
    "array_blit (m_options zero_msg) 0 g_magiccookie = Some (client_field [])"
    using assms length_mac_of [OF assms]
    by (simp_all add: array_slice_def array_blit_def client_field_def mac_of_def client_ok_def)
qed

text \<open>The packet a message leaves in the state, with its end option.\<close>

definition client_packet :: "dhcpmsg_s \<Rightarrow> dhcp_option list \<Rightarrow> dhcpmsg_s" where
  "client_packet m opts = m\<lparr>m_options := client_field (enc_options opts @ [DHCP_OPTION_END])\<rparr>"

lemma wf_client_packet: "wf_msg m \<Longrightarrow> length (enc_options opts) < 308 \<Longrightarrow> wf_msg (client_packet m opts)"
  by (simp add: wf_msg_def client_packet_def client_field_def)

lemma slice_client_packet:
  assumes "wf_msg m" "length (enc_options opts) < 308"
  shows "array_slice (msg_bytes (client_packet m opts)) 0 (236 + (4 + length (enc_options opts) + 1)) = Some (wire_bytes m opts)"
  using assms by (simp add: array_slice_def msg_bytes_header client_packet_def client_field_def wire_bytes_def)

definition sent_as :: "'w dhcpc_os \<Rightarrow> dhcpmsg_s \<Rightarrow> dhcp_option list \<Rightarrow> u32 \<Rightarrow> dhcpc_state_s \<Rightarrow> 'w \<Rightarrow>
  (int \<times> dhcpc_state_s \<times> 'w) option" where
  "sent_as os m opts dest c w =
     (let (ok, w) = nw_sendto os (wire_bytes m opts) dest w in
      Some (if ok then int (241 + length (enc_options opts)) else -1, c\<lparr>c_packet := client_packet m opts\<rparr>, w))"

lemma dhcpc_sendmsg_discover:
  assumes c: "client_ok c" and host: "length (dhcpc_hostname b os w) \<le> 200"
  shows "dhcpc_sendmsg b os r DHCPDISCOVER c w =
    sent_as os (client_head b c) (discover_options (dhcpc_hostname b os w) c) INADDR_BROADCAST c w"
proof -
  let ?o = "discover_options (dhcpc_hostname b os w) c"
  have mac: "length (mac_of c) \<le> 16" using c by (simp add: client_ok_def mac_of_def)
  have len: "length (enc_options ?o) < 308" using host mac by (simp add: discover_options_def)
  note slice = slice_client_packet [OF wf_client_head [OF c] len]
  show ?thesis
    using host mac slice length_wire_bytes [OF wf_client_head [OF c, of b], of ?o]
    by (simp add: dhcpc_sendmsg_def sendmsg_start [OF c] dhcpc_add_enc dhcpc_addclientid_enc [OF c] dhcpc_addend_def
        opt_write_field Let_def sent_as_def client_packet_def client_head_def discover_options_def case_prod_unfold)
qed

lemma dhcpc_sendmsg_request:
  assumes c: "client_ok c" and host: "length (dhcpc_hostname b os w) \<le> 200"
  shows "dhcpc_sendmsg b os r DHCPREQUEST c w =
    sent_as os (client_head b c) (request_options (dhcpc_hostname b os w) c) INADDR_BROADCAST c w"
proof -
  let ?o = "request_options (dhcpc_hostname b os w) c"
  have mac: "length (mac_of c) \<le> 16" using c by (simp add: client_ok_def mac_of_def)
  have len: "length (enc_options ?o) < 308" using host mac by (simp add: request_options_def)
  note slice = slice_client_packet [OF wf_client_head [OF c] len]
  show ?thesis
    using host mac slice length_wire_bytes [OF wf_client_head [OF c, of b], of ?o]
    by (simp add: dhcpc_sendmsg_def sendmsg_start [OF c] dhcpc_add_enc dhcpc_addclientid_enc [OF c] dhcpc_addend_def
        opt_write_field Let_def sent_as_def client_packet_def client_head_def request_options_def case_prod_unfold)
qed

section \<open>The replies\<close>

text \<open>A datagram answers the client with a message type: it is a reply to the transaction, for its hardware address.\<close>

definition answers :: "dhcpc_state_s \<Rightarrow> u8 \<Rightarrow> u8 list \<Rightarrow> dhcpc_state \<Rightarrow> dhcpc_state \<Rightarrow> bool" where
  "answers c mtype data r r' \<longleftrightarrow>
     (\<exists>m opts. data = wire_bytes m opts \<and> wf_msg m \<and> length (enc_options opts) \<le> 307 \<and>
        (\<forall>opt \<in> set opts. sized_option opt) \<and>
        m_op m = DHCP_REPLY \<and> m_xid m = c_xid c \<and> take (c_maclen c) (m_chaddr m) = mac_of c \<and>
        fold result_store opts (0, r\<lparr>r_ipaddr := of_mem32 (m_yiaddr m)\<rparr>) = (mtype, r'))"

lemma dhcpc_parsemsg_answer:
  assumes c: "client_ok c" and a: "answers c mtype data r r'"
  shows "dhcpc_parsemsg (c\<lparr>c_packet := recv_into data (c_packet c)\<rparr>) (min 548 (length data)) r = Some (mtype, r')"
proof -
  obtain m opts where data: "data = wire_bytes m opts" and m: "wf_msg m" and len: "length (enc_options opts) \<le> 307"
    and opts: "\<forall>opt \<in> set opts. sized_option opt"
    and h: "m_op m = DHCP_REPLY" "m_xid m = c_xid c" "take (c_maclen c) (m_chaddr m) = mac_of c"
    and r': "fold result_store opts (0, r\<lparr>r_ipaddr := of_mem32 (m_yiaddr m)\<rparr>) = (mtype, r')"
    using a unfolding answers_def by blast
  have pkt: "recv_into data (c_packet c) = m\<lparr>m_options := wire_options opts (c_packet c)\<rparr>"
    unfolding data by (rule recv_wire [OF m _ len]) (use c in \<open>simp add: client_ok_def\<close>)
  have parse: "dhcpc_parseoptions (wire_options opts (c_packet c)) 4 (int (5 + length (enc_options opts)))
      (0, r\<lparr>r_ipaddr := of_mem32 (m_yiaddr m)\<rparr>) = Some (mtype, r')"
    using dhcpc_parseoptions_enc [of "wire_options opts (c_packet c)" g_magiccookie opts
        "drop (5 + length (enc_options opts)) (m_options (c_packet c))" "int (5 + length (enc_options opts))"] opts r'
    by (simp add: wire_options_def)
  have "array_slice (m_chaddr m) 0 (c_maclen c) = Some (mac_of c)" "array_slice (c_macaddr c) 0 (c_maclen c) = Some (mac_of c)"
    using h(3) m c by (simp_all add: array_slice_def wf_msg_def client_ok_def mac_of_def)
  moreover have "min 548 (length data) = 241 + length (enc_options opts)" using m len by (simp add: data)
  ultimately show ?thesis using parse h by (simp add: dhcpc_parsemsg_def pkt)
qed

text \<open>The first pass of each loop, when the answer arrives.\<close>

lemma dhcpc_waitoffer_answer:
  assumes c: "client_ok (q_c q)" and recv: "nw_recv os (q_world q) = (Inl data, w)"
    and a: "answers (q_c q) DHCPOFFER data (q_result q) r"
  shows "dhcpc_waitoffer b os start q = Some (None, q\<lparr>q_c := (q_c q)\<lparr>c_packet := recv_into data (c_packet (q_c q)),
      c_ipaddr := r_ipaddr r, c_serverid := r_serverid r\<rparr>, q_result := r, q_state := 1,
      q_world := nw_set_addr os (r_ipaddr r) w\<rparr>)"
  by (subst dhcpc_waitoffer.simps)
     (simp add: dhcpc_recvoffer_def recv dhcpc_parsemsg_answer [OF c a] keep_waiting_def Let_def)

lemma dhcpc_waitack_answer:
  assumes c: "client_ok (q_c q)" and recv: "nw_recv os (q_world q) = (Inl data, w)"
    and a: "answers (q_c q) DHCPACK data (q_result q) r"
  shows "dhcpc_waitack b os oldaddr start q = Some (None, q\<lparr>q_c := (q_c q)\<lparr>c_packet := recv_into data (c_packet (q_c q))\<rparr>,
      q_result := r, q_state := 2, q_world := w\<rparr>)"
  by (subst dhcpc_waitack.simps)
     (simp add: dhcpc_recvack_def recv dhcpc_parsemsg_answer [OF c a] keep_waiting_def Let_def)

section \<open>The contract of a DHCP service\<close>

text \<open>
  What the client relies on. A service that is \<open>ready\<close> for a hardware address answers a DISCOVER
  with an offer and then has \<open>promised\<close> the address to it; a REQUEST for what was promised is
  acknowledged, and the address is \<open>bound\<close> with the parameters of the result.
\<close>

locale dhcp_service =
  fixes b :: dhcpc_build and os :: "'w dhcpc_os"
    and ready :: "u8 list \<Rightarrow> 'w \<Rightarrow> bool"
    and promised :: "u8 list \<Rightarrow> u32 \<Rightarrow> u32 \<Rightarrow> 'w \<Rightarrow> bool"
    and bound :: "u8 list \<Rightarrow> dhcpc_state \<Rightarrow> 'w \<Rightarrow> bool"
  assumes ready_host: "ready mac w \<Longrightarrow> length (dhcpc_hostname b os w) \<le> 200"
    and promised_host: "promised mac sid a w \<Longrightarrow> length (dhcpc_hostname b os w) \<le> 200"
    and ready_cancel: "ready mac w \<Longrightarrow> \<not> nw_cancel os w"
    and promised_cancel: "promised mac sid a w \<Longrightarrow> \<not> nw_cancel os w"
    and offer: "client_ok c \<Longrightarrow> ready (mac_of c) w \<Longrightarrow>
      \<exists>w1 start w2 data w3. nw_sendto os (wire_bytes (client_head b c) (discover_options (dhcpc_hostname b os w) c))
          INADDR_BROADCAST w = (True, w1) \<and> nw_clock os w1 = (start, w2) \<and> nw_recv os w2 = (Inl data, w3) \<and>
        (\<forall>r. \<exists>r'. answers c DHCPOFFER data r r' \<and>
           promised (mac_of c) (r_serverid r') (r_ipaddr r') (nw_set_addr os (r_ipaddr r') w3))"
    and ack: "client_ok c \<Longrightarrow> promised (mac_of c) (c_serverid c) (c_ipaddr c) w \<Longrightarrow>
      \<exists>w1 start w2 data w3. nw_sendto os (wire_bytes (client_head b c) (request_options (dhcpc_hostname b os w) c))
          INADDR_BROADCAST w = (True, w1) \<and> nw_clock os w1 = (start, w2) \<and> nw_recv os w2 = (Inl data, w3) \<and>
        (\<forall>r. \<exists>r'. answers c DHCPACK data r r' \<and> bound (mac_of c) r' w3)"
begin

lemma discover_served:
  assumes c: "client_ok (q_c q)" and q: "ready (mac_of (q_c q)) (q_world q)" "q_state q = 0"
  shows "\<exists>q'. dhcpc_discover b os left q = Some (None, q') \<and> client_ok (q_c q') \<and> q_state q' = 1 \<and>
    mac_of (q_c q') = mac_of (q_c q) \<and>
    promised (mac_of (q_c q)) (c_serverid (q_c q')) (c_ipaddr (q_c q')) (q_world q')"
proof -
  let ?c = "q_c q" and ?o = "discover_options (dhcpc_hostname b os (q_world q)) (q_c q)"
  obtain w1 start w2 data w3 where io: "nw_sendto os (wire_bytes (client_head b ?c) ?o) INADDR_BROADCAST (q_world q) = (True, w1)"
      "nw_clock os w1 = (start, w2)" "nw_recv os w2 = (Inl data, w3)"
    and ans: "\<And>r. \<exists>r'. answers ?c DHCPOFFER data r r' \<and>
        promised (mac_of ?c) (r_serverid r') (r_ipaddr r') (nw_set_addr os (r_ipaddr r') w3)"
    using offer [OF c q(1)] by blast
  obtain r' where r': "answers ?c DHCPOFFER data (q_result q) r'"
    "promised (mac_of ?c) (r_serverid r') (r_ipaddr r') (nw_set_addr os (r_ipaddr r') w3)"
    using ans by blast
  let ?p = "client_packet (client_head b ?c) ?o"
  have len: "length (enc_options ?o) < 308"
    using ready_host [OF q(1)] c by (simp add: discover_options_def mac_of_def client_ok_def)
  then have wf: "wf_msg ?p" by (rule wf_client_packet [OF wf_client_head [OF c]])
  let ?q = "q\<lparr>q_c := ?c\<lparr>c_packet := ?p\<rparr>, q_world := w2\<rparr>"
  have c1: "client_ok (q_c ?q)" using c wf by (simp add: client_ok_def)
  have a1: "answers (q_c ?q) DHCPOFFER data (q_result ?q) r'" using r'(1) by (simp add: answers_def mac_of_def)
  have send: "dhcpc_sendmsg b os (q_result q) DHCPDISCOVER ?c (q_world q) =
      Some (int (241 + length (enc_options ?o)), ?c\<lparr>c_packet := ?p\<rparr>, w1)"
    using dhcpc_sendmsg_discover [OF c ready_host [OF q(1)]] io(1) by (simp add: sent_as_def)
  have wait: "dhcpc_waitoffer b os start ?q = Some (None, ?q\<lparr>q_c := (q_c ?q)\<lparr>c_packet := recv_into data ?p,
      c_ipaddr := r_ipaddr r', c_serverid := r_serverid r'\<rparr>, q_result := r', q_state := 1,
      q_world := nw_set_addr os (r_ipaddr r') w3\<rparr>)" (is "_ = Some (None, ?q')")
    using dhcpc_waitoffer_answer [OF c1 _ a1, of os w3 b start] io(3) by simp
  have "dhcpc_discover b os left q = Some (None, ?q')"
    using ready_cancel [OF q(1)] send wait io(2) by (subst dhcpc_discover.simps) (simp add: Let_def)
  moreover have "client_ok (q_c ?q')" using c wf by (simp add: client_ok_def)
  ultimately show ?thesis using r'(2) by (intro exI [of _ ?q']) (simp add: mac_of_def)
qed

lemma confirm_served:
  assumes c: "client_ok (q_c q)" and q: "promised (mac_of (q_c q)) (c_serverid (q_c q)) (c_ipaddr (q_c q)) (q_world q)"
  shows "\<exists>q'. dhcpc_confirm b os oldaddr left q = Some (None, q') \<and> q_state q' = 2 \<and>
    bound (mac_of (q_c q)) (q_result q') (q_world q')"
proof -
  let ?c = "q_c q" and ?o = "request_options (dhcpc_hostname b os (q_world q)) (q_c q)"
  obtain w1 start w2 data w3 where io: "nw_sendto os (wire_bytes (client_head b ?c) ?o) INADDR_BROADCAST (q_world q) = (True, w1)"
      "nw_clock os w1 = (start, w2)" "nw_recv os w2 = (Inl data, w3)"
    and ans: "\<And>r. \<exists>r'. answers ?c DHCPACK data r r' \<and> bound (mac_of ?c) r' w3"
    using ack [OF c q] by blast
  obtain r' where r': "answers ?c DHCPACK data (q_result q) r'" "bound (mac_of ?c) r' w3" using ans by blast
  let ?p = "client_packet (client_head b ?c) ?o"
  have len: "length (enc_options ?o) < 308"
    using promised_host [OF q] c by (simp add: request_options_def mac_of_def client_ok_def)
  then have wf: "wf_msg ?p" by (rule wf_client_packet [OF wf_client_head [OF c]])
  let ?q = "q\<lparr>q_c := ?c\<lparr>c_packet := ?p\<rparr>, q_world := w2\<rparr>"
  have c1: "client_ok (q_c ?q)" using c wf by (simp add: client_ok_def)
  have a1: "answers (q_c ?q) DHCPACK data (q_result ?q) r'" using r'(1) by (simp add: answers_def mac_of_def)
  have send: "dhcpc_sendmsg b os (q_result q) DHCPREQUEST ?c (q_world q) =
      Some (int (241 + length (enc_options ?o)), ?c\<lparr>c_packet := ?p\<rparr>, w1)"
    using dhcpc_sendmsg_request [OF c promised_host [OF q]] io(1) by (simp add: sent_as_def)
  have wait: "dhcpc_waitack b os oldaddr start ?q = Some (None, ?q\<lparr>q_c := (q_c ?q)\<lparr>c_packet := recv_into data ?p\<rparr>,
      q_result := r', q_state := 2, q_world := w3\<rparr>)" (is "_ = Some (None, ?q')")
    using dhcpc_waitack_answer [OF c1 _ a1, of os w3 b oldaddr start] io(3) by simp
  have "dhcpc_confirm b os oldaddr left q = Some (None, ?q')"
    using promised_cancel [OF q] send wait io(2) by (subst dhcpc_confirm.simps) (simp add: Let_def)
  then show ?thesis using r'(2) by (intro exI [of _ ?q']) simp
qed

text \<open>The request of a client the service is ready for succeeds, with its address bound.\<close>

lemma request_served:
  assumes c: "client_ok c" and w: "ready (mac_of c) w"
  shows "\<exists>r c' w'. dhcpc_request b os c w = Some (RetOK, r, c', w') \<and> bound (mac_of c) r w'"
proof -
  let ?c = "c\<lparr>c_xid := (c_xid c)[3 := c_xid c ! 3 + 1]\<rparr>"
  let ?q = "\<lparr>q_c = ?c, q_result = zero_result, q_state = 0, q_world = w\<rparr>"
  have c1: "client_ok ?c" "mac_of ?c = mac_of c" using c by (simp_all add: client_ok_def mac_of_def)
  obtain q1 where q1: "dhcpc_discover b os (cc_retries b) ?q = Some (None, q1)" "client_ok (q_c q1)" "q_state q1 = 1"
    "mac_of (q_c q1) = mac_of c" "promised (mac_of c) (c_serverid (q_c q1)) (c_ipaddr (q_c q1)) (q_world q1)"
    using discover_served [of ?q "cc_retries b"] c1 w by auto
  obtain q2 where "dhcpc_confirm b os (case nw_get_addr os w of Some a \<Rightarrow> a | None \<Rightarrow> 0) (cc_retries b) q1 = Some (None, q2)"
    "q_state q2 = 2" "bound (mac_of c) (q_result q2) (q_world q2)"
    using confirm_served [OF q1(2)] q1(4,5) by auto
  then show ?thesis
    using c q1 by (simp add: dhcpc_request_def array_get_def array_put_def client_ok_def)
qed

end

end
