(* ===== verification/DhcpExchange.thy ===== *)
theory DhcpExchange
  imports DhcpSafety DhcpClient
begin

text \<open>
  The DHCP client and the DHCP server on one link. A datagram of the client is what the
  server receives, the datagrams of the server are what the client receives. The server is
  a service in the sense of the client's contract, so a request obtains an address, and the
  lease table of the server has the lease that the client believes to have.
\<close>

section \<open>The link\<close>

record dhcp_link =
  lk_server :: dhcpd
  lk_inbox :: "u8 list list"
  lk_addr :: "u32 option"
  lk_ticks :: u32

definition link_sendto :: "dhcpd_build \<Rightarrow> u8 list \<Rightarrow> u32 \<Rightarrow> dhcp_link \<Rightarrow> bool \<times> dhcp_link" where
  "link_sendto b data dest w =
     (case dhcpd_receive b data (lk_server w) of
        None \<Rightarrow> (False, w)
      | Some s \<Rightarrow> (True, w\<lparr>lk_server := s,
          lk_inbox := lk_inbox w @ map (\<lambda>(dest, port, d). d) (drop (length (dos_sent (lk_server w))) (dos_sent s))\<rparr>))"

definition link_recv :: "dhcp_link \<Rightarrow> (u8 list + nat) \<times> dhcp_link" where
  "link_recv w = (case lk_inbox w of [] \<Rightarrow> (Inr EAGAIN, w) | d # ds \<Rightarrow> (Inl d, w\<lparr>lk_inbox := ds\<rparr>))"

definition link_os :: "dhcpd_build \<Rightarrow> u8 list \<Rightarrow> dhcp_link dhcpc_os" where
  "link_os b name = \<lparr>nw_sendto = link_sendto b, nw_recv = link_recv,
     nw_clock = (\<lambda>w. (lk_ticks w, w\<lparr>lk_ticks := lk_ticks w + 1\<rparr>)),
     nw_gethostname = (\<lambda>w. Some name), nw_get_addr = lk_addr,
     nw_set_addr = (\<lambda>a w. w\<lparr>lk_addr := Some a\<rparr>), nw_cancel = (\<lambda>w. False)\<rparr>"

section \<open>The messages of the client at the server\<close>

definition with_options :: "dhcpmsg_s \<Rightarrow> dhcp_option list \<Rightarrow> dhcpd \<Rightarrow> dhcpd" where
  "with_options m opts s = fold option_store opts (options_reset
     (s\<lparr>ds_inpacket := m\<lparr>m_options := wire_options opts (ds_inpacket s)\<rparr>\<rparr>))"

lemma dhcpd_receive_wire:
  assumes s: "dhcpd_inv b s" and m: "wf_msg m" and opts: "\<forall>opt \<in> set opts. wf_option opt" "length (enc_options opts) \<le> 306"
  shows "dhcpd_receive b (wire_bytes m opts) s = dhcpd_process b (with_options m opts s)"
proof -
  have old: "wf_msg (ds_inpacket s)" using s by (simp add: dhcpd_inv_def dhcpd_ok_def)
  have len: "length (enc_options opts) \<le> 307" using opts(2) by simp
  have "dhcpd_parseoptions (s\<lparr>ds_inpacket := m\<lparr>m_options := wire_options opts (ds_inpacket s)\<rparr>\<rparr>) =
      Some (True, with_options m opts s)"
    unfolding with_options_def
    by (rule dhcpd_parseoptions_enc [where rest = "drop (5 + length (enc_options opts)) (m_options (ds_inpacket s))"])
       (use opts(1) length_wire_options [OF old len] in \<open>simp_all add: wire_options_def\<close>)
  then show ?thesis by (simp add: dhcpd_receive_def recv_wire [OF m old len])
qed

lemma safe_wire:
  assumes m: "wf_msg m" "m_sname m = replicate 64 0" "m_file m = replicate 128 0" and len: "length (enc_options opts) \<le> 306"
  shows "safe_datagram (wire_bytes m opts)"
proof -
  have hdr: "length (msg_header m) = 236" using m(1) by simp
  have "wire_bytes m opts ! k = msg_header m ! k" if "k < 236" for k
    using that hdr by (simp add: wire_bytes_def nth_append)
  moreover have "msg_header m ! 107 = 0" "msg_header m ! 235 = 0"
    using m by (simp_all add: msg_header_def nth_append wf_msg_def)
  ultimately show ?thesis using m(1) len by (simp add: safe_datagram_def)
qed

lemma fold_option_store_frame: "without_options (fold option_store opts s) = without_options s"
  by (induction opts arbitrary: s) (simp_all add: option_store_def Let_def)

lemma with_options_frame:
  "ds_inpacket (with_options m opts s) = m\<lparr>m_options := wire_options opts (ds_inpacket s)\<rparr>"
  "ds_serverip (with_options m opts s) = ds_serverip s" "ds_leases (with_options m opts s) = ds_leases s"
  "g_config (with_options m opts s) = g_config s" "dos_clock (with_options m opts s) = dos_clock s"
  "dos_ticks (with_options m opts s) = dos_ticks s" "dos_sendto (with_options m opts s) = dos_sendto s"
  "dos_sends (with_options m opts s) = dos_sends s" "dos_sent (with_options m opts s) = dos_sent s"
proof -
  have "without_options (with_options m opts s) =
      without_options (s\<lparr>ds_inpacket := m\<lparr>m_options := wire_options opts (ds_inpacket s)\<rparr>, ds_optend := None\<rparr>)"
    unfolding with_options_def fold_option_store_frame by (simp add: options_reset_def without_options_def)
  note f = without_options_simps [OF this]
  show "ds_inpacket (with_options m opts s) = m\<lparr>m_options := wire_options opts (ds_inpacket s)\<rparr>"
    "ds_serverip (with_options m opts s) = ds_serverip s" "ds_leases (with_options m opts s) = ds_leases s"
    "g_config (with_options m opts s) = g_config s" "dos_clock (with_options m opts s) = dos_clock s"
    "dos_ticks (with_options m opts s) = dos_ticks s" "dos_sendto (with_options m opts s) = dos_sendto s"
    "dos_sends (with_options m opts s) = dos_sends s" "dos_sent (with_options m opts s) = dos_sent s"
    using f by simp_all
qed

text \<open>The options the server finds in the two messages.\<close>

lemma discover_options_found:
  "ds_optmsgtype (with_options m (discover_options host c) s) = DHCPDISCOVER"
  "ds_optleasetime (with_options m (discover_options host c) s) = 0"
  by (simp_all add: with_options_def discover_options_def option_store_def options_reset_def Let_def)

lemma request_options_found:
  "ds_optmsgtype (with_options m (request_options host c) s) = DHCPREQUEST"
  "ds_optserverip (with_options m (request_options host c) s) = ntohl (c_serverid c)"
  "ds_optreqip (with_options m (request_options host c) s) = ntohl (c_ipaddr c)"
  "ds_optleasetime (with_options m (request_options host c) s) = 0"
  by (simp_all add: with_options_def request_options_def option_store_def options_reset_def Let_def)

lemma wf_client_options:
  assumes "client_ok c" "length host \<le> 200"
  shows "\<forall>opt \<in> set (discover_options host c). wf_option opt" "\<forall>opt \<in> set (request_options host c). wf_option opt"
    "length (enc_options (discover_options host c)) \<le> 306" "length (enc_options (request_options host c)) \<le> 306"
  using assms by (auto simp: discover_options_def request_options_def wf_option_def mac_of_def client_ok_def)

lemma client_head_parts:
  "m_sname (client_head cb c) = replicate 64 0" "m_file (client_head cb c) = replicate 128 0"
  "m_xid (client_head cb c) = c_xid c"
  "m_chaddr (client_head cb c) = mac_of c @ replicate (16 - c_maclen c) 0"
  by (simp_all add: client_head_def zero_msg_def msg_of_bytes_def)

section \<open>The replies of the server at the client\<close>

lemma sized_reply_options:
  "\<forall>opt \<in> set (base_options mt s @ net_options lt c). sized_option opt"
  by (auto simp: base_options_def net_options_def addr_option_def sized_option_def split: option.splits)

text \<open>The result of an offer or an acknowledgement.\<close>

definition net_result :: "u32 \<Rightarrow> dhcpd_config_s \<Rightarrow> dhcpc_state \<Rightarrow> dhcpc_state" where
  "net_result lt c r = r\<lparr>r_lease_time := lt,
     r_netmask := (case ds_netmask c of Some a \<Rightarrow> htonl a | None \<Rightarrow> r_netmask r),
     r_default_router := (case ds_routerip c of Some a \<Rightarrow> htonl a | None \<Rightarrow> r_default_router r),
     r_dnsaddr := (case ds_dnsip c of Some a \<Rightarrow> htonl a | None \<Rightarrow> r_dnsaddr r)\<rparr>"

lemma fold_reply_options:
  "fold result_store (base_options mt s @ net_options lt c) (0, r) =
   (mt, net_result lt c (r\<lparr>r_serverid := ds_serverip s\<rparr>))"
  by (simp add: base_options_def net_options_def addr_option_def result_store_def net_result_def Let_def
      del: mem32_htonl split: option.split)

lemma answers_reply:
  assumes c: "client_ok c" and s: "wf_msg (ds_inpacket s)" and x: "m_xid (ds_inpacket s) = c_xid c"
    "take (c_maclen c) (m_chaddr (ds_inpacket s)) = mac_of c"
    and m: "m = offer_msg a s \<or> m = ack_msg a s"
  shows "answers c mt (wire_bytes m (base_options mt s @ net_options lt cfg)) r
    (net_result lt cfg (r\<lparr>r_ipaddr := htonl a, r_serverid := ds_serverip s\<rparr>))"
proof -
  have "wf_msg m" using m wf_reply_msg [OF s] by auto
  moreover have "length (enc_options (base_options mt s @ net_options lt cfg)) \<le> 307"
    using length_base_options [of mt s] length_net_options [of lt cfg] by simp
  moreover have "m_op m = DHCP_REPLY" "m_xid m = c_xid c" "take (c_maclen c) (m_chaddr m) = mac_of c"
    "of_mem32 (m_yiaddr m) = htonl a"
    using m x by (auto simp: offer_msg_def ack_msg_def reply_head_def simp del: mem32_htonl)
  ultimately show ?thesis
    using sized_reply_options fold_reply_options [of mt s lt cfg "r\<lparr>r_ipaddr := htonl a\<rparr>"]
    unfolding answers_def by (intro exI [of _ m] exI [of _ "base_options mt s @ net_options lt cfg"]) simp
qed

section \<open>The server as a service\<close>

text \<open>A server that is up: its invariant holds, it has an address, and the system sends what it is given.\<close>

definition server_up :: "dhcpd_build \<Rightarrow> dhcpd \<Rightarrow> bool" where
  "server_up b s \<longleftrightarrow> dhcpd_inv b s \<and> ds_serverip s \<noteq> 0 \<and> (\<forall>k. dos_sendto s k)"

definition client_id :: "u8 list \<Rightarrow> bool" where
  "client_id mac \<longleftrightarrow> length mac = 6 \<and> mac \<noteq> no_mac"

text \<open>The client has a lease, or there is a usable address without one or with one that has expired for good.\<close>

definition address_available :: "dhcpd_build \<Rightarrow> u8 list \<Rightarrow> dhcpd \<Rightarrow> bool" where
  "address_available b mac s \<longleftrightarrow>
     (\<exists>i < cf_maxleases b. lease_mac (lease_at s i) = mac \<or>
        usable (addr_of (g_config s) i) \<and>
        (\<not> lease_allocated (lease_at s i) \<or> (\<forall>k \<ge> dos_ticks s. lease_expiry (lease_at s i) \<le> reading s k)))"

definition link_ready :: "dhcpd_build \<Rightarrow> dhcpc_build \<Rightarrow> u8 list \<Rightarrow> u8 list \<Rightarrow> dhcp_link \<Rightarrow> bool" where
  "link_ready b cb name mac w \<longleftrightarrow> server_up b (lk_server w) \<and> lk_inbox w = [] \<and> client_id mac \<and>
     length (dhcpc_hostname cb (link_os b name) w) \<le> 200 \<and> address_available b mac (lk_server w)"

definition link_promised :: "dhcpd_build \<Rightarrow> dhcpc_build \<Rightarrow> u8 list \<Rightarrow> u8 list \<Rightarrow> u32 \<Rightarrow> u32 \<Rightarrow> dhcp_link \<Rightarrow> bool" where
  "link_promised b cb name mac sid a w \<longleftrightarrow> server_up b (lk_server w) \<and> lk_inbox w = [] \<and> client_id mac \<and>
     length (dhcpc_hostname cb (link_os b name) w) \<le> 200 \<and> sid = ds_serverip (lk_server w) \<and>
     (\<exists>i < cf_maxleases b. a = htonl (addr_of (g_config (lk_server w)) i) \<and> lease_mac (lease_at (lk_server w) i) = mac)"

text \<open>The lease of the client in the table of the server, and the parameters the client got.\<close>

definition link_bound :: "dhcpd_build \<Rightarrow> u8 list \<Rightarrow> dhcpc_state \<Rightarrow> dhcp_link \<Rightarrow> bool" where
  "link_bound b mac r w \<longleftrightarrow>
     (let s = lk_server w; c = g_config s in
      dhcpd_inv b s \<and>
      (\<exists>i k. k < dos_ticks s \<and> i < cf_maxleases b \<and> lease_held s i mac (reading s k + r_lease_time r) \<and>
         r_ipaddr r = htonl (addr_of c i)) \<and>
      r_lease_time r = cf_leasetime b \<and> r_serverid r = ds_serverip s \<and>
      (\<forall>a. ds_netmask c = Some a \<longrightarrow> r_netmask r = htonl a) \<and>
      (\<forall>a. ds_routerip c = Some a \<longrightarrow> r_default_router r = htonl a) \<and>
      (\<forall>a. ds_dnsip c = Some a \<longrightarrow> r_dnsaddr r = htonl a))"

lemma available_not_exhausted:
  assumes ok: "dhcpd_ok b s" and a: "address_available b (take 6 (m_chaddr (ds_inpacket s))) s"
  shows "\<not> pool_exhausted b s t"
proof
  assume ex: "pool_exhausted b s t"
  obtain i where i: "i < cf_maxleases b" and c: "lease_mac (lease_at s i) = take 6 (m_chaddr (ds_inpacket s)) \<or>
      usable (addr_of (g_config s) i) \<and>
      (\<not> lease_allocated (lease_at s i) \<or> (\<forall>k \<ge> dos_ticks s. lease_expiry (lease_at s i) \<le> reading s k))"
    using a unfolding address_available_def by blast
  have "lease_mac (lease_at s i) \<noteq> take 6 (m_chaddr (ds_inpacket s))"
    using ex i dhcpd_findbymac_None unfolding pool_exhausted_def by blast
  with c have u: "usable (addr_of (g_config s) i)" and
    f: "\<not> lease_allocated (lease_at s i) \<or> (\<forall>k \<ge> dos_ticks s. lease_expiry (lease_at s i) \<le> reading s k)" by auto
  have "in_pool (g_config s) (addr_of (g_config s) i)" "slot_of (g_config s) (addr_of (g_config s) i) = i"
    using in_pool_addr_of slot_of_addr_of dhcpd_okD(1) [OF ok] i by blast+
  then show False using ex u f unfolding pool_exhausted_def by (metis leD)
qed

text \<open>The state in which the server handles a message of the client.\<close>

lemma with_client_options:
  assumes up: "dhcpd_inv b s" and c: "client_ok c" "client_id (mac_of c)" and opts: "length (enc_options opts) \<le> 306"
  shows "dhcpd_ok b (with_options (client_head cb c) opts s)"
    "take 6 (m_chaddr (ds_inpacket (with_options (client_head cb c) opts s))) = mac_of c"
    "take (c_maclen c) (m_chaddr (ds_inpacket (with_options (client_head cb c) opts s))) = mac_of c"
    "m_xid (ds_inpacket (with_options (client_head cb c) opts s)) = c_xid c"
proof -
  have "wf_msg (ds_inpacket s)" using up by (simp add: dhcpd_inv_def dhcpd_ok_def)
  then have "wf_msg ((client_head cb c)\<lparr>m_options := wire_options opts (ds_inpacket s)\<rparr>)"
    using wf_client_head [OF c(1), of cb] length_wire_options [of "ds_inpacket s" opts] opts by (simp add: wf_msg_def)
  then show "dhcpd_ok b (with_options (client_head cb c) opts s)"
    using up by (simp add: dhcpd_inv_def dhcpd_ok_def with_options_frame)
  have "length (mac_of c) = 6" "c_maclen c = 6" using c length_mac_of [OF c(1)] by (simp_all add: client_id_def)
  then show "take 6 (m_chaddr (ds_inpacket (with_options (client_head cb c) opts s))) = mac_of c"
    "take (c_maclen c) (m_chaddr (ds_inpacket (with_options (client_head cb c) opts s))) = mac_of c"
    "m_xid (ds_inpacket (with_options (client_head cb c) opts s)) = c_xid c"
    by (simp_all add: with_options_frame client_head_parts)
qed

lemma server_up_receive:
  assumes up: "server_up b s" and m: "wf_msg m" "m_sname m = replicate 64 0" "m_file m = replicate 128 0"
    and len: "length (enc_options opts) \<le> 306"
    and r: "dhcpd_receive b (wire_bytes m opts) s = Some s'"
  shows "server_up b s'" "ds_serverip s' = ds_serverip s" "g_config s' = g_config s"
proof -
  have "dhcpd_inv b s" using up by (simp add: server_up_def)
  then obtain s1 where "dhcpd_receive b (wire_bytes m opts) s = Some s1" "dhcpd_inv b s1"
    "dhcpd_step b (received (wire_bytes m opts) s) s1"
    using dhcpd_inv_receive [OF _ safe_wire [OF m len]] by blast
  then show "server_up b s'" "ds_serverip s' = ds_serverip s" "g_config s' = g_config s"
    using up r by (auto simp: server_up_def dhcpd_step_def same_server_def received_def)
qed

lemma server_offers:
  assumes up: "server_up b s" and c: "client_ok c" "client_id (mac_of c)" and host: "length host \<le> 200"
    and av: "address_available b (mac_of c) s"
  shows "\<exists>s' dest i lt. dhcpd_receive b (wire_bytes (client_head cb c) (discover_options host c)) s = Some s' \<and>
    server_up b s' \<and> ds_serverip s' = ds_serverip s \<and> g_config s' = g_config s \<and> i < cf_maxleases b \<and>
    lease_mac (lease_at s' i) = mac_of c \<and>
    dos_sent s' = dos_sent s @ [(dest, htons 68,
      wire_bytes (offer_msg (addr_of (g_config s) i) (with_options (client_head cb c) (discover_options host c) s))
        (base_options DHCPOFFER s @ net_options lt (g_config s)))]"
proof -
  let ?m = "client_head cb c" and ?o = "discover_options host c"
  let ?s = "with_options ?m ?o s"
  have inv: "dhcpd_inv b s" using up by (simp add: server_up_def)
  note opts = wf_client_options [OF c(1) host] and wf = wf_client_head [OF c(1), of cb]
  note st = with_client_options [OF inv c opts(3), of cb]
  have r: "dhcpd_receive b (wire_bytes ?m ?o) s = dhcpd_process b ?s"
    by (rule dhcpd_receive_wire [OF inv wf opts(1,3)])
  have "reading ?s = reading s" by (simp add: fun_eq_iff reading_def with_options_frame)
  then have "address_available b (take 6 (m_chaddr (ds_inpacket ?s))) ?s"
    using av st(2) by (simp add: address_available_def with_options_frame)
  then have ne: "\<not> pool_exhausted b ?s t" for t by (rule available_not_exhausted [OF st(1)])
  obtain i t lt ret where d: "dhcpd_discover b ?s = Some (ret, offered b ?s t i lt)" "offer_slot b ?s t i"
    by (rule dhcpd_discover_cases [OF st(1)]) (use ne in blast)+
  have i: "i < cf_maxleases b" "i < length (ds_leases ?s)"
    using d(2) dhcpd_okD(2) [OF st(1)] by (simp_all add: offer_slot_def)
  have r': "dhcpd_receive b (wire_bytes ?m ?o) s = Some (offered b ?s t i lt)"
    using d(1) by (simp add: r dhcpd_process_def discover_options_found)
  note up' = server_up_receive [OF up wf client_head_parts(1,2) opts(3) r']
  have send: "dos_sendto ?s k" for k using up by (simp add: server_up_def with_options_frame)
  have base: "base_options DHCPOFFER ?s = base_options DHCPOFFER s" by (simp add: base_options_def with_options_frame)
  have "lease_mac (lease_at (offered b ?s t i lt) i) = mac_of c"
    using i(2) st(2) by (simp add: offered_def)
  then show ?thesis
    using r' up' i(1) send
    by (intro exI [of _ "offered b ?s t i lt"]
        exI [of _ "fst (reply_route b (cf_ignorebroadcast b) (offer_msg (addr_of (g_config s) i) ?s))"] exI [of _ i]
        exI [of _ "granted_time b ?s lt"])
       (simp add: offered_def offer_options_def reply_sent_dos_sent with_options_frame base)
qed

lemma server_acknowledges:
  assumes up: "server_up b s" and c: "client_ok c" "client_id (mac_of c)" and host: "length host \<le> 200"
    and i: "i < cf_maxleases b" "lease_mac (lease_at s i) = mac_of c"
    and req: "c_serverid c = ds_serverip s" "c_ipaddr c = htonl (addr_of (g_config s) i)"
  shows "\<exists>s' dest. dhcpd_receive b (wire_bytes (client_head cb c) (request_options host c)) s = Some s' \<and>
    server_up b s' \<and> ds_serverip s' = ds_serverip s \<and> g_config s' = g_config s \<and>
    (\<exists>k < dos_ticks s'. lease_held s' i (mac_of c) (reading s' k + cf_leasetime b)) \<and>
    dos_sent s' = dos_sent s @ [(dest, htons 68,
      wire_bytes (ack_msg (addr_of (g_config s) i) (with_options (client_head cb c) (request_options host c) s))
        (base_options DHCPACK s @ net_options (cf_leasetime b) (g_config s)))]"
proof -
  let ?m = "client_head cb c" and ?o = "request_options host c"
  let ?s = "with_options ?m ?o s"
  have inv: "dhcpd_inv b s" using up by (simp add: server_up_def)
  note opts = wf_client_options [OF c(1) host] and wf = wf_client_head [OF c(1), of cb]
  note st = with_client_options [OF inv c opts(4), of cb]
  have r: "dhcpd_receive b (wire_bytes ?m ?o) s = dhcpd_process b ?s"
    by (rule dhcpd_receive_wire [OF inv wf opts(2,4)])
  have find: "dhcpd_findbymac b (m_chaddr (ds_inpacket ?s)) ?s = Some i"
    by (rule dhcpd_findbymac_holder [OF st(1) i(1)])
       (use i(2) st(2) c(2) in \<open>simp_all add: with_options_frame client_id_def\<close>)
  have a: "addr_of (g_config s) i \<noteq> 0"
    using in_pool_nonzero in_pool_addr_of [OF _ i(1)] dhcpd_okD(1) [OF st(1)] by (simp add: with_options_frame)
  have resp: "dhcpd_request_response b ?s = Some (DHCPACK, addr_of (g_config ?s) i, ?s)"
    using find req up a
    by (simp add: dhcpd_request_response_def dhcp_leaseipaddr_eq request_options_found with_options_frame server_up_def Let_def)
  have send: "dos_sendto ?s k" for k using up by (simp add: server_up_def with_options_frame)
  have r': "dhcpd_receive b (wire_bytes ?m ?o) s = Some (acked b ?s i)"
    using resp dhcpd_sendack_slot [OF st(1) i(1)] send
    by (simp add: r dhcpd_process_def dhcpd_request_def request_options_found)
  note up' = server_up_receive [OF up wf client_head_parts(1,2) opts(4) r']
  have lt: "granted_time b ?s (cf_leasetime b) = cf_leasetime b"
    by (simp add: granted_time_def dhcpd_verifyreqleasetime_def request_options_found)
  have "i < length (ds_leases s)" using i(1) inv by (simp add: dhcpd_inv_def dhcpd_ok_def)
  then have "lease_held (acked b ?s i) i (mac_of c) (reading (acked b ?s i) (dos_ticks s) + cf_leasetime b)"
    using st(2) lt by (simp add: lease_held_def acked_def ack_sent_def with_options_frame reading_def)
  moreover have "dos_ticks s < dos_ticks (acked b ?s i)" by (simp add: acked_def with_options_frame)
  moreover have "base_options DHCPACK ?s = base_options DHCPACK s" by (simp add: base_options_def with_options_frame)
  ultimately show ?thesis
    using r' up' send lt
    by (intro exI [of _ "acked b ?s i"]
        exI [of _ "fst (reply_route b (cf_ignorebroadcast b) (ack_msg (addr_of (g_config s) i) ?s))"])
       (auto simp: acked_def ack_sent_def ack_options_def reply_sent_dos_sent with_options_frame)
qed

lemma link_sendto_reply:
  assumes "dhcpd_receive b data (lk_server w) = Some s'" "dos_sent s' = dos_sent (lk_server w) @ [(dest', port, d)]"
    "lk_inbox w = []"
  shows "nw_sendto (link_os b name) data dest w = (True, w\<lparr>lk_server := s', lk_inbox := [d]\<rparr>)"
  using assms by (simp add: link_os_def link_sendto_def)

lemma link_os_simps [simp]:
  "nw_clock (link_os b name) w = (lk_ticks w, w\<lparr>lk_ticks := lk_ticks w + 1\<rparr>)"
  "nw_set_addr (link_os b name) a w = w\<lparr>lk_addr := Some a\<rparr>" "\<not> nw_cancel (link_os b name) w"
  "nw_recv (link_os b name) = link_recv"
  by (simp_all add: link_os_def)

lemma link_hostname: "dhcpc_hostname cb (link_os b name) w = dhcpc_hostname cb (link_os b name) w'"
  by (simp add: dhcpc_hostname_def link_os_def)

lemma net_result_simps [simp]:
  "r_serverid (net_result lt c r) = r_serverid r" "r_ipaddr (net_result lt c r) = r_ipaddr r"
  "r_lease_time (net_result lt c r) = lt"
  by (simp_all add: net_result_def)

lemma link_offer:
  assumes c: "client_ok c" and w: "link_ready b cb name (mac_of c) w"
  shows "\<exists>w1 start w2 data w3. nw_sendto (link_os b name)
      (wire_bytes (client_head cb c) (discover_options (dhcpc_hostname cb (link_os b name) w) c)) INADDR_BROADCAST w = (True, w1) \<and>
    nw_clock (link_os b name) w1 = (start, w2) \<and> nw_recv (link_os b name) w2 = (Inl data, w3) \<and>
    (\<forall>r. \<exists>r'. answers c DHCPOFFER data r r' \<and> link_promised b cb name (mac_of c) (r_serverid r') (r_ipaddr r')
       (nw_set_addr (link_os b name) (r_ipaddr r') w3))"
proof -
  let ?s = "lk_server w" and ?host = "dhcpc_hostname cb (link_os b name) w"
  have up: "server_up b ?s" "lk_inbox w = []" "client_id (mac_of c)" "length ?host \<le> 200"
    "address_available b (mac_of c) ?s"
    using w by (simp_all add: link_ready_def)
  let ?m = "client_head cb c" and ?o = "discover_options ?host c"
  obtain s' dest i lt where s': "dhcpd_receive b (wire_bytes ?m ?o) ?s = Some s'" "server_up b s'"
    "ds_serverip s' = ds_serverip ?s" "g_config s' = g_config ?s" "i < cf_maxleases b" "lease_mac (lease_at s' i) = mac_of c"
    and sent: "dos_sent s' = dos_sent ?s @ [(dest, htons 68, wire_bytes (offer_msg (addr_of (g_config ?s) i) (with_options ?m ?o ?s))
        (base_options DHCPOFFER ?s @ net_options lt (g_config ?s)))]"
    using server_offers [OF up(1) c up(3,4,5), of cb] by blast
  let ?d = "wire_bytes (offer_msg (addr_of (g_config ?s) i) (with_options ?m ?o ?s))
        (base_options DHCPOFFER ?s @ net_options lt (g_config ?s))"
  note send = link_sendto_reply [OF s'(1) sent up(2), of name INADDR_BROADCAST]
  have inv: "dhcpd_inv b ?s" using up(1) by (simp add: server_up_def)
  note st = with_client_options [OF inv c up(3) wf_client_options(3) [OF c up(4)], of cb]
  have base: "base_options DHCPOFFER (with_options ?m ?o ?s) = base_options DHCPOFFER ?s"
    by (simp add: base_options_def with_options_frame)
  have ans: "answers c DHCPOFFER ?d r
      (net_result lt (g_config ?s) (r\<lparr>r_ipaddr := htonl (addr_of (g_config ?s) i), r_serverid := ds_serverip ?s\<rparr>))" for r
    using answers_reply [OF c dhcpd_okD(4) [OF st(1)] st(4,3) disjI1 [OF refl], where a = "addr_of (g_config ?s) i" and
        mt = DHCPOFFER and lt = lt and cfg = "g_config ?s" and r = r]
    by (simp add: base with_options_frame)
  have "link_promised b cb name (mac_of c) (ds_serverip ?s) (htonl (addr_of (g_config ?s) i)) w3"
    if "lk_server w3 = s'" "lk_inbox w3 = []" for w3
    unfolding link_promised_def using s' up(3,4) that link_hostname [of cb b name w3 w] by auto
  then show ?thesis
    unfolding send link_os_simps using ans
    by (auto simp: link_recv_def simp del: mem32_htonl intro!: exI)
qed

lemma link_ack:
  assumes c: "client_ok c" and w: "link_promised b cb name (mac_of c) (c_serverid c) (c_ipaddr c) w"
  shows "\<exists>w1 start w2 data w3. nw_sendto (link_os b name)
      (wire_bytes (client_head cb c) (request_options (dhcpc_hostname cb (link_os b name) w) c)) INADDR_BROADCAST w = (True, w1) \<and>
    nw_clock (link_os b name) w1 = (start, w2) \<and> nw_recv (link_os b name) w2 = (Inl data, w3) \<and>
    (\<forall>r. \<exists>r'. answers c DHCPACK data r r' \<and> link_bound b (mac_of c) r' w3)"
proof -
  let ?s = "lk_server w" and ?host = "dhcpc_hostname cb (link_os b name) w"
  have up: "server_up b ?s" "lk_inbox w = []" "client_id (mac_of c)" "length ?host \<le> 200" "c_serverid c = ds_serverip ?s"
    using w by (simp_all add: link_promised_def)
  obtain i where i: "i < cf_maxleases b" "lease_mac (lease_at ?s i) = mac_of c" "c_ipaddr c = htonl (addr_of (g_config ?s) i)"
    using w by (auto simp: link_promised_def)
  let ?m = "client_head cb c" and ?o = "request_options ?host c"
  obtain s' dest where s': "dhcpd_receive b (wire_bytes ?m ?o) ?s = Some s'" "server_up b s'"
    "ds_serverip s' = ds_serverip ?s" "g_config s' = g_config ?s"
    "\<exists>k < dos_ticks s'. lease_held s' i (mac_of c) (reading s' k + cf_leasetime b)"
    and sent: "dos_sent s' = dos_sent ?s @ [(dest, htons 68, wire_bytes (ack_msg (addr_of (g_config ?s) i) (with_options ?m ?o ?s))
        (base_options DHCPACK ?s @ net_options (cf_leasetime b) (g_config ?s)))]"
    using server_acknowledges [OF up(1) c up(3,4) i(1,2) up(5) i(3), of cb] by blast
  let ?d = "wire_bytes (ack_msg (addr_of (g_config ?s) i) (with_options ?m ?o ?s))
        (base_options DHCPACK ?s @ net_options (cf_leasetime b) (g_config ?s))"
  note send = link_sendto_reply [OF s'(1) sent up(2), of name INADDR_BROADCAST]
  have inv: "dhcpd_inv b ?s" "dhcpd_inv b s'" using up(1) s'(2) by (simp_all add: server_up_def)
  note st = with_client_options [OF inv(1) c up(3) wf_client_options(4) [OF c up(4)], of cb]
  have base: "base_options DHCPACK (with_options ?m ?o ?s) = base_options DHCPACK ?s"
    by (simp add: base_options_def with_options_frame)
  let ?r = "\<lambda>r. net_result (cf_leasetime b) (g_config ?s) (r\<lparr>r_ipaddr := htonl (addr_of (g_config ?s) i), r_serverid := ds_serverip ?s\<rparr>)"
  have ans: "answers c DHCPACK ?d r (?r r)" for r
    using answers_reply [OF c dhcpd_okD(4) [OF st(1)] st(4,3) disjI2 [OF refl], where a = "addr_of (g_config ?s) i" and
        mt = DHCPACK and lt = "cf_leasetime b" and cfg = "g_config ?s" and r = r]
    by (simp add: base with_options_frame)
  have bound: "link_bound b (mac_of c) (?r r) w3" if "lk_server w3 = s'" for w3 r
    unfolding link_bound_def Let_def that
    using inv(2) s'(3,4,5) i(1) by (auto simp: net_result_def)
  show ?thesis
    unfolding send link_os_simps using ans bound
    by (auto simp: link_recv_def simp del: mem32_htonl intro!: exI)
qed

interpretation link: dhcp_service cb "link_os b name" "link_ready b cb name" "link_promised b cb name" "link_bound b"
  for b cb name
  by unfold_locales (assumption | rule link_offer link_ack | simp add: link_ready_def link_promised_def)+

section \<open>A request obtains a lease\<close>

text \<open>
  C3: A client asks a server that has an address for it. The request returns OK; the lease
  table of the server has, at the slot of the address the client was given, a lease of the
  client that expires the lease time after a reading of the clock, the lease time the client
  was told is the configured one, and mask, router and name server are the server's.
\<close>

theorem dhcp_handshake:
  assumes "client_ok c" "link_ready b cb name (mac_of c) w"
  shows "\<exists>r c' w'. dhcpc_request cb (link_os b name) c w = Some (RetOK, r, c', w') \<and> link_bound b (mac_of c) r w'"
  by (rule link.request_served [OF assms])

definition ex_build :: dhcpd_build where
  "ex_build = \<lparr>cf_maxleases = 6, cf_leasetime = 864000, cf_minleasetime = 86400, cf_maxleasetime = 2592000,
     cf_offertime = 3600, cf_declinetime = 3600, cf_ignorebroadcast = True\<rparr>"

definition ex_config :: dhcpd_config_s where
  "ex_config = \<lparr>ds_startip = 0x0a000002, ds_endip = 0x0a000007, ds_routerip = Some 0x0a000001,
     ds_netmask = Some 0xffffff00, ds_dnsip = Some 0x08080808\<rparr>"

definition ex_server :: dhcpd where
  "ex_server = dhcpd_listening ex_build 0x0100000a ex_config (\<lambda>k. Some (1000 + of_nat k)) (\<lambda>k. True)"

definition ex_client_build :: dhcpc_build where
  "ex_client_build = \<lparr>cc_hostname = [110, 117, 116, 116, 120], cc_bootp_flags = 0, cc_recv_timeout = 3000, cc_retries = 3,
     cc_tick2msec = (\<lambda>t. 10 * unat t), cc_host_name_max = 32\<rparr>"

definition ex_client :: dhcpc_state_s where
  "ex_client = \<lparr>c_xid = [1, 2, 3, 4], c_ipaddr = 0, c_serverid = 0, c_packet = zero_msg, c_maclen = 6,
     c_macaddr = [2, 0, 0, 0, 0, 7]\<rparr>"

definition ex_link :: dhcp_link where
  "ex_link = \<lparr>lk_server = ex_server, lk_inbox = [], lk_addr = None, lk_ticks = 0\<rparr>"

lemma ex_pool: "pool_ok ex_build ex_config"
  by (simp add: pool_ok_def ex_build_def ex_config_def)

lemma ex_server_inv: "dhcpd_inv ex_build ex_server"
  unfolding ex_server_def by (rule dhcpd_inv_listening [OF ex_pool])

lemma ex_client_ok: "client_ok ex_client" "mac_of ex_client = [2, 0, 0, 0, 0, 7]"
  by (simp_all add: client_ok_def ex_client_def mac_of_def)

lemma ex_link_ready: "link_ready ex_build ex_client_build [] (mac_of ex_client) ex_link"
proof -
  have "usable (addr_of ex_config 0)" by (simp add: usable_def addr_of_def ex_config_def)
  moreover have "\<not> lease_allocated (lease_at ex_server 0)"
    by (simp add: ex_server_def dhcpd_listening_def ex_build_def zero_lease_def)
  moreover have "g_config ex_server = ex_config" "ds_serverip ex_server \<noteq> 0" "\<forall>k. dos_sendto ex_server k"
    "0 < cf_maxleases ex_build"
    by (simp_all add: ex_server_def dhcpd_listening_def ex_build_def)
  ultimately have "address_available ex_build (mac_of ex_client) ex_server" "server_up ex_build ex_server"
    using ex_server_inv unfolding address_available_def server_up_def by auto
  then show ?thesis
    using ex_client_ok(2)
    by (simp add: link_ready_def ex_link_def client_id_def dhcpc_hostname_def link_os_def ex_client_build_def eval_nat_numeral)
qed

theorem dhcp_handshake_witness:
  "client_ok ex_client \<and> link_ready ex_build ex_client_build [] (mac_of ex_client) ex_link \<and>
   (\<exists>r c' w'. dhcpc_request ex_client_build (link_os ex_build []) ex_client ex_link = Some (RetOK, r, c', w') \<and>
      link_bound ex_build (mac_of ex_client) r w')"
  using dhcp_handshake [OF ex_client_ok(1) ex_link_ready] ex_client_ok(1) ex_link_ready by blast

section \<open>The server\<close>

text \<open>
  C5: The server answers whatever arrives. From the start on, over every sequence of datagrams
  whose options fields do not end in an option code, the server never leaves its arrays and
  its invariant holds: every client has at most one lease, and only allocated slots have clients.
\<close>

theorem dhcpd_serves:
  assumes "pool_ok b c" "\<forall>d \<in> set ds. safe_datagram d"
  shows "\<exists>s. dhcpd_receives b ds (dhcpd_listening b serverip c clock sendto) = Some s \<and> dhcpd_inv b s"
  by (rule dhcpd_inv_receives [OF dhcpd_inv_listening [OF assms(1)] assms(2)])

definition ex_discover :: "u8 list" where
  "ex_discover = wire_bytes (client_head ex_client_build (ex_client\<lparr>c_macaddr := [2, 0, 0, 0, 0, 8]\<rparr>))
     (discover_options [110] (ex_client\<lparr>c_macaddr := [2, 0, 0, 0, 0, 8]\<rparr>))"

lemma ex_discover_ok: "safe_datagram ex_discover" "34 \<le> length ex_discover" "take 6 (drop 28 ex_discover) = [2, 0, 0, 0, 0, 8]"
proof -
  let ?c = "ex_client\<lparr>c_macaddr := [2, 0, 0, 0, 0, 8]\<rparr>"
  have c: "client_ok ?c" by (simp add: client_ok_def ex_client_def)
  note wf = wf_client_head [OF c, of ex_client_build]
  have "length (enc_options (discover_options [110] ?c)) \<le> 306" by (rule wf_client_options(3) [OF c]) simp
  then show "safe_datagram ex_discover"
    unfolding ex_discover_def by (rule safe_wire [OF wf client_head_parts(1,2)])
  show "34 \<le> length ex_discover" unfolding ex_discover_def using wf by simp
  have "m_ciaddr zero_msg = replicate 4 0" "m_yiaddr zero_msg = replicate 4 0" "m_siaddr zero_msg = replicate 4 0"
    "m_giaddr zero_msg = replicate 4 0"
    by (simp_all add: zero_msg_def msg_of_bytes_def)
  then show "take 6 (drop 28 ex_discover) = [2, 0, 0, 0, 0, 8]"
    by (simp add: ex_discover_def wire_bytes_def msg_header_def client_head_def mac_of_def ex_client_def)
qed

theorem dhcpd_serves_witness:
  "pool_ok ex_build ex_config \<and> safe_datagram ex_discover \<and> safe_datagram [] \<and>
   (\<exists>s. dhcpd_receives ex_build [ex_discover, [], ex_discover] (dhcpd_listening ex_build 0x0100000a ex_config (\<lambda>k. None) (\<lambda>k. True)) =
      Some s \<and> dhcpd_inv ex_build s)"
proof -
  have "\<forall>d \<in> set [ex_discover, [], ex_discover]. safe_datagram d" using ex_discover_ok(1) by (simp add: safe_datagram_def)
  then show ?thesis using dhcpd_serves [OF ex_pool] ex_pool by fastforce
qed

text \<open>
  C4: Leases are exclusive. While the readings of the clock are below the expiry of a lease,
  no sequence of datagrams from other clients changes it, and no offer or acknowledgement
  the server sends meanwhile carries its address.
\<close>

theorem lease_exclusive:
  assumes "dhcpd_inv b s" "lease_held s i m e" "m \<noteq> replicate 6 0" "\<forall>d \<in> set ds. from_other m d"
    "dhcpd_receives b ds s = Some s'" "\<forall>k. dos_ticks s \<le> k \<and> k < dos_ticks s' \<longrightarrow> reading s k < e"
  shows "lease_held s' i m e \<and> (\<exists>sent. dos_sent s' = dos_sent s @ sent \<and>
    mem32 (htonl (addr_of (g_config s) i)) \<notin> (\<lambda>(dest, port, data). yiaddr_of data) ` set sent)"
  using lease_held_receives [OF assms] by fastforce

definition ex_leased :: dhcpd where
  "ex_leased = (dhcpd_listening ex_build 0x0100000a ex_config (\<lambda>k. Some 1000) (\<lambda>k. True))\<lparr>ds_leases :=
     \<lparr>lease_mac = [2, 0, 0, 0, 0, 7], lease_allocated = True, lease_expiry = 5000\<rparr> # replicate 5 zero_lease\<rparr>"

lemma ex_leased_inv: "dhcpd_inv ex_build ex_leased"
proof -
  let ?l = "\<lparr>lease_mac = [2, 0, 0, 0, 0, 7], lease_allocated = True, lease_expiry = 5000\<rparr> :: lease_s"
  have "leases_ok (replicate 6 zero_lease)" by (simp add: leases_ok_def zero_lease_def)
  then have "leases_ok ((replicate 6 zero_lease)[0 := ?l])"
    by (rule leases_ok_update) (simp_all add: zero_lease_def)
  moreover have "(replicate 6 zero_lease)[0 := ?l] = ?l # replicate 5 zero_lease" by (simp add: eval_nat_numeral)
  ultimately show ?thesis
    using ex_pool by (simp add: dhcpd_inv_def dhcpd_ok_def ex_leased_def dhcpd_listening_def ex_build_def)
qed

theorem lease_exclusive_witness:
  "\<exists>s'. dhcpd_receives ex_build [ex_discover, ex_discover] ex_leased = Some s' \<and>
     lease_held s' 0 [2, 0, 0, 0, 0, 7] 5000 \<and> (\<exists>sent. dos_sent s' = dos_sent ex_leased @ sent \<and>
       mem32 (htonl (addr_of (g_config ex_leased) 0)) \<notin> (\<lambda>(dest, port, data). yiaddr_of data) ` set sent)"
proof -
  have ds: "\<forall>d \<in> set [ex_discover, ex_discover]. from_other [2, 0, 0, 0, 0, 7] d"
    "\<forall>d \<in> set [ex_discover, ex_discover]. safe_datagram d"
    using ex_discover_ok by (simp_all add: from_other_def)
  obtain s' where s': "dhcpd_receives ex_build [ex_discover, ex_discover] ex_leased = Some s'"
    using dhcpd_inv_receives [OF ex_leased_inv ds(2)] by blast
  have "lease_held ex_leased 0 [2, 0, 0, 0, 0, 7] 5000" by (simp add: lease_held_def ex_leased_def)
  moreover have "\<forall>k. dos_ticks ex_leased \<le> k \<and> k < dos_ticks s' \<longrightarrow> reading ex_leased k < 5000"
    by (simp add: reading_def ex_leased_def dhcpd_listening_def)
  moreover have "[2, 0, 0, 0, 0, 7 :: u8] \<noteq> replicate 6 0" by (simp add: eval_nat_numeral)
  ultimately show ?thesis using lease_exclusive [OF ex_leased_inv _ _ ds(1) s'] s' by blast
qed

text \<open>
  C37: A request for another address is acknowledged. When a client that has a lease requests
  from this server an address other than the leased one, the server does not refuse: it
  acknowledges, with the leased address. (The condition in the code is
  \<^verbatim>\<open>reqip != 0 || reqip == ipaddr\<close>.)
\<close>

theorem dhcpd_request_other:
  assumes "dhcpd_ok b s" "dhcpd_findbymac b (m_chaddr (ds_inpacket s)) s = Some i" "ds_serverip s \<noteq> 0"
    "ds_optserverip s = ntohl (ds_serverip s)" "ds_optreqip s \<noteq> 0" "ds_optreqip s \<noteq> addr_of (g_config s) i"
    "dos_sendto s (dos_sends s)"
  shows "\<exists>s' dest. dhcpd_request b s = Some (0, s') \<and>
    dos_sent s' = dos_sent s @ [(dest, htons 68, wire_bytes (ack_msg (addr_of (g_config s) i) s) (ack_options b s))]"
proof -
  have i: "i < cf_maxleases b" by (rule dhcpd_findbymac_Some(1) [OF assms(2)])
  have "dhcpd_request_response b s = Some (DHCPACK, addr_of (g_config s) i, s)"
    using assms by (simp add: dhcpd_request_response_def dhcp_leaseipaddr_eq Let_def)
  then have "dhcpd_request b s = Some (0, acked b s i)"
    using dhcpd_sendack_slot [OF assms(1) i] assms(7) by (simp add: dhcpd_request_def)
  moreover have "dos_sent (acked b s i) = dos_sent s @ [(fst (reply_route b (cf_ignorebroadcast b)
      (ack_msg (addr_of (g_config s) i) s)), htons 68, wire_bytes (ack_msg (addr_of (g_config s) i) s) (ack_options b s))]"
    using assms(7) by (simp add: acked_def ack_sent_def reply_sent_dos_sent)
  ultimately show ?thesis by blast
qed

definition ex_other :: dhcpd where
  "ex_other = ex_leased\<lparr>ds_inpacket := zero_msg\<lparr>m_chaddr := [2, 0, 0, 0, 0, 7] @ replicate 10 0\<rparr>,
     ds_optserverip := 0x0a000001, ds_optreqip := 0x0a000005\<rparr>"

theorem dhcpd_request_other_witness:
  "ds_optreqip ex_other \<noteq> addr_of (g_config ex_other) 0 \<and>
   (\<exists>s' dest. dhcpd_request ex_build ex_other = Some (0, s') \<and> dos_sent s' = dos_sent ex_other @
      [(dest, htons 68, wire_bytes (ack_msg (addr_of (g_config ex_other) 0) ex_other) (ack_options ex_build ex_other))])"
proof -
  have "wf_msg (zero_msg\<lparr>m_chaddr := [2, 0, 0, 0, 0, 7] @ replicate 10 0\<rparr>)"
    using wf_zero_msg by (auto simp: wf_msg_def)
  then have ok: "dhcpd_ok ex_build ex_other"
    using ex_leased_inv by (simp add: ex_other_def dhcpd_inv_def dhcpd_ok_def)
  have mac: "take 6 (m_chaddr (ds_inpacket ex_other)) = [2, 0, 0, 0, 0, 7]" by (simp add: ex_other_def)
  have find: "dhcpd_findbymac ex_build (m_chaddr (ds_inpacket ex_other)) ex_other = Some 0"
    by (rule dhcpd_findbymac_holder [OF ok]) (simp_all add: mac ex_build_def ex_other_def ex_leased_def eval_nat_numeral)
  have ids: "ds_serverip ex_other = 0x0100000a" "ds_optserverip ex_other = 0x0a000001" "ds_optreqip ex_other = 0x0a000005"
    "g_config ex_other = ex_config" "dos_sendto ex_other (dos_sends ex_other)"
    by (simp_all add: ex_other_def ex_leased_def dhcpd_listening_def)
  have "ds_optserverip ex_other = ntohl (ds_serverip ex_other)"
    unfolding ids by (simp add: htonl_def mem32_def of_mem32_def)
  moreover have other: "ds_optreqip ex_other \<noteq> addr_of (g_config ex_other) 0"
    unfolding ids by (simp add: addr_of_def ex_config_def)
  ultimately show ?thesis using dhcpd_request_other [OF ok find] ids by simp
qed

text \<open>
  C35: The parser reads past the message. A message whose options field is padding up to an
  option code in its last byte makes \<^verbatim>\<open>dhcpd_parseoptions\<close> read the length of that option
  behind the array.
\<close>

theorem dhcpd_overread:
  assumes "wf_msg m" "m_options m = g_magiccookie @ replicate 307 0 @ [code]" "code \<noteq> DHCP_OPTION_PAD"
    "code \<noteq> DHCP_OPTION_END" "wf_msg (ds_inpacket s)"
  shows "dhcpd_receive b (msg_bytes m) s = None"
proof -
  have "dhcpd_parseoptions (s\<lparr>ds_inpacket := m\<rparr>) = None"
    by (rule dhcpd_parseoptions_overread [of _ code]) (use assms in simp_all)
  then show ?thesis using assms by (simp add: dhcpd_receive_def recv_into_full)
qed

theorem dhcpd_overread_witness:
  "dhcpd_receive ex_build (msg_bytes (zero_msg\<lparr>m_options := g_magiccookie @ replicate 307 0 @ [DHCP_OPTION_MSG_TYPE]\<rparr>)) ex_server = None"
proof -
  have "wf_msg (zero_msg\<lparr>m_options := g_magiccookie @ replicate 307 0 @ [DHCP_OPTION_MSG_TYPE]\<rparr>)"
    using wf_zero_msg by (auto simp: wf_msg_def)
  then show ?thesis
    by (rule dhcpd_overread [where code = DHCP_OPTION_MSG_TYPE]) (simp_all add: ex_server_def dhcpd_listening_def)
qed

text \<open>
  C36: Overloaded options are lost. A client that puts its message type into the file field,
  as the overload option allows, is not heard: the parser skips the first bytes of the field,
  and no handler runs.
\<close>

theorem dhcpd_overload_lost:
  assumes "wf_msg m" "m_options m = g_magiccookie @ [DHCP_OPTION_OVERLOAD, 1, 1, DHCP_OPTION_END] @ rest"
    "m_file m = [DHCP_OPTION_MSG_TYPE, 1, mtype, DHCP_OPTION_END] @ rest'" "wf_msg (ds_inpacket s)"
  shows "dhcpd_receive b (msg_bytes m) s = Some (options_reset (s\<lparr>ds_inpacket := m\<rparr>))"
proof -
  have "dhcpd_parseoptions (s\<lparr>ds_inpacket := m\<rparr>) = Some (True, options_reset (s\<lparr>ds_inpacket := m\<rparr>))"
    by (rule dhcpd_parseoptions_overload) (use assms in simp_all)
  then show ?thesis using assms by (simp add: dhcpd_receive_def recv_into_full dhcpd_process_def options_reset_def)
qed

definition ex_overload :: dhcpmsg_s where
  "ex_overload = zero_msg\<lparr>m_options := g_magiccookie @ [DHCP_OPTION_OVERLOAD, 1, 1, DHCP_OPTION_END] @ replicate 304 0,
     m_file := [DHCP_OPTION_MSG_TYPE, 1, DHCPDISCOVER, DHCP_OPTION_END] @ replicate 124 0\<rparr>"

theorem dhcpd_overload_lost_witness:
  "dhcpd_receive ex_build (msg_bytes ex_overload) ex_server = Some (options_reset (ex_server\<lparr>ds_inpacket := ex_overload\<rparr>))"
proof -
  have "wf_msg ex_overload" using wf_zero_msg by (auto simp: wf_msg_def ex_overload_def)
  then show ?thesis
    by (rule dhcpd_overload_lost [where mtype = DHCPDISCOVER]) (simp_all add: ex_overload_def ex_server_def dhcpd_listening_def)
qed

section \<open>The client\<close>

text \<open>
  C34: The client reads no reply outside its packet. Whatever datagram arrives, the parser
  returns and stays inside the bytes of the options array.
\<close>

theorem dhcpc_parse_safe:
  assumes "client_ok c"
  shows "dhcpc_parsemsg (c\<lparr>c_packet := recv_into data (c_packet c)\<rparr>) (min 548 (length data)) r \<noteq> None"
proof -
  let ?m = "recv_into data (c_packet c)"
  have wf: "wf_msg ?m" using assms by (simp add: client_ok_def)
  have "dhcpc_parseoptions (m_options ?m) 4 (4 + (int (min 548 (length data)) - 240)) st \<noteq> None" for st
    by (rule dhcpc_parseoptions_safe) (use wf in \<open>simp add: wf_msg_def\<close>)
  moreover have "array_slice (m_chaddr ?m) 0 (c_maclen c) \<noteq> None" "array_slice (c_macaddr c) 0 (c_maclen c) \<noteq> None"
    using assms wf by (simp_all add: array_slice_def client_ok_def wf_msg_def)
  ultimately show ?thesis by (auto simp: dhcpc_parsemsg_def)
qed

theorem dhcpc_parse_safe_witness:
  "client_ok ex_client \<and>
   dhcpc_parsemsg (ex_client\<lparr>c_packet := recv_into (replicate 240 2 @ [DHCP_OPTION_LEASE_TIME]) (c_packet ex_client)\<rparr>)
     (min 548 (length (replicate 240 2 @ [DHCP_OPTION_LEASE_TIME :: u8]))) zero_result \<noteq> None"
  using dhcpc_parse_safe [OF ex_client_ok(1)] ex_client_ok(1) by blast

end
