(* ===== verification/DhcpDaemon.thy ===== *)
theory DhcpDaemon
  imports DhcpServer
begin

text \<open>
  The life of the DHCP daemon, the public functions of \<^verbatim>\<open>netutils/dhcpd/dhcpd.c\<close>: callers of
  \<^verbatim>\<open>dhcpd_start\<close> and \<^verbatim>\<open>dhcpd_stop\<close>, any number of them, and the tasks that execute \<^verbatim>\<open>dhcpd_run\<close>,
  interleaved. A step of a caller or a task goes up to its next wait; \<^verbatim>\<open>sem_wait\<close> waits until
  the count is positive. \<^verbatim>\<open>ds_data\<close> is modelled by whether it is allocated.
\<close>

section \<open>State\<close>

datatype dhcpd_daemon_e = DHCPD_NOT_RUNNING | DHCPD_STARTED | DHCPD_RUNNING | DHCPD_STOP_REQUESTED | DHCPD_STOPPED

text \<open>Where a caller is: outside, in \<^verbatim>\<open>dhcpd_start\<close> or \<^verbatim>\<open>dhcpd_stop\<close> with the lock, or waiting for \<^verbatim>\<open>ds_sync\<close>.\<close>

datatype caller_pc = Outside | StartLocked | StartWait | StopLocked | StopKill | StopWait

text \<open>Where a task is: not there, at the entry of \<^verbatim>\<open>dhcpd_run\<close>, at the test of its loop, in \<^verbatim>\<open>recv\<close>, behind the loop.\<close>

datatype task_pc = NoTask | Entry | LoopTest bool | Receiving | LoopExit

record dhcpd_daemon_s =
  dd_state :: dhcpd_daemon_e
  dd_lock :: nat
  dd_sync :: nat
  dd_pid :: "nat option"
  dd_data :: bool
  dd_callers :: "nat \<Rightarrow> caller_pc"
  dd_tasks :: "nat \<Rightarrow> task_pc"

definition g_dhcpd_daemon :: dhcpd_daemon_s where
  "g_dhcpd_daemon = \<lparr>dd_state = DHCPD_NOT_RUNNING, dd_lock = 1, dd_sync = 0, dd_pid = None, dd_data = False,
     dd_callers = (\<lambda>i. Outside), dd_tasks = (\<lambda>t. NoTask)\<rparr>"

definition at_caller :: "nat \<Rightarrow> caller_pc \<Rightarrow> dhcpd_daemon_s \<Rightarrow> dhcpd_daemon_s" where
  "at_caller i pc d = d\<lparr>dd_callers := (dd_callers d)(i := pc)\<rparr>"

definition at_task :: "nat \<Rightarrow> task_pc \<Rightarrow> dhcpd_daemon_s \<Rightarrow> dhcpd_daemon_s" where
  "at_task t pc d = d\<lparr>dd_tasks := (dd_tasks d)(t := pc)\<rparr>"

definition unlock :: "nat \<Rightarrow> dhcpd_daemon_s \<Rightarrow> dhcpd_daemon_s" where
  "unlock i d = at_caller i Outside (d\<lparr>dd_lock := dd_lock d + 1\<rparr>)"

section \<open>The callers\<close>

text \<open>The \<^verbatim>\<open>sem_wait\<close> on \<^verbatim>\<open>ds_lock\<close>, then \<^verbatim>\<open>dhcpd_start\<close> up to its wait; \<open>task\<close> is what \<^verbatim>\<open>task_create\<close> returned.\<close>

definition dhcpd_start_lock :: "nat \<Rightarrow> dhcpd_daemon_s \<Rightarrow> dhcpd_daemon_s" where
  "dhcpd_start_lock i d = at_caller i StartLocked (d\<lparr>dd_lock := dd_lock d - 1\<rparr>)"

definition dhcpd_start_locked :: "nat \<Rightarrow> nat option \<Rightarrow> dhcpd_daemon_s \<Rightarrow> dhcpd_daemon_s" where
  "dhcpd_start_locked i task d =
     (if dd_state d = DHCPD_NOT_RUNNING \<or> dd_state d = DHCPD_STOPPED
      then (case task of
              None \<Rightarrow> unlock i (d\<lparr>dd_state := DHCPD_STOPPED\<rparr>)
            | Some t \<Rightarrow> at_caller i StartWait (at_task t Entry (d\<lparr>dd_state := DHCPD_STARTED\<rparr>)))
      else unlock i d)"

definition dhcpd_start_wake :: "nat \<Rightarrow> dhcpd_daemon_s \<Rightarrow> dhcpd_daemon_s" where
  "dhcpd_start_wake i d =
     (let d = d\<lparr>dd_sync := dd_sync d - 1\<rparr> in
      if dd_state d = DHCPD_STARTED then d else unlock i d)"

definition dhcpd_stop_lock :: "nat \<Rightarrow> dhcpd_daemon_s \<Rightarrow> dhcpd_daemon_s" where
  "dhcpd_stop_lock i d = at_caller i StopLocked (d\<lparr>dd_lock := dd_lock d - 1\<rparr>)"

definition dhcpd_stop_locked :: "nat \<Rightarrow> dhcpd_daemon_s \<Rightarrow> dhcpd_daemon_s" where
  "dhcpd_stop_locked i d =
     (if dd_state d = DHCPD_STARTED \<or> dd_state d = DHCPD_RUNNING
      then at_caller i StopKill (d\<lparr>dd_state := DHCPD_STOP_REQUESTED\<rparr>)
      else unlock i d)"

text \<open>\<^verbatim>\<open>kill\<close> fails or succeeds; on a failure \<^verbatim>\<open>dhcpd_stop\<close> leaves its loop.\<close>

definition dhcpd_stop_kill :: "nat \<Rightarrow> bool \<Rightarrow> dhcpd_daemon_s \<Rightarrow> dhcpd_daemon_s" where
  "dhcpd_stop_kill i ok d = (if ok then at_caller i StopWait d else unlock i d)"

definition dhcpd_stop_wake :: "nat \<Rightarrow> dhcpd_daemon_s \<Rightarrow> dhcpd_daemon_s" where
  "dhcpd_stop_wake i d =
     (let d = d\<lparr>dd_sync := dd_sync d - 1\<rparr> in
      if dd_state d = DHCPD_STOP_REQUESTED then at_caller i StopKill d else unlock i d)"

section \<open>The task\<close>

text \<open>\<^verbatim>\<open>dhcpd_run\<close> up to its loop; \<open>mem\<close> is the result of \<^verbatim>\<open>malloc\<close>.\<close>

definition dhcpd_run_enter :: "nat \<Rightarrow> bool \<Rightarrow> dhcpd_daemon_s \<Rightarrow> dhcpd_daemon_s" where
  "dhcpd_run_enter t mem d =
     (if dd_state d = DHCPD_RUNNING then at_task t NoTask d
      else if \<not> mem then at_task t NoTask (d\<lparr>dd_data := False\<rparr>)
      else at_task t (LoopTest False)
        (d\<lparr>dd_data := True, dd_pid := Some t, dd_state := DHCPD_RUNNING, dd_sync := dd_sync d + 1\<rparr>))"

text \<open>The test of the loop and the listener; the argument of \<^const>\<open>LoopTest\<close> is \<open>sockfd >= 0\<close>.\<close>

definition dhcpd_run_test :: "nat \<Rightarrow> bool \<Rightarrow> bool \<Rightarrow> dhcpd_daemon_s \<Rightarrow> dhcpd_daemon_s" where
  "dhcpd_run_test t sock listener d =
     (if dd_state d = DHCPD_STOP_REQUESTED then at_task t LoopExit d
      else if \<not> sock \<and> \<not> listener then at_task t LoopExit d
      else at_task t Receiving d)"

text \<open>The return of \<^verbatim>\<open>recv\<close>; on an error other than EINTR and EAGAIN the socket is closed.\<close>

definition dhcpd_run_recv :: "nat \<Rightarrow> bool \<Rightarrow> dhcpd_daemon_s \<Rightarrow> dhcpd_daemon_s" where
  "dhcpd_run_recv t failed d = at_task t (LoopTest (\<not> failed)) d"

definition dhcpd_run_exit :: "nat \<Rightarrow> dhcpd_daemon_s \<Rightarrow> dhcpd_daemon_s" where
  "dhcpd_run_exit t d = at_task t NoTask
     (d\<lparr>dd_data := False, dd_pid := None, dd_state := DHCPD_STOPPED, dd_sync := dd_sync d + 1\<rparr>)"

section \<open>The interleaving\<close>

inductive dhcpd_daemon_step :: "dhcpd_daemon_s \<Rightarrow> dhcpd_daemon_s \<Rightarrow> bool" where
  start_lock: "dd_callers d i = Outside \<Longrightarrow> 0 < dd_lock d \<Longrightarrow> dhcpd_daemon_step d (dhcpd_start_lock i d)"
| start_locked: "dd_callers d i = StartLocked \<Longrightarrow> \<forall>t. task = Some t \<longrightarrow> dd_tasks d t = NoTask \<Longrightarrow>
    dhcpd_daemon_step d (dhcpd_start_locked i task d)"
| start_wake: "dd_callers d i = StartWait \<Longrightarrow> 0 < dd_sync d \<Longrightarrow> dhcpd_daemon_step d (dhcpd_start_wake i d)"
| stop_lock: "dd_callers d i = Outside \<Longrightarrow> 0 < dd_lock d \<Longrightarrow> dhcpd_daemon_step d (dhcpd_stop_lock i d)"
| stop_locked: "dd_callers d i = StopLocked \<Longrightarrow> dhcpd_daemon_step d (dhcpd_stop_locked i d)"
| stop_kill: "dd_callers d i = StopKill \<Longrightarrow> dhcpd_daemon_step d (dhcpd_stop_kill i ok d)"
| stop_wake: "dd_callers d i = StopWait \<Longrightarrow> 0 < dd_sync d \<Longrightarrow> dhcpd_daemon_step d (dhcpd_stop_wake i d)"
| run_enter: "dd_tasks d t = Entry \<Longrightarrow> dhcpd_daemon_step d (dhcpd_run_enter t mem d)"
| run_test: "dd_tasks d t = LoopTest sock \<Longrightarrow> dhcpd_daemon_step d (dhcpd_run_test t sock listener d)"
| run_recv: "dd_tasks d t = Receiving \<Longrightarrow> dhcpd_daemon_step d (dhcpd_run_recv t failed d)"
| run_exit: "dd_tasks d t = LoopExit \<Longrightarrow> dhcpd_daemon_step d (dhcpd_run_exit t d)"

inductive_cases dhcpd_daemon_stepE: "dhcpd_daemon_step d d'"

section \<open>The invariant\<close>

definition in_loop :: "task_pc \<Rightarrow> bool" where
  "in_loop pc \<longleftrightarrow> pc \<noteq> NoTask \<and> pc \<noteq> Entry"

text \<open>The lock is free, or exactly one caller has it.\<close>

definition lock_inv :: "dhcpd_daemon_s \<Rightarrow> bool" where
  "lock_inv d \<longleftrightarrow> (dd_lock d = 1 \<and> (\<forall>i. dd_callers d i = Outside)) \<or>
     (dd_lock d = 0 \<and> (\<exists>i. dd_callers d i \<noteq> Outside \<and> (\<forall>j. j \<noteq> i \<longrightarrow> dd_callers d j = Outside)))"

text \<open>There is at most one task; the memory of the daemon is allocated exactly while it is in its loop.\<close>

definition task_inv :: "nat \<Rightarrow> dhcpd_daemon_s \<Rightarrow> bool" where
  "task_inv t d \<longleftrightarrow>
     (\<forall>u. u \<noteq> t \<longrightarrow> dd_tasks d u = NoTask) \<and>
     (dd_data d \<longleftrightarrow> in_loop (dd_tasks d t)) \<and>
     (in_loop (dd_tasks d t) \<longrightarrow> dd_pid d = Some t) \<and>
     (dd_tasks d t = Entry \<longrightarrow> dd_state d = DHCPD_STARTED) \<and>
     (dd_state d = DHCPD_STARTED \<longrightarrow> \<not> in_loop (dd_tasks d t) \<and> (\<exists>i. dd_callers d i = StartWait)) \<and>
     (dd_state d = DHCPD_NOT_RUNNING \<or> dd_state d = DHCPD_STOPPED \<longrightarrow> dd_tasks d t = NoTask) \<and>
     (dd_state d = DHCPD_RUNNING \<or> dd_state d = DHCPD_STOP_REQUESTED \<longrightarrow> in_loop (dd_tasks d t))"

lemma at_caller_simps [simp]:
  "dd_state (at_caller i pc d) = dd_state d" "dd_lock (at_caller i pc d) = dd_lock d" "dd_sync (at_caller i pc d) = dd_sync d"
  "dd_pid (at_caller i pc d) = dd_pid d" "dd_data (at_caller i pc d) = dd_data d" "dd_tasks (at_caller i pc d) = dd_tasks d"
  "dd_callers (at_caller i pc d) = (dd_callers d)(i := pc)"
  "dd_state (at_task t tp d) = dd_state d" "dd_lock (at_task t tp d) = dd_lock d" "dd_sync (at_task t tp d) = dd_sync d"
  "dd_pid (at_task t tp d) = dd_pid d" "dd_data (at_task t tp d) = dd_data d" "dd_callers (at_task t tp d) = dd_callers d"
  "dd_tasks (at_task t tp d) = (dd_tasks d)(t := tp)"
  by (simp_all add: at_caller_def at_task_def)

text \<open>The steps with the lock: the caller keeps it, or gives it back.\<close>

lemma lock_inv_cong:
  "lock_inv d \<Longrightarrow> dd_lock d' = dd_lock d \<Longrightarrow> dd_callers d' = dd_callers d \<Longrightarrow> lock_inv d'"
  by (simp add: lock_inv_def)

lemma lock_inv_acquire:
  "lock_inv d \<Longrightarrow> 0 < dd_lock d \<Longrightarrow> pc \<noteq> Outside \<Longrightarrow> dd_lock d' = dd_lock d - 1 \<Longrightarrow>
   dd_callers d' = (dd_callers d)(i := pc) \<Longrightarrow> lock_inv d'"
  by (auto simp: lock_inv_def)

lemma lock_inv_keep:
  "lock_inv d \<Longrightarrow> dd_callers d i \<noteq> Outside \<Longrightarrow> pc \<noteq> Outside \<Longrightarrow> dd_lock d' = dd_lock d \<Longrightarrow>
   dd_callers d' = (dd_callers d)(i := pc) \<Longrightarrow> lock_inv d'"
  unfolding lock_inv_def by (metis fun_upd_apply)

lemma lock_inv_unlock:
  "lock_inv d \<Longrightarrow> dd_callers d i \<noteq> Outside \<Longrightarrow> dd_lock d' = dd_lock d + 1 \<Longrightarrow>
   dd_callers d' = (dd_callers d)(i := Outside) \<Longrightarrow> lock_inv d'"
  unfolding lock_inv_def by (metis One_nat_def add_0 fun_upd_apply plus_1_eq_Suc)

lemma lock_inv_step:
  assumes "dhcpd_daemon_step d d'" "lock_inv d"
  shows "lock_inv d'"
  using assms
proof (cases rule: dhcpd_daemon_step.cases)
  case (start_lock i)
  then show ?thesis using assms(2) by (auto simp: dhcpd_start_lock_def intro!: lock_inv_acquire [of d StartLocked _ i])
next
  case (start_locked i task)
  then show ?thesis using assms(2)
    by (auto simp: dhcpd_start_locked_def unlock_def split: option.split
        intro: lock_inv_keep [of d i StartWait] lock_inv_unlock [of d i])
next
  case (start_wake i)
  then show ?thesis using assms(2)
    by (auto simp: dhcpd_start_wake_def unlock_def Let_def intro: lock_inv_cong lock_inv_unlock [of d i])
next
  case (stop_lock i)
  then show ?thesis using assms(2) by (auto simp: dhcpd_stop_lock_def intro!: lock_inv_acquire [of d StopLocked _ i])
next
  case (stop_locked i)
  then show ?thesis using assms(2)
    by (auto simp: dhcpd_stop_locked_def unlock_def intro: lock_inv_keep [of d i StopKill] lock_inv_unlock [of d i])
next
  case (stop_kill i ok)
  then show ?thesis using assms(2)
    by (auto simp: dhcpd_stop_kill_def unlock_def intro: lock_inv_keep [of d i StopWait] lock_inv_unlock [of d i])
next
  case (stop_wake i)
  then show ?thesis using assms(2)
    by (auto simp: dhcpd_stop_wake_def unlock_def Let_def intro: lock_inv_keep [of d i StopKill] lock_inv_unlock [of d i])
qed (auto simp: dhcpd_run_enter_def dhcpd_run_test_def dhcpd_run_recv_def dhcpd_run_exit_def intro: lock_inv_cong)

lemma lock_inv_holder:
  assumes "lock_inv d" "dd_callers d i \<noteq> Outside" "dd_callers d j \<noteq> Outside"
  shows "i = j"
proof -
  obtain k where "\<forall>j. j \<noteq> k \<longrightarrow> dd_callers d j = Outside" using assms unfolding lock_inv_def by blast
  then have "i = k" "j = k" using assms(2,3) by metis+
  then show ?thesis by simp
qed

text \<open>A step that moves no task and leaves the state.\<close>

lemma task_inv_caller:
  assumes "task_inv t d" "dd_tasks d' = dd_tasks d" "dd_data d' = dd_data d" "dd_pid d' = dd_pid d" "dd_state d' = dd_state d"
    "dd_state d = DHCPD_STARTED \<Longrightarrow> \<exists>i. dd_callers d' i = StartWait"
  shows "task_inv t d'"
  using assms(1,6) unfolding task_inv_def assms(2-5) by blast

text \<open>The task is the only one; while the daemon is being started the lock is with the starter.\<close>

lemma task_inv_sole: "task_inv t d \<Longrightarrow> dd_tasks d u \<noteq> NoTask \<Longrightarrow> u = t"
  unfolding task_inv_def by metis

lemma started_holder:
  assumes "lock_inv d" "task_inv t d" "dd_callers d i \<noteq> Outside" "dd_callers d i \<noteq> StartWait"
  shows "dd_state d \<noteq> DHCPD_STARTED"
proof
  assume "dd_state d = DHCPD_STARTED"
  then obtain j where j: "dd_callers d j = StartWait" using assms(2) unfolding task_inv_def by blast
  then have "i = j" by (intro lock_inv_holder [OF assms(1,3)]) simp
  then show False using j assms(4) by simp
qed

lemma free_not_started: "lock_inv d \<Longrightarrow> task_inv t d \<Longrightarrow> 0 < dd_lock d \<Longrightarrow> dd_state d \<noteq> DHCPD_STARTED"
  unfolding lock_inv_def task_inv_def by (metis caller_pc.distinct(3) less_irrefl)

lemma task_inv_started:
  assumes task: "task_inv t d" and ns: "dd_state d \<noteq> DHCPD_STARTED" and fresh: "\<forall>u. tk = Some u \<longrightarrow> dd_tasks d u = NoTask"
  shows "\<exists>t. task_inv t (dhcpd_start_locked i tk d)"
proof (cases "dd_state d = DHCPD_NOT_RUNNING \<or> dd_state d = DHCPD_STOPPED")
  case True
  then have none: "dd_tasks d u = NoTask" "\<not> dd_data d" for u using task by (auto simp: task_inv_def in_loop_def)
  show ?thesis
  proof (cases tk)
    case None
    then show ?thesis using True none by (auto simp: dhcpd_start_locked_def unlock_def task_inv_def in_loop_def)
  next
    case (Some u)
    have "task_inv u (dhcpd_start_locked i tk d)"
      using True none Some by (auto simp: dhcpd_start_locked_def task_inv_def in_loop_def)
    then show ?thesis by blast
  qed
next
  case False
  then have "task_inv t (dhcpd_start_locked i tk d)"
    using ns by (intro task_inv_caller [OF task]) (auto simp: dhcpd_start_locked_def unlock_def)
  then show ?thesis by blast
qed

lemma task_inv_task_step:
  assumes task: "task_inv t d"
  shows "dd_tasks d t = Entry \<Longrightarrow> task_inv t (dhcpd_run_enter t mem d)"
    and "dd_tasks d t = LoopTest sock \<Longrightarrow> task_inv t (dhcpd_run_test t sock listener d)"
    and "dd_tasks d t = Receiving \<Longrightarrow> task_inv t (dhcpd_run_recv t failed d)"
    and "dd_tasks d t = LoopExit \<Longrightarrow> task_inv t (dhcpd_run_exit t d)"
  using task
  by (auto simp: task_inv_def in_loop_def dhcpd_run_enter_def dhcpd_run_test_def dhcpd_run_recv_def dhcpd_run_exit_def)

lemma task_inv_step:
  assumes step: "dhcpd_daemon_step d d'" and lock: "lock_inv d" and task: "task_inv t d"
  shows "\<exists>t. task_inv t d'"
  using step
proof (cases rule: dhcpd_daemon_step.cases)
  case (start_lock i)
  have "task_inv t d'" using start_lock free_not_started [OF lock task]
    by (intro task_inv_caller [OF task]) (auto simp: dhcpd_start_lock_def)
  then show ?thesis by blast
next
  case (stop_lock i)
  have "task_inv t d'" using stop_lock free_not_started [OF lock task]
    by (intro task_inv_caller [OF task]) (auto simp: dhcpd_stop_lock_def)
  then show ?thesis by blast
next
  case (start_locked i tk)
  then show ?thesis using task_inv_started [OF task started_holder [OF lock task, of i]] by simp
next
  case (start_wake i)
  have "task_inv t d'" using start_wake
    by (intro task_inv_caller [OF task]) (auto simp: dhcpd_start_wake_def unlock_def Let_def)
  then show ?thesis by blast
next
  case (stop_locked i)
  have "dd_state d \<noteq> DHCPD_STARTED" using started_holder [OF lock task, of i] stop_locked by simp
  then have "task_inv t d'" using stop_locked task by (auto simp: dhcpd_stop_locked_def unlock_def task_inv_def)
  then show ?thesis by blast
next
  case (stop_kill i ok)
  have "dd_state d \<noteq> DHCPD_STARTED" using started_holder [OF lock task, of i] stop_kill by simp
  then have "task_inv t d'" using stop_kill
    by (intro task_inv_caller [OF task]) (auto simp: dhcpd_stop_kill_def unlock_def)
  then show ?thesis by blast
next
  case (stop_wake i)
  have "dd_state d \<noteq> DHCPD_STARTED" using started_holder [OF lock task, of i] stop_wake by simp
  then have "task_inv t d'" using stop_wake
    by (intro task_inv_caller [OF task]) (auto simp: dhcpd_stop_wake_def unlock_def Let_def)
  then show ?thesis by blast
next
  case (run_enter u mem)
  then show ?thesis using task_inv_task_step(1) [OF task] task_inv_sole [OF task, of u] by auto
next
  case (run_test u sock listener)
  then show ?thesis using task_inv_task_step(2) [OF task] task_inv_sole [OF task, of u] by auto
next
  case (run_recv u failed)
  then show ?thesis using task_inv_task_step(3) [OF task] task_inv_sole [OF task, of u] by auto
next
  case (run_exit u)
  then show ?thesis using task_inv_task_step(4) [OF task] task_inv_sole [OF task, of u] by auto
qed

lemma daemon_inv_reachable:
  "dhcpd_daemon_step\<^sup>*\<^sup>* g_dhcpd_daemon d \<Longrightarrow> lock_inv d \<and> (\<exists>t. task_inv t d)"
proof (induction rule: rtranclp_induct)
  case base
  then show ?case by (simp add: lock_inv_def task_inv_def g_dhcpd_daemon_def in_loop_def)
next
  case (step d d')
  then show ?case using lock_inv_step task_inv_step by blast
qed



text \<open>
  C38: A start that hangs. When \<^verbatim>\<open>malloc\<close> fails in \<^verbatim>\<open>dhcpd_run\<close> the task ends without a post
  on \<^verbatim>\<open>ds_sync\<close> and leaves the state \<^verbatim>\<open>DHCPD_STARTED\<close>: the caller of \<^verbatim>\<open>dhcpd_start\<close> waits with the
  lock, and nothing is left that can run, neither this caller nor any other start or stop.
\<close>

theorem dhcpd_start_hangs:
  "dhcpd_daemon_step\<^sup>*\<^sup>* g_dhcpd_daemon
     (dhcpd_run_enter t False (dhcpd_start_locked i (Some t) (dhcpd_start_lock i g_dhcpd_daemon))) \<and>
   \<not> dhcpd_daemon_step (dhcpd_run_enter t False (dhcpd_start_locked i (Some t) (dhcpd_start_lock i g_dhcpd_daemon))) d'"
proof -
  let ?d1 = "dhcpd_start_lock i g_dhcpd_daemon"
  let ?d2 = "dhcpd_start_locked i (Some t) ?d1"
  let ?d3 = "dhcpd_run_enter t False ?d2"
  have "dhcpd_daemon_step g_dhcpd_daemon ?d1" by (rule dhcpd_daemon_step.start_lock) (simp_all add: g_dhcpd_daemon_def)
  moreover have "dhcpd_daemon_step ?d1 ?d2"
    by (rule dhcpd_daemon_step.start_locked) (simp_all add: dhcpd_start_lock_def g_dhcpd_daemon_def)
  moreover have "dhcpd_daemon_step ?d2 ?d3"
    by (rule dhcpd_daemon_step.run_enter) (simp add: dhcpd_start_locked_def dhcpd_start_lock_def g_dhcpd_daemon_def)
  ultimately have "dhcpd_daemon_step\<^sup>*\<^sup>* g_dhcpd_daemon ?d3" by (meson rtranclp.intros)
  moreover have "dd_callers ?d3 = (\<lambda>j. if j = i then StartWait else Outside)" "dd_lock ?d3 = 0" "dd_sync ?d3 = 0"
    "dd_tasks ?d3 = (\<lambda>u. NoTask)"
    by (simp_all add: fun_eq_iff dhcpd_run_enter_def dhcpd_start_locked_def dhcpd_start_lock_def g_dhcpd_daemon_def)
  then have "\<not> dhcpd_daemon_step ?d3 d'" by (auto elim!: dhcpd_daemon_step.cases split: if_splits)
  ultimately show ?thesis by blast
qed

end
