(* ===== verification/CodecBuffer.thy ===== *)
theory CodecBuffer
  imports Prelude
begin

text \<open>
  What the codecs of \<^verbatim>\<open>netutils/codecs\<close> share: bytes written through a moving pointer into a
  buffer, memory from \<^verbatim>\<open>malloc\<close>, C strings. A \<^verbatim>\<open>size_t\<close> has 32 bits. \<^verbatim>\<open>malloc\<close> is an argument of the
  codecs: the memory it returns, with whatever it contains, or \<open>None\<close> for the null pointer.
\<close>

type_synonym size_t = u32
type_synonym cursor = "u8 list \<times> nat"

text \<open>The write \<^verbatim>\<open>*pos++ = c\<close>.\<close>

definition putc :: "u8 \<Rightarrow> cursor \<Rightarrow> cursor option" where
  "putc c p = do { out \<leftarrow> array_put (fst p) (snd p) c; Some (out, snd p + 1) }"

text \<open>The bytes of a string literal, without its terminator.\<close>

definition c_string :: "string \<Rightarrow> u8 list" where
  "c_string s = map of_char s"

section \<open>Writing through a cursor\<close>

text \<open>The cursor after the bytes \<open>ys\<close> were written to the start of the buffer \<open>out\<close>.\<close>

definition written :: "u8 list \<Rightarrow> u8 list \<Rightarrow> cursor" where
  "written out ys = (ys @ drop (length ys) out, length ys)"

lemma written_Nil: "written out [] = (out, 0)"
  by (simp add: written_def)

lemma putc_written:
  "putc c (written out ys) = (if length ys < length out then Some (written out (ys @ [c])) else None)"
  by (simp add: putc_def written_def array_put_def list_update_append Cons_nth_drop_Suc [symmetric])

lemma putc_written_fits [simp]:
  "length ys < length out \<Longrightarrow> putc c (written out ys) = Some (written out (ys @ [c]))"
  by (simp add: putc_written)

lemma written_nul:
  assumes "length ys < length out"
  shows "array_put (fst (written out ys)) (length ys) c = Some (ys @ c # drop (Suc (length ys)) out)"
    "snd (written out ys) = length ys"
  using assms by (simp_all add: written_def array_put_def list_update_append Cons_nth_drop_Suc [symmetric])

lemma putc_position: "putc c p = Some q \<Longrightarrow> snd q = snd p + 1 \<and> length (fst q) = length (fst p)"
  by (auto simp: putc_def array_put_def split: if_splits)

lemma putc_fits: "snd p < length (fst p) \<Longrightarrow> \<exists>q. putc c p = Some q"
  by (simp add: putc_def array_put_def)

lemma unat_size_t: "n < 4294967296 \<Longrightarrow> unat (of_nat n :: size_t) = n"
  by (simp add: unat_of_nat)

section \<open>Bytes\<close>

lemma u8_bit_cases:
  fixes a b :: u8
  assumes "bit a 0 = bit b 0" "bit a 1 = bit b 1" "bit a 2 = bit b 2" "bit a 3 = bit b 3"
    "bit a 4 = bit b 4" "bit a 5 = bit b 5" "bit a 6 = bit b 6" "bit a 7 = bit b 7"
  shows "a = b"
proof (rule bit_word_eqI)
  fix n assume "n < LENGTH(8)"
  then consider "n = 0" | "n = 1" | "n = 2" | "n = 3" | "n = 4" | "n = 5" | "n = 6" | "n = 7" by fastforce
  then show "bit a n = bit b n" by cases (use assms in simp_all)
qed

lemma u8_masks:
  fixes a :: u8
  shows "a AND 0x03 = take_bit 2 a" "a AND 0x0f = take_bit 4 a" "a AND 0x3f = take_bit 6 a"
  by (simp_all add: take_bit_eq_mask mask_eq_exp_minus_1)

lemma u8_no_bit: "8 \<le> n \<Longrightarrow> \<not> bit (a :: u8) n"
  using bit_imp_le_length [of a n] by auto

end
