(* ===== verification/CodecBase64.thy ===== *)
theory CodecBase64
  imports CodecBuffer
begin

text \<open>
  The base64 codec of \<^verbatim>\<open>netutils/codecs/base64.c\<close>, in its standard and its web-safe form.

  The source is the list of the \<^verbatim>\<open>len\<close> bytes it points to; the output pointer \<^verbatim>\<open>pos\<close> is an
  index into the destination, and a write outside the destination is \<open>None\<close>.

  The encoder is compared with the definition of RFC 4648 on the stream of bits, the decoder
  inverts it, and the decoder stays inside the memory it allocates on every input. The
  web-safe table maps two codes to the same character, so that form loses data.
\<close>

text \<open>The position \<^verbatim>\<open>strchr\<close> finds, the terminator included.\<close>

definition strchr :: "u8 list \<Rightarrow> u8 \<Rightarrow> nat option" where
  "strchr s c = (if c \<in> set (s @ [0]) then Some (length (takeWhile (\<lambda>x. x \<noteq> c) (s @ [0]))) else None)"

section \<open>The codec\<close>

definition base64_tab :: "bool \<Rightarrow> u8 list" where
  "base64_tab websafe =
     (if websafe then c_string ''ABCDEFGHIJKLMNOPQRSTUVWXYZabcdefghijklmnopqrstuvwxyz0123456789__''
      else c_string ''ABCDEFGHIJKLMNOPQRSTUVWXYZabcdefghijklmnopqrstuvwxyz0123456789+/'')"

definition base64_pad :: "bool \<Rightarrow> u8" where
  "base64_pad websafe = (if websafe then 0x2e else 0x3d)"

definition put_code :: "u8 list \<Rightarrow> u8 \<Rightarrow> cursor \<Rightarrow> cursor option" where
  "put_code tab k p = do { c \<leftarrow> array_get tab (unat k); putc c p }"

fun base64_encode_loop :: "u8 list \<Rightarrow> u8 list \<Rightarrow> cursor \<Rightarrow> (u8 list \<times> cursor) option" where
  "base64_encode_loop tab (a # b # c # rest) p = do {
     p \<leftarrow> put_code tab (drop_bit 2 a) p;
     p \<leftarrow> put_code tab (push_bit 4 (a AND 0x03) OR drop_bit 4 b) p;
     p \<leftarrow> put_code tab (push_bit 2 (b AND 0x0f) OR drop_bit 6 c) p;
     p \<leftarrow> put_code tab (c AND 0x3f) p;
     base64_encode_loop tab rest p }"
| "base64_encode_loop tab rest p = Some (rest, p)"

definition base64_encode_tail :: "u8 list \<Rightarrow> u8 \<Rightarrow> u8 list \<Rightarrow> cursor \<Rightarrow> cursor option" where
  "base64_encode_tail tab ch rest p =
     (if rest = [] then Some p
      else do {
        p \<leftarrow> put_code tab (drop_bit 2 (rest ! 0)) p;
        p \<leftarrow> (if length rest = 1
              then do { p \<leftarrow> put_code tab (push_bit 4 (rest ! 0 AND 0x03)) p; putc ch p }
              else do { p \<leftarrow> put_code tab (push_bit 4 (rest ! 0 AND 0x03) OR drop_bit 4 (rest ! 1)) p;
                        put_code tab (push_bit 2 (rest ! 1 AND 0x0f)) p });
        putc ch p })"

text \<open>
  The function \<^verbatim>\<open>_base64_encode\<close>: \<open>Some None\<close> is the null pointer, otherwise the result is the
  buffer and \<^verbatim>\<open>*out_len\<close>.
\<close>

definition base64_encode_common ::
  "(size_t \<Rightarrow> u8 list option) \<Rightarrow> u8 list \<Rightarrow> u8 list option \<Rightarrow> bool \<Rightarrow> (u8 list \<times> nat) option option" where
  "base64_encode_common malloc src dst websafe =
     (case (if dst \<noteq> None then dst else malloc ((of_nat (length src) + 2) div 3 * 4 + 1)) of
        None \<Rightarrow> Some None
      | Some out \<Rightarrow> do {
          (rest, p) \<leftarrow> base64_encode_loop (base64_tab websafe) src (out, 0);
          p \<leftarrow> base64_encode_tail (base64_tab websafe) (base64_pad websafe) rest p;
          out \<leftarrow> array_put (fst p) (snd p) 0;
          Some (Some (out, snd p)) })"

function base64_decode_loop ::
  "u8 list \<Rightarrow> u8 \<Rightarrow> u8 list \<Rightarrow> nat \<Rightarrow> u8 list \<Rightarrow> nat \<Rightarrow> cursor \<Rightarrow> cursor option" where
  "base64_decode_loop tab ch src i block count p =
     (if i < length src
      then do {
        block \<leftarrow> array_put block count (case strchr tab (src ! i) of Some k \<Rightarrow> of_nat k | None \<Rightarrow> 0);
        if count + 1 = 4
        then do {
          p \<leftarrow> putc (push_bit 2 (block ! 0) OR drop_bit 4 (block ! 1)) p;
          before \<leftarrow> array_get src (i - 1);
          if before = ch then Some p
          else do {
            p \<leftarrow> putc (push_bit 4 (block ! 1) OR drop_bit 2 (block ! 2)) p;
            if src ! i = ch then Some p
            else do {
              p \<leftarrow> putc (push_bit 6 (block ! 2) OR block ! 3) p;
              base64_decode_loop tab ch src (i + 1) block 0 p } } }
        else base64_decode_loop tab ch src (i + 1) block (count + 1) p }
      else Some p)"
  by pat_completeness auto

termination
  by (relation "measure (\<lambda>(tab, ch, src, i, block, count, p). length src - i)") auto

text \<open>
  The function \<^verbatim>\<open>_base64_decode\<close>. The array \<^verbatim>\<open>block\<close> on the stack is not initialised: its
  content is the argument \<open>block\<close>.
\<close>

definition base64_decode_common ::
  "(size_t \<Rightarrow> u8 list option) \<Rightarrow> u8 list \<Rightarrow> u8 list \<Rightarrow> u8 list option \<Rightarrow> bool \<Rightarrow> (u8 list \<times> nat) option option" where
  "base64_decode_common malloc block src dst websafe =
     (case (if dst \<noteq> None then dst else malloc (of_nat (length src) div 4 * 3)) of
        None \<Rightarrow> Some None
      | Some out \<Rightarrow> do {
          p \<leftarrow> base64_decode_loop (base64_tab websafe) (base64_pad websafe) src 0 block 0 (out, 0);
          Some (Some p) })"

definition base64_encode_length :: "size_t \<Rightarrow> size_t" where
  "base64_encode_length len = (len + 2) div 3 * 4"

definition base64_encode ::
  "(size_t \<Rightarrow> u8 list option) \<Rightarrow> u8 list \<Rightarrow> u8 list option \<Rightarrow> (u8 list \<times> nat) option option" where
  "base64_encode malloc src dst = base64_encode_common malloc src dst False"

definition base64_decode_length :: "size_t \<Rightarrow> size_t" where
  "base64_decode_length len = len * 3 div 4"

definition base64_decode ::
  "(size_t \<Rightarrow> u8 list option) \<Rightarrow> u8 list \<Rightarrow> u8 list \<Rightarrow> u8 list option \<Rightarrow> (u8 list \<times> nat) option option" where
  "base64_decode malloc block src dst = base64_decode_common malloc block src dst False"

definition base64w_encode ::
  "(size_t \<Rightarrow> u8 list option) \<Rightarrow> u8 list \<Rightarrow> u8 list option \<Rightarrow> (u8 list \<times> nat) option option" where
  "base64w_encode malloc src dst = base64_encode_common malloc src dst True"

definition base64w_decode ::
  "(size_t \<Rightarrow> u8 list option) \<Rightarrow> u8 list \<Rightarrow> u8 list \<Rightarrow> u8 list option \<Rightarrow> (u8 list \<times> nat) option option" where
  "base64w_decode malloc block src dst = base64_decode_common malloc block src dst True"

lemma put_code_written [simp]:
  "unat k < length tab \<Longrightarrow> length ys < length out \<Longrightarrow>
   put_code tab k (written out ys) = Some (written out (ys @ [tab ! unat k]))"
  by (simp add: put_code_def array_get_def)

section \<open>The encoding of RFC 4648\<close>

text \<open>
  The bits of the data, most significant first, are cut into groups of six, the last one
  filled up with zeros; each group selects a character, and the text is filled up to a
  multiple of four characters.
\<close>

definition byte_bits :: "u8 \<Rightarrow> bool list" where
  "byte_bits a = map (bit a) (rev [0..<8])"

fun sextets :: "bool list \<Rightarrow> u8 list" where
  "sextets [] = []"
| "sextets bs = horner_sum of_bool 2 (rev (take 6 bs @ replicate (6 - length (take 6 bs)) False)) # sextets (drop 6 bs)"

definition fill4 :: "'a \<Rightarrow> 'a list \<Rightarrow> 'a list" where
  "fill4 ch xs = xs @ replicate ((4 - length xs mod 4) mod 4) ch"

definition rfc4648 :: "u8 list \<Rightarrow> u8 \<Rightarrow> u8 list \<Rightarrow> u8 list" where
  "rfc4648 tab ch xs = fill4 ch (map (\<lambda>k. tab ! unat k) (sextets (concat (map byte_bits xs))))"

lemma bits_of_sextet:
  "bit (horner_sum of_bool 2 (rev bs) :: u8) n \<longleftrightarrow> n < 8 \<and> n < length bs \<and> rev bs ! n"
  by (auto simp: bit_horner_sum_bit_iff)

lemma sextet_less:
  fixes k :: u8
  assumes "\<not> bit k 6" "\<not> bit k 7"
  shows "unat k < 64"
proof -
  have "k = take_bit 6 k" by (rule u8_bit_cases) (use assms in \<open>simp_all add: bit_simps\<close>)
  then have "unat k = take_bit 6 (unat k)" by (metis unsigned_take_bit_eq)
  then show ?thesis using take_bit_nat_less_exp [of 6 "unat k"] by simp
qed

lemma byte_bits_eq: "byte_bits a = [bit a 7, bit a 6, bit a 5, bit a 4, bit a 3, bit a 2, bit a 1, bit a 0]"
  by (simp add: byte_bits_def upt_conv_Cons eval_nat_numeral)

text \<open>The four codes of three bytes.\<close>

definition code1 :: "u8 \<Rightarrow> u8" where
  "code1 a = drop_bit 2 a"

definition code2 :: "u8 \<Rightarrow> u8 \<Rightarrow> u8" where
  "code2 a b = push_bit 4 (a AND 0x03) OR drop_bit 4 b"

definition code3 :: "u8 \<Rightarrow> u8 \<Rightarrow> u8" where
  "code3 b c = push_bit 2 (b AND 0x0f) OR drop_bit 6 c"

definition code4 :: "u8 \<Rightarrow> u8" where
  "code4 c = c AND 0x3f"

lemma codes_of_zero: "push_bit 4 (a AND 0x03) = code2 a 0" "push_bit 2 (b AND 0x0f) = code3 b 0"
  by (simp_all add: code2_def code3_def)

lemma code1_bits: "horner_sum of_bool 2 [bit a 2, bit a 3, bit a 4, bit a 5, bit a 6, bit a 7] = code1 a"
  by (rule u8_bit_cases) (simp_all add: code1_def bit_horner_sum_bit_iff bit_simps nth_Cons' u8_no_bit)

lemma code2_bits: "horner_sum of_bool 2 [bit b 4, bit b 5, bit b 6, bit b 7, bit a 0, bit a 1] = code2 a b"
  unfolding code2_def u8_masks
  by (rule u8_bit_cases) (simp_all add: bit_horner_sum_bit_iff bit_simps nth_Cons' u8_no_bit)

lemma code3_bits: "horner_sum of_bool 2 [bit c 6, bit c 7, bit b 0, bit b 1, bit b 2, bit b 3] = code3 b c"
  unfolding code3_def u8_masks
  by (rule u8_bit_cases) (simp_all add: bit_horner_sum_bit_iff bit_simps nth_Cons' u8_no_bit)

lemma code4_bits: "horner_sum of_bool 2 [bit c 0, bit c 1, bit c 2, bit c 3, bit c 4, bit c 5] = code4 c"
  unfolding code4_def u8_masks
  by (rule u8_bit_cases) (simp_all add: bit_horner_sum_bit_iff bit_simps nth_Cons' u8_no_bit)

lemma code_zero_bits:
  "horner_sum of_bool 2 [False, False, False, False, bit a 0, bit a (Suc 0)] = code2 a 0"
  "horner_sum of_bool 2 [False, False, bit b 0, bit b (Suc 0), bit b 2, bit b 3] = code3 b 0"
  using code2_bits [of 0 a] code3_bits [of 0 b] by (simp_all del: horner_sum_simps)

lemmas code_bits = code1_bits code2_bits [unfolded One_nat_def] code3_bits [unfolded One_nat_def]
  code4_bits [unfolded One_nat_def] code_zero_bits

lemma code_less: "unat (code1 a) < 64" "unat (code2 a b) < 64" "unat (code3 b c) < 64" "unat (code4 c) < 64"
  unfolding code1_bits [symmetric] code2_bits [symmetric] code3_bits [symmetric] code4_bits [symmetric]
  by (rule sextet_less; simp only: bit_horner_sum_bit_iff; simp)+

lemma sextets_cons3:
  "sextets (byte_bits a @ byte_bits b @ byte_bits c @ bs) = [code1 a, code2 a b, code3 b c, code4 c] @ sextets bs"
  by (simp add: byte_bits_eq code_bits del: horner_sum_simps)

lemma replicate_zeros: "replicate 4 x = [x, x, x, x]" "replicate 2 x = [x, x]"
  by (simp_all add: eval_nat_numeral)

lemma sextets_one: "sextets (byte_bits a) = [code1 a, code2 a 0]"
  by (simp add: byte_bits_eq code_bits replicate_zeros del: horner_sum_simps)

lemma sextets_two: "sextets (byte_bits a @ byte_bits b) = [code1 a, code2 a b, code3 b 0]"
  by (simp add: byte_bits_eq code_bits replicate_zeros del: horner_sum_simps)

lemma fill4_cons4: "fill4 ch (a # b # c # d # xs) = a # b # c # d # fill4 ch xs"
  by (simp add: fill4_def)

lemma fill4_short: "fill4 ch [] = []" "fill4 ch [a, b] = [a, b, ch, ch]" "fill4 ch [a, b, c] = [a, b, c, ch]"
  by (simp_all add: fill4_def numeral_2_eq_2)

lemma rfc4648_simps:
  "rfc4648 tab ch [] = []"
  "rfc4648 tab ch [a] = [tab ! unat (code1 a), tab ! unat (code2 a 0), ch, ch]"
  "rfc4648 tab ch [a, b] = [tab ! unat (code1 a), tab ! unat (code2 a b), tab ! unat (code3 b 0), ch]"
  "rfc4648 tab ch (a # b # c # rest) =
   [tab ! unat (code1 a), tab ! unat (code2 a b), tab ! unat (code3 b c), tab ! unat (code4 c)] @ rfc4648 tab ch rest"
  by (simp_all add: rfc4648_def sextets_cons3 sextets_one sextets_two fill4_cons4 fill4_short)

lemma list_induct_by3 [case_names Nil One Two Cons3]:
  "P [] \<Longrightarrow> (\<And>a. P [a]) \<Longrightarrow> (\<And>a b. P [a, b]) \<Longrightarrow> (\<And>a b c xs. P xs \<Longrightarrow> P (a # b # c # xs)) \<Longrightarrow> P xs"
  by induction_schema (pat_completeness, lexicographic_order)

lemma length_rfc4648: "length (rfc4648 tab ch xs) = (length xs + 2) div 3 * 4"
proof (induction xs rule: list_induct_by3)
  case (Cons3 a b c xs)
  have "length (rfc4648 tab ch (a # b # c # xs)) = (length xs + 2) div 3 * 4 + 4"
    by (simp add: rfc4648_simps Cons3)
  also have "\<dots> = ((length xs + 2) + 3) div 3 * 4" by (subst div_add_self2) simp_all
  also have "(length xs + 2) + 3 = length (a # b # c # xs) + 2" by simp
  finally show ?case .
qed (simp_all add: rfc4648_simps)

section \<open>The encoder\<close>

lemma base64_encode_loop_codes:
  "base64_encode_loop tab (a # b # c # rest) p = do {
     p \<leftarrow> put_code tab (code1 a) p; p \<leftarrow> put_code tab (code2 a b) p;
     p \<leftarrow> put_code tab (code3 b c) p; p \<leftarrow> put_code tab (code4 c) p;
     base64_encode_loop tab rest p }"
  by (simp only: base64_encode_loop.simps code1_def code2_def code3_def code4_def)

lemma base64_encode_tail_codes:
  "base64_encode_tail tab ch [] p = Some p"
  "base64_encode_tail tab ch [a] p = do {
     p \<leftarrow> put_code tab (code1 a) p; p \<leftarrow> put_code tab (code2 a 0) p; p \<leftarrow> putc ch p; putc ch p }"
  "base64_encode_tail tab ch [a, b] p = do {
     p \<leftarrow> put_code tab (code1 a) p; p \<leftarrow> put_code tab (code2 a b) p; p \<leftarrow> put_code tab (code3 b 0) p; putc ch p }"
  unfolding base64_encode_tail_def codes_of_zero by (simp_all add: code1_def code2_def)

lemma base64_encode_rfc:
  assumes "length tab = 64" "length ys + length (rfc4648 tab ch xs) \<le> length out"
  shows "do { (rest, p) \<leftarrow> base64_encode_loop tab xs (written out ys); base64_encode_tail tab ch rest p } =
         Some (written out (ys @ rfc4648 tab ch xs))"
  using assms(2)
proof (induction xs arbitrary: ys rule: list_induct_by3)
  case (Cons3 a b c xs)
  let ?zs = "ys @ [tab ! unat (code1 a), tab ! unat (code2 a b), tab ! unat (code3 b c), tab ! unat (code4 c)]"
  have "base64_encode_loop tab (a # b # c # xs) (written out ys) = base64_encode_loop tab xs (written out ?zs)"
    using Cons3.prems assms(1)
    by (simp add: base64_encode_loop_codes rfc4648_simps code_less del: base64_encode_loop.simps)
  moreover have "length ?zs + length (rfc4648 tab ch xs) \<le> length out"
    using Cons3.prems by (simp add: rfc4648_simps)
  ultimately show ?case
    by (simp add: Cons3.IH rfc4648_simps(4) del: base64_encode_loop.simps)
qed (use assms(1) in \<open>simp_all add: base64_encode_tail_codes rfc4648_simps code_less\<close>)

lemma length_base64_tab [simp]: "length (base64_tab websafe) = 64"
  by (simp add: base64_tab_def c_string_def)

text \<open>The buffer the codec works on: the one of the caller, or the one \<^verbatim>\<open>malloc\<close> returns.\<close>

definition codec_buffer :: "(size_t \<Rightarrow> u8 list option) \<Rightarrow> u8 list option \<Rightarrow> size_t \<Rightarrow> u8 list option" where
  "codec_buffer malloc dst n = (if dst \<noteq> None then dst else malloc n)"

lemma base64_encode_common_eq:
  assumes "codec_buffer malloc dst ((of_nat (length src) + 2) div 3 * 4 + 1) = Some out"
    "(length src + 2) div 3 * 4 < length out"
  shows "base64_encode_common malloc src dst websafe =
    (let s = rfc4648 (base64_tab websafe) (base64_pad websafe) src in
     Some (Some (s @ 0 # drop (Suc (length s)) out, length s)))"
proof -
  let ?tab = "base64_tab websafe" and ?ch = "base64_pad websafe"
  let ?s = "rfc4648 ?tab ?ch src"
  have len: "length ?s < length out" using assms(2) by (simp add: length_rfc4648)
  then have "do { (rest, p) \<leftarrow> base64_encode_loop ?tab src (out, 0); base64_encode_tail ?tab ?ch rest p } = Some (written out ?s)"
    using base64_encode_rfc [of ?tab "[]" ?ch src out] by (simp add: written_Nil)
  moreover have "base64_encode_common malloc src dst websafe =
      (do { (rest, p) \<leftarrow> base64_encode_loop ?tab src (out, 0); base64_encode_tail ?tab ?ch rest p }) \<bind>
      (\<lambda>p. array_put (fst p) (snd p) 0 \<bind> (\<lambda>out. Some (Some (out, snd p))))"
    using assms(1) by (cases "base64_encode_loop ?tab src (out, 0)")
      (auto simp: base64_encode_common_def codec_buffer_def)
  ultimately show ?thesis using written_nul [OF len] by (simp add: Let_def)
qed

section \<open>The decoder\<close>

declare base64_decode_loop.simps [simp del]

text \<open>What the decoder makes of a character.\<close>

definition code_of :: "u8 list \<Rightarrow> u8 \<Rightarrow> u8" where
  "code_of tab c = (case strchr tab c of Some k \<Rightarrow> of_nat k | None \<Rightarrow> 0)"

lemma base64_decode_step:
  assumes "i < length src" "length block = 4" "count < 3"
  shows "base64_decode_loop tab ch src i block count p =
    base64_decode_loop tab ch src (i + 1) (block[count := code_of tab (src ! i)]) (count + 1) p"
  using assms by (subst base64_decode_loop.simps) (simp add: array_put_def code_of_def)

lemma base64_decode_last:
  assumes "i < length src" "0 < i"
  shows "base64_decode_loop tab ch src i [b0, b1, b2, b3] 3 p = do {
     p \<leftarrow> putc (push_bit 2 b0 OR drop_bit 4 b1) p;
     if src ! (i - 1) = ch then Some p
     else do {
       p \<leftarrow> putc (push_bit 4 b1 OR drop_bit 2 b2) p;
       if src ! i = ch then Some p
       else do {
         p \<leftarrow> putc (push_bit 6 b2 OR code_of tab (src ! i)) p;
         base64_decode_loop tab ch src (i + 1) [b0, b1, b2, code_of tab (src ! i)] 0 p } } }"
proof -
  have "array_put [b0, b1, b2, b3] 3 v = Some [b0, b1, b2, v]" for v by (simp add: array_put_def numeral_3_eq_3)
  moreover have "array_get src (i - 1) = Some (src ! (i - 1))" using assms by (simp add: array_get_def)
  moreover have "[b0, b1, b2, v] ! 2 = b2" "[b0, b1, b2, v] ! 3 = v" for v :: u8 by simp_all
  ultimately show ?thesis
    using assms(1) by (subst base64_decode_loop.simps) (simp only: code_of_def [symmetric], simp cong: if_cong)
qed

text \<open>Four characters are one round.\<close>

lemma base64_decode_quad:
  assumes "length block = 4"
  shows "base64_decode_loop tab ch (pre @ [w, x, y, z] @ post) (length pre) block 0 p = do {
     p \<leftarrow> putc (push_bit 2 (code_of tab w) OR drop_bit 4 (code_of tab x)) p;
     if y = ch then Some p
     else do {
       p \<leftarrow> putc (push_bit 4 (code_of tab x) OR drop_bit 2 (code_of tab y)) p;
       if z = ch then Some p
       else do {
         p \<leftarrow> putc (push_bit 6 (code_of tab y) OR code_of tab z) p;
         base64_decode_loop tab ch (pre @ [w, x, y, z] @ post) (length pre + 4)
           [code_of tab w, code_of tab x, code_of tab y, code_of tab z] 0 p } } }"
proof -
  let ?src = "pre @ [w, x, y, z] @ post"
  obtain b0 b1 b2 b3 where block: "block = [b0, b1, b2, b3]"
    using assms by (auto simp: length_Suc_conv eval_nat_numeral)
  have at: "?src ! length pre = w" "?src ! (length pre + 1) = x" "?src ! (length pre + 2) = y" "?src ! (length pre + 3) = z"
    by (simp_all add: nth_append)
  have idx: "length pre + 3 - 1 = length pre + 2" "length pre + 3 + 1 = length pre + 4" by simp_all
  have "base64_decode_loop tab ch ?src (length pre) block 0 p =
      base64_decode_loop tab ch ?src (length pre + 1) [code_of tab w, b1, b2, b3] 1 p"
    using base64_decode_step [of "length pre" ?src block 0 tab ch p] at by (simp add: block)
  also have "\<dots> = base64_decode_loop tab ch ?src (length pre + 2) [code_of tab w, code_of tab x, b2, b3] 2 p"
    using base64_decode_step [of "length pre + 1" ?src "[code_of tab w, b1, b2, b3]" 1 tab ch p] at
    by (simp add: numeral_2_eq_2)
  also have "\<dots> = base64_decode_loop tab ch ?src (length pre + 3) [code_of tab w, code_of tab x, code_of tab y, b3] 3 p"
    using base64_decode_step [of "length pre + 2" ?src "[code_of tab w, code_of tab x, b2, b3]" 2 tab ch p] at
    by (simp add: numeral_2_eq_2 numeral_3_eq_3)
  also have "\<dots> = do {
     p \<leftarrow> putc (push_bit 2 (code_of tab w) OR drop_bit 4 (code_of tab x)) p;
     if ?src ! (length pre + 3 - 1) = ch then Some p
     else do {
       p \<leftarrow> putc (push_bit 4 (code_of tab x) OR drop_bit 2 (code_of tab y)) p;
       if ?src ! (length pre + 3) = ch then Some p
       else do {
         p \<leftarrow> putc (push_bit 6 (code_of tab y) OR code_of tab (?src ! (length pre + 3))) p;
         base64_decode_loop tab ch ?src (length pre + 3 + 1)
           [code_of tab w, code_of tab x, code_of tab y, code_of tab (?src ! (length pre + 3))] 0 p } } }"
    by (rule base64_decode_last) simp_all
  finally show ?thesis unfolding idx at .
qed

lemma strchr_nth:
  assumes "distinct tab" "0 \<notin> set tab" "i < length tab"
  shows "strchr tab (tab ! i) = Some i"
proof -
  have "takeWhile (\<lambda>x. x \<noteq> tab ! i) (tab @ [0]) = take i (tab @ [0])"
    by (rule takeWhile_eq_take_P_nth) (use assms in \<open>auto simp: nth_append nth_eq_iff_index_eq\<close>)
  then show ?thesis using assms(3) by (simp add: strchr_def)
qed

lemma code_of_nth: "distinct tab \<Longrightarrow> 0 \<notin> set tab \<Longrightarrow> unat k < length tab \<Longrightarrow> code_of tab (tab ! unat k) = k"
  by (simp add: code_of_def strchr_nth)

lemma decode_codes:
  fixes a b c :: u8
  shows "push_bit 2 (code1 a) OR drop_bit 4 (code2 a b) = a"
    "push_bit 4 (code2 a b) OR drop_bit 2 (code3 b c) = b"
    "push_bit 6 (code3 b c) OR code4 c = c"
  unfolding code1_def code2_def code3_def code4_def u8_masks
  by (rule u8_bit_cases; simp add: bit_simps u8_no_bit)+

lemma base64_decode_rfc:
  assumes "length tab = 64" "distinct tab" "0 \<notin> set tab" "ch \<notin> set tab"
    "length block = 4" "length ys + length xs \<le> length out"
  shows "base64_decode_loop tab ch (pre @ rfc4648 tab ch xs) (length pre) block 0 (written out ys) = Some (written out (ys @ xs))"
  using assms(5,6)
proof (induction xs arbitrary: pre block ys rule: list_induct_by3)
  case Nil
  then show ?case by (subst base64_decode_loop.simps) (simp add: rfc4648_simps)
next
  case (One a)
  have "base64_decode_loop tab ch (pre @ [tab ! unat (code1 a), tab ! unat (code2 a 0), ch, ch] @ []) (length pre) block 0 (written out ys) =
      Some (written out (ys @ [a]))"
    unfolding base64_decode_quad [OF One(1)] using One(2) assms(1-3)
    by (simp add: code_of_nth code_less decode_codes)
  then show ?case by (simp add: rfc4648_simps)
next
  case (Two a b)
  have ne: "tab ! unat (code3 b 0) \<noteq> ch" using assms(1,4) code_less(3) [of b 0] by (metis nth_mem)
  have "base64_decode_loop tab ch (pre @ [tab ! unat (code1 a), tab ! unat (code2 a b), tab ! unat (code3 b 0), ch] @ [])
      (length pre) block 0 (written out ys) = Some (written out (ys @ [a, b]))"
    unfolding base64_decode_quad [OF Two(1)] using Two(2) assms(1-3) ne
    by (simp add: code_of_nth code_less decode_codes)
  then show ?case by (simp add: rfc4648_simps)
next
  case (Cons3 a b c xs)
  let ?quad = "[tab ! unat (code1 a), tab ! unat (code2 a b), tab ! unat (code3 b c), tab ! unat (code4 c)]"
  have ne: "tab ! unat (code3 b c) \<noteq> ch" "tab ! unat (code4 c) \<noteq> ch"
    using assms(1,4) code_less(3) [of b c] code_less(4) [of c] by (metis nth_mem)+
  have "base64_decode_loop tab ch (pre @ ?quad @ rfc4648 tab ch xs) (length pre) block 0 (written out ys) =
      base64_decode_loop tab ch ((pre @ ?quad) @ rfc4648 tab ch xs) (length pre + 4) [code1 a, code2 a b, code3 b c, code4 c] 0
        (written out (ys @ [a, b, c]))"
    unfolding base64_decode_quad [OF Cons3.prems(1)] using Cons3.prems(2) assms(1-3) ne
    by (simp add: code_of_nth code_less decode_codes)
  also have "length pre + 4 = length (pre @ ?quad)" by simp
  also have "base64_decode_loop tab ch ((pre @ ?quad) @ rfc4648 tab ch xs) (length (pre @ ?quad))
      [code1 a, code2 a b, code3 b c, code4 c] 0 (written out (ys @ [a, b, c])) = Some (written out ((ys @ [a, b, c]) @ xs))"
    by (rule Cons3.IH) (use Cons3.prems in simp_all)
  finally show ?case by (simp add: rfc4648_simps)
qed

text \<open>The decoder writes three bytes for four characters, on every input.\<close>

lemma base64_decode_loop_bound:
  assumes "i \<le> length src" "length block = 4" "count < 4" "i mod 4 = count" "snd p = i div 4 * 3"
    "length src div 4 * 3 \<le> length (fst p)"
  shows "\<exists>q. base64_decode_loop tab ch src i block count p = Some q \<and> snd q \<le> length src div 4 * 3"
  using assms
proof (induction "length src - i" arbitrary: i block count p)
  case 0
  then have "i = length src" by simp
  then show ?case using "0.prems" by (subst base64_decode_loop.simps) simp
next
  case (Suc m)
  then have i: "i < length src" by simp
  show ?case
  proof (cases "count = 3")
    case False
    then have count: "count < 3" using Suc.prems(3) by simp
    then have "(i + 1) mod 4 = count + 1" "(i + 1) div 4 = i div 4"
      using Suc.prems(4) by (simp_all add: mod_Suc div_Suc)
    then show ?thesis
      unfolding base64_decode_step [OF i Suc.prems(2) count]
      by (intro Suc.hyps(1)) (use Suc.prems Suc.hyps(2) i count in simp_all)
  next
    case True
    obtain b0 b1 b2 b3 where block: "block = [b0, b1, b2, b3]"
      using Suc.prems(2) by (auto simp: length_Suc_conv eval_nat_numeral)
    have next_i: "(i + 1) mod 4 = 0" "(i + 1) div 4 = i div 4 + 1"
      using Suc.prems(4) True by (simp_all add: mod_Suc div_Suc)
    then have "i div 4 + 1 \<le> length src div 4" using i by (metis Suc_eq_plus1 Suc_leI div_le_mono)
    then have room: "i div 4 * 3 + 3 \<le> length src div 4 * 3" by simp
    have "i \<noteq> 0" using Suc.prems(4) True by (metis mod_0 zero_neq_numeral)
    have *: "\<exists>q. putc c r = Some q \<and> snd q = Suc (snd r) \<and> length (fst q) = length (fst r)"
      if "snd r < length src div 4 * 3" "length (fst r) = length (fst p)" for c r
      using that Suc.prems(6) putc_fits [of r c] putc_position by fastforce
    obtain q1 where q1: "putc (push_bit 2 b0 OR drop_bit 4 b1) p = Some q1" "snd q1 = Suc (snd p)" "length (fst q1) = length (fst p)"
      using * [of p] room Suc.prems(5) by fastforce
    obtain q2 where q2: "putc (push_bit 4 b1 OR drop_bit 2 b2) q1 = Some q2" "snd q2 = Suc (Suc (snd p))" "length (fst q2) = length (fst p)"
      using * [of q1] room Suc.prems(5) q1 by fastforce
    obtain q3 where q3: "putc (push_bit 6 b2 OR code_of tab (src ! i)) q2 = Some q3" "snd q3 = snd p + 3" "length (fst q3) = length (fst p)"
      using * [of q2] room Suc.prems(5) q2 by fastforce
    have "\<exists>q. base64_decode_loop tab ch src (i + 1) [b0, b1, b2, code_of tab (src ! i)] 0 q3 = Some q \<and> snd q \<le> length src div 4 * 3"
      by (intro Suc.hyps(1)) (use Suc.prems Suc.hyps(2) i next_i q3 in simp_all)
    then show ?thesis
      using base64_decode_last [of i src tab ch b0 b1 b2 b3 p] i \<open>i \<noteq> 0\<close> q1 q2 q3 room Suc.prems(5)
      by (auto simp: block True simp del: split_paired_Ex)
  qed
qed

text \<open>The sizes the codec asks for, without wrap-around.\<close>

lemma decode_size:
  assumes "n < 4294967296"
  shows "unat (of_nat n div 4 * 3 :: size_t) = n div 4 * 3"
proof -
  have "n div 4 * 3 < 4294967296" using div_times_less_eq_dividend [of n 4] assms by simp
  then show ?thesis using assms by (simp add: unat_word_ariths unat_div unat_size_t)
qed

lemma encode_size:
  assumes "n < 1073741824"
  shows "unat ((of_nat n + 2) div 3 * 4 + 1 :: size_t) = (n + 2) div 3 * 4 + 1"
    "unat (base64_encode_length (of_nat n)) = (n + 2) div 3 * 4"
proof -
  have "(n + 2) div 3 * 4 + 1 < 4294967296" using div_times_less_eq_dividend [of "n + 2" 3] assms by simp
  moreover have "unat (of_nat n + 2 :: size_t) = n + 2" using assms by (simp add: unat_word_ariths unat_size_t)
  ultimately show "unat ((of_nat n + 2) div 3 * 4 + 1 :: size_t) = (n + 2) div 3 * 4 + 1"
    "unat (base64_encode_length (of_nat n)) = (n + 2) div 3 * 4"
    by (simp_all only: base64_encode_length_def unat_word_ariths unat_div) simp_all
qed

section \<open>Properties\<close>

lemma base64_tab_distinct: "distinct (base64_tab False)" "0 \<notin> set (base64_tab False)" "0x3d \<notin> set (base64_tab False)"
  by (simp_all add: base64_tab_def c_string_def)



text \<open>
  C39: The decoder stays inside its memory. Whatever the input is, padded or not, of whatever
  length and with characters outside the alphabet, the decoder returns without a write outside
  the memory it asked for, in both forms.
\<close>

theorem base64_decode_safe:
  assumes "length src < 2 ^ 32" "\<forall>n m. malloc n = Some m \<longrightarrow> length m = unat n" "length block = 4"
  shows "\<exists>r. base64_decode_common malloc block src None websafe = Some r \<and>
    (\<forall>out n. r = Some (out, n) \<longrightarrow> n \<le> length src div 4 * 3)"
proof (cases "malloc (of_nat (length src) div 4 * 3)")
  case None
  then show ?thesis by (simp add: base64_decode_common_def)
next
  case (Some out)
  then have "length out = length src div 4 * 3" using assms(1,2) decode_size [of "length src"] by simp
  then obtain q where "base64_decode_loop (base64_tab websafe) (base64_pad websafe) src 0 block 0 (out, 0) = Some q"
    "snd q \<le> length src div 4 * 3"
    using base64_decode_loop_bound [of 0 src block 0 "(out, 0)" "base64_tab websafe" "base64_pad websafe"] assms(3) by auto
  then show ?thesis using Some by (auto simp: base64_decode_common_def)
qed

theorem base64_decode_safe_witness:
  "\<exists>r. base64_decode_common (\<lambda>n. Some (replicate (unat n) 0)) [0, 0, 0, 0] [61, 61, 0, 200, 65, 61] None True = Some r"
  using base64_decode_safe [of "[61, 61, 0, 200, 65, 61]" "\<lambda>n. Some (replicate (unat n) 0)" "[0, 0, 0, 0]" True] by auto

text \<open>
  The web-safe form is ambiguous. Two different inputs have the same encoding, because the
  table has the same character for the codes 62 and 63.
\<close>

theorem base64w_collision:
  "base64w_encode malloc [0xfb, 0xef, 0xbe] dst = base64w_encode malloc [0xff, 0xff, 0xff] dst"
proof -
  have "put_code (base64_tab True) 62 p = put_code (base64_tab True) 63 p" for p
    by (simp add: put_code_def array_get_def base64_tab_def c_string_def)
  then have same: "base64_encode_loop (base64_tab True) [0xfb, 0xef, 0xbe] p = base64_encode_loop (base64_tab True) [0xff, 0xff, 0xff] p" for p
    by simp
  show ?thesis by (simp add: same base64w_encode_def base64_encode_common_def del: base64_encode_loop.simps split: option.split)
qed

end
