(* ===== verification/CodecUrl.thy ===== *)
theory CodecUrl
  imports CodecBuffer
begin

text \<open>
  The URL codecs of \<^verbatim>\<open>netutils/codecs/urldecode.c\<close>: \<^verbatim>\<open>url_encode\<close> and \<^verbatim>\<open>url_decode\<close> on strings, with
  memory of their own; \<^verbatim>\<open>urlencode\<close> and \<^verbatim>\<open>urldecode\<close> on byte buffers, with functions for the
  lengths; \<^verbatim>\<open>urlrawencode\<close> and \<^verbatim>\<open>urlrawdecode\<close>, the latter in place.

  A string is the array it stands in, up to and beyond its terminator; a read or write outside
  an array is \<open>None\<close>. A \<^verbatim>\<open>char\<close> is its byte: no result depends on its sign.
\<close>

section \<open>Characters\<close>

definition isdigit :: "u8 \<Rightarrow> bool" where
  "isdigit c \<longleftrightarrow> 0x30 \<le> c \<and> c \<le> 0x39"

definition isalnum :: "u8 \<Rightarrow> bool" where
  "isalnum c \<longleftrightarrow> isdigit c \<or> 0x61 \<le> c \<and> c \<le> 0x7a \<or> 0x41 \<le> c \<and> c \<le> 0x5a"

definition tolower :: "u8 \<Rightarrow> u8" where
  "tolower c = (if 0x41 \<le> c \<and> c \<le> 0x5a then c + 0x20 else c)"

text \<open>The characters that stand for themselves: letters, digits and \<open>_ - . ~\<close>.\<close>

definition unreserved :: "u8 \<Rightarrow> bool" where
  "unreserved c \<longleftrightarrow> isalnum c \<or> c = 0x5f \<or> c = 0x2d \<or> c = 0x2e \<or> c = 0x7e"

definition IS_HEX_CHAR :: "u8 \<Rightarrow> bool" where
  "IS_HEX_CHAR ch \<longleftrightarrow> 0x30 \<le> ch \<and> ch \<le> 0x39 \<or> 0x61 \<le> ch \<and> ch \<le> 0x66 \<or> 0x41 \<le> ch \<and> ch \<le> 0x46"

definition HEX_VALUE :: "u8 \<Rightarrow> u8" where
  "HEX_VALUE ch =
     (if 0x30 \<le> ch \<and> ch \<le> 0x39 then ch - 0x30
      else if 0x61 \<le> ch \<and> ch \<le> 0x66 then ch - 0x61 + 10
      else ch - 0x41 + 10)"

definition from_hex :: "u8 \<Rightarrow> u8" where
  "from_hex ch = (if isdigit ch then ch - 0x30 else tolower ch - 0x61 + 10)"

definition to_hex :: "u8 \<Rightarrow> u8" where
  "to_hex code = c_string ''0123456789abcdef'' ! unat (code AND 15)"

text \<open>The two digits \<^verbatim>\<open>int2h\<close> writes, the second one first, and its terminator.\<close>

definition int2h :: "u8 \<Rightarrow> nat \<Rightarrow> u8 list \<Rightarrow> u8 list option" where
  "int2h c hstr buf = do {
     buf \<leftarrow> array_put buf (hstr + 1) (if c AND 0xf > 9 then (c AND 0xf) - 10 + 0x61 else (c AND 0xf) + 0x30);
     let c = drop_bit 4 c AND 0xf;
     buf \<leftarrow> array_put buf hstr (if c > 9 then c - 10 + 0x61 else c + 0x30);
     array_put buf (hstr + 2) 0
   }"

definition h2int :: "u8 \<Rightarrow> u8" where
  "h2int c =
     (if 0x30 \<le> c \<and> c \<le> 0x39 then c - 0x30
      else if 0x61 \<le> c \<and> c \<le> 0x66 then c - 0x61 + 10
      else if 0x41 \<le> c \<and> c \<le> 0x46 then c - 0x41 + 10
      else 0)"

section \<open>Strings with memory of their own\<close>

definition strlen :: "u8 list \<Rightarrow> nat option" where
  "strlen s = (if 0 \<in> set s then Some (length (takeWhile (\<lambda>c. c \<noteq> 0) s)) else None)"

function url_encode_loop :: "u8 list \<Rightarrow> nat \<Rightarrow> cursor \<Rightarrow> cursor option" where
  "url_encode_loop str i pbuf =
     (if i < length str
      then if str ! i = 0 then Some pbuf
        else do {
          pbuf \<leftarrow>
            (if isalnum (str ! i) \<or> str ! i = 0x2d \<or> str ! i = 0x5f \<or> str ! i = 0x2e \<or> str ! i = 0x7e
             then putc (str ! i) pbuf
             else if str ! i = 0x20 then putc 0x2b pbuf
             else do {
               pbuf \<leftarrow> putc 0x25 pbuf;
               pbuf \<leftarrow> putc (to_hex (drop_bit 4 (str ! i))) pbuf;
               putc (to_hex (str ! i AND 15)) pbuf
             });
          url_encode_loop str (i + 1) pbuf
        }
      else None)"
  by pat_completeness auto

termination
  by (relation "measure (\<lambda>(str, i, pbuf). length str - i)") auto

text \<open>The result of \<^verbatim>\<open>malloc\<close> is not checked: a null pointer is written through.\<close>

definition url_encode :: "(size_t \<Rightarrow> u8 list option) \<Rightarrow> u8 list \<Rightarrow> u8 list option" where
  "url_encode malloc str = do {
     n \<leftarrow> strlen str;
     buf \<leftarrow> malloc (of_nat n * 3 + 1);
     p \<leftarrow> url_encode_loop str 0 (buf, 0);
     array_put (fst p) (snd p) 0
   }"

function url_decode_loop :: "u8 list \<Rightarrow> nat \<Rightarrow> cursor \<Rightarrow> cursor option" where
  "url_decode_loop str i pbuf =
     (if i < length str
      then if str ! i = 0 then Some pbuf
        else if str ! i = 0x25 then do {
          a \<leftarrow> array_get str (i + 1);
          b \<leftarrow> (if a \<noteq> 0 then array_get str (i + 2) else Some 0);
          if a \<noteq> 0 \<and> b \<noteq> 0 then do {
            pbuf \<leftarrow> putc (push_bit 4 (from_hex a) OR from_hex b) pbuf;
            url_decode_loop str (i + 3) pbuf
          }
          else url_decode_loop str (i + 1) pbuf
        }
        else do {
          pbuf \<leftarrow> putc (if str ! i = 0x2b then 0x20 else str ! i) pbuf;
          url_decode_loop str (i + 1) pbuf
        }
      else None)"
  by pat_completeness auto

termination
  by (relation "measure (\<lambda>(str, i, pbuf). length str - i)") auto

definition url_decode :: "(size_t \<Rightarrow> u8 list option) \<Rightarrow> u8 list \<Rightarrow> u8 list option" where
  "url_decode malloc str = do {
     n \<leftarrow> strlen str;
     buf \<leftarrow> malloc (of_nat n + 1);
     p \<leftarrow> url_decode_loop str 0 (buf, 0);
     array_put (fst p) (snd p) 0
   }"

section \<open>Byte buffers\<close>

text \<open>The source is the list of the \<^verbatim>\<open>src_len\<close> bytes; the result is the destination and \<^verbatim>\<open>*dest_len\<close>.\<close>

definition hex_chars :: "u8 list" where
  "hex_chars = c_string ''0123456789ABCDEF''"

fun urlencode_loop :: "u8 list \<Rightarrow> cursor \<Rightarrow> cursor option" where
  "urlencode_loop [] pDest = Some pDest"
| "urlencode_loop (c # src) pDest = do {
     pDest \<leftarrow>
       (if unreserved c then putc c pDest
        else if c = 0x20 then putc 0x2b pDest
        else do {
          pDest \<leftarrow> putc 0x25 pDest;
          pDest \<leftarrow> putc (hex_chars ! unat (drop_bit 4 c)) pDest;
          putc (hex_chars ! unat (c AND 0x0f)) pDest
        });
     urlencode_loop src pDest
   }"

definition urlencode :: "u8 list \<Rightarrow> u8 list \<Rightarrow> (u8 list \<times> nat) option" where
  "urlencode src dest = do {
     p \<leftarrow> urlencode_loop src (dest, 0);
     dest \<leftarrow> array_put (fst p) (snd p) 0;
     Some (dest, snd p)
   }"

function urldecode_loop :: "u8 list \<Rightarrow> cursor \<Rightarrow> cursor option" where
  "urldecode_loop [] pDest = Some pDest"
| "urldecode_loop (c # src) pDest =
     (if c = 0x25 \<and> 2 \<le> length src
      then if IS_HEX_CHAR (src ! 0) \<and> IS_HEX_CHAR (src ! 1)
        then do {
          pDest \<leftarrow> putc (push_bit 4 (HEX_VALUE (src ! 0)) OR HEX_VALUE (src ! 1)) pDest;
          urldecode_loop (drop 2 src) pDest
        }
        else do { pDest \<leftarrow> putc c pDest; urldecode_loop src pDest }
      else if c = 0x2b then do { pDest \<leftarrow> putc 0x20 pDest; urldecode_loop src pDest }
      else do { pDest \<leftarrow> putc c pDest; urldecode_loop src pDest })"
  by pat_completeness auto

termination
  by (relation "measure (\<lambda>(src, pDest). length src)") auto

definition urldecode :: "u8 list \<Rightarrow> u8 list \<Rightarrow> (u8 list \<times> nat) option" where
  "urldecode src dest = do {
     p \<leftarrow> urldecode_loop src (dest, 0);
     dest \<leftarrow> array_put (fst p) (snd p) 0;
     Some (dest, snd p)
   }"

fun urlencode_len :: "u8 list \<Rightarrow> nat" where
  "urlencode_len [] = 0"
| "urlencode_len (c # src) = (if unreserved c \<or> c = 0x20 then 1 else 3) + urlencode_len src"

function urldecode_len :: "u8 list \<Rightarrow> nat" where
  "urldecode_len [] = 0"
| "urldecode_len (c # src) =
     (if c = 0x25 \<and> 2 \<le> length src \<and> IS_HEX_CHAR (src ! 0) \<and> IS_HEX_CHAR (src ! 1)
      then 1 + urldecode_len (drop 2 src)
      else 1 + urldecode_len src)"
  by pat_completeness auto

termination
  by (relation "measure length") auto

section \<open>Raw strings\<close>

text \<open>Decoding in place: \<open>i\<close> is the pointer \<^verbatim>\<open>urlbuf\<close>, \<open>d\<close> the pointer \<^verbatim>\<open>dst\<close>.\<close>

function urlrawdecode_loop :: "u8 list \<Rightarrow> nat \<Rightarrow> nat \<Rightarrow> u8 list option" where
  "urlrawdecode_loop buf i d =
     (if i < length buf
      then if buf ! i = 0 then array_put buf d 0
        else if buf ! i = 0x25 then do {
          a \<leftarrow> array_get buf (i + 1);
          b \<leftarrow> array_get buf (i + 2);
          if d < length buf then urlrawdecode_loop (buf[d := push_bit 4 (h2int a) OR h2int b]) (i + 3) (d + 1) else None
        }
        else if d < length buf
        then urlrawdecode_loop (buf[d := if buf ! i = 0x2b then 0x20 else buf ! i]) (i + 1) (d + 1)
        else None
      else None)"
  by pat_completeness auto

termination
  by (relation "measure (\<lambda>(buf, i, d). length buf - i)") auto

definition urlrawdecode :: "u8 list \<Rightarrow> u8 list option" where
  "urlrawdecode urlbuf = urlrawdecode_loop urlbuf 0 0"

function urlrawencode_loop :: "u8 list \<Rightarrow> nat \<Rightarrow> cursor \<Rightarrow> cursor option" where
  "urlrawencode_loop str i urlbuf =
     (if i < length str
      then if str ! i = 0 then Some urlbuf
        else if str ! i = 0x20 \<or> isalnum (str ! i) \<or> str ! i = 0x5f \<or> str ! i = 0x2d \<or> str ! i = 0x2e \<or> str ! i = 0x7e
        then do {
          urlbuf \<leftarrow> putc (if str ! i = 0x20 then 0x2b else str ! i) urlbuf;
          urlrawencode_loop str (i + 1) urlbuf
        }
        else do {
          urlbuf \<leftarrow> putc 0x25 urlbuf;
          buf \<leftarrow> int2h (str ! i) (snd urlbuf) (fst urlbuf);
          urlrawencode_loop str (i + 1) (buf, snd urlbuf + 2)
        }
      else None)"
  by pat_completeness auto

termination
  by (relation "measure (\<lambda>(str, i, urlbuf). length str - i)") auto

definition urlrawencode :: "u8 list \<Rightarrow> u8 list \<Rightarrow> u8 list option" where
  "urlrawencode str urlbuf = do {
     p \<leftarrow> urlrawencode_loop str 0 (urlbuf, 0);
     array_put (fst p) (snd p) 0
   }"

section \<open>Percent encoding\<close>

text \<open>The text of a string of bytes, with the hexadecimal digits \<open>hex\<close>.\<close>

definition pct_enc :: "u8 list \<Rightarrow> u8 \<Rightarrow> u8 list" where
  "pct_enc hex c = (if unreserved c then [c] else if c = 0x20 then [0x2b]
     else [0x25, hex ! unat (drop_bit 4 c), hex ! unat (c AND 0x0f)])"

definition url_text :: "u8 list \<Rightarrow> u8 list \<Rightarrow> u8 list" where
  "url_text hex xs = concat (map (pct_enc hex) xs)"

definition lower_hex :: "u8 list" where
  "lower_hex = c_string ''0123456789abcdef''"

lemma url_text_simps [simp]: "url_text hex [] = []" "url_text hex (c # xs) = pct_enc hex c @ url_text hex xs"
  by (simp_all add: url_text_def)

lemma upper_digits:
  "list_all (\<lambda>n. IS_HEX_CHAR (hex_chars ! n) \<and> HEX_VALUE (hex_chars ! n) = of_nat n \<and> hex_chars ! n \<noteq> 0) [0..<16]"
  by code_simp

lemma lower_digits:
  "list_all (\<lambda>n. from_hex (lower_hex ! n) = of_nat n \<and> h2int (lower_hex ! n) = of_nat n \<and> lower_hex ! n \<noteq> 0) [0..<16]"
  by code_simp

lemma raw_digits:
  "list_all (\<lambda>n. (if (of_nat n :: u8) > 9 then of_nat n - 10 + 0x61 else of_nat n + 0x30) = lower_hex ! n) [0..<16]"
  by code_simp

lemma nibble_less: "unat (drop_bit 4 c :: u8) < 16" "unat ((c :: u8) AND 0x0f) < 16"
proof -
  have "unat (drop_bit 4 c) = unat c div 16" by (simp add: drop_bit_eq_div unat_div)
  then show "unat (drop_bit 4 c :: u8) < 16" using unat_u8_less [of c] by (simp add: less_mult_imp_div_less)
  have "unat (c AND 0x0f) = unat c mod 16" unfolding u8_masks by (simp only: unsigned_take_bit_eq) (simp add: take_bit_eq_mod)
  then show "unat (c AND 0x0f) < 16" by simp
qed

lemma url_nibbles_join: "push_bit 4 (drop_bit 4 c) OR (c AND 0x0f) = (c :: u8)"
  unfolding u8_masks by (rule u8_bit_cases) (simp_all add: bit_simps)

lemma digit_facts:
  assumes "unat k < 16"
  shows "IS_HEX_CHAR (hex_chars ! unat k)" "HEX_VALUE (hex_chars ! unat k) = k"
    "from_hex (lower_hex ! unat k) = k" "h2int (lower_hex ! unat k) = k" "lower_hex ! unat k \<noteq> 0"
    "(if k > 9 then k - 10 + 0x61 else k + 0x30) = lower_hex ! unat k"
proof -
  have k: "unat k \<in> set [0..<16]" using assms by simp
  have id: "of_nat (unat k) = k" by simp
  show "IS_HEX_CHAR (hex_chars ! unat k)" "HEX_VALUE (hex_chars ! unat k) = k"
    using upper_digits [unfolded list_all_iff, rule_format, OF k] by simp_all
  show "from_hex (lower_hex ! unat k) = k" "h2int (lower_hex ! unat k) = k" "lower_hex ! unat k \<noteq> 0"
    using lower_digits [unfolded list_all_iff, rule_format, OF k] by simp_all
  show "(if k > 9 then k - 10 + 0x61 else k + 0x30) = lower_hex ! unat k"
    using raw_digits [unfolded list_all_iff, rule_format, OF k] unfolding id .
qed

lemma digit_join:
  "push_bit 4 (HEX_VALUE (hex_chars ! unat (drop_bit 4 c))) OR HEX_VALUE (hex_chars ! unat (c AND 0x0f)) = c"
  "push_bit 4 (from_hex (lower_hex ! unat (drop_bit 4 c))) OR from_hex (lower_hex ! unat (c AND 0x0f)) = c"
  "push_bit 4 (h2int (lower_hex ! unat (drop_bit 4 c))) OR h2int (lower_hex ! unat (c AND 0x0f)) = c"
  by (simp_all only: digit_facts nibble_less url_nibbles_join)

lemma unreserved_plain: "unreserved c \<Longrightarrow> c \<noteq> 0x25 \<and> c \<noteq> 0x2b \<and> c \<noteq> 0x20 \<and> c \<noteq> 0"
  by (auto simp: unreserved_def isalnum_def isdigit_def)

section \<open>Byte buffers\<close>

lemma urlencode_loop_eq:
  "urlencode_loop xs (written out ys) =
     (if xs = [] \<or> length ys + urlencode_len xs \<le> length out then Some (written out (ys @ url_text hex_chars xs)) else None)"
proof (induction xs arbitrary: ys)
  case (Cons c xs)
  then show ?case by (auto simp: putc_written pct_enc_def)
qed simp

lemma length_url_text: "length (url_text hex xs) = urlencode_len xs"
  by (induction xs) (auto simp: pct_enc_def)

lemma written_end:
  "(array_put (fst (written out ys)) (snd (written out ys)) 0 \<bind> (\<lambda>dest. Some (dest, snd (written out ys)))) =
   (if length ys < length out then Some (ys @ 0 # drop (Suc (length ys)) out, length ys) else None)"
  using written_nul(1) [of ys out 0] by (auto simp: written_def array_put_def)

text \<open>The buffer that is just large enough is large enough, and no smaller one is.\<close>

lemma urlencode_eq:
  "urlencode xs dest =
     (if urlencode_len xs < length dest
      then Some (url_text hex_chars xs @ 0 # drop (Suc (urlencode_len xs)) dest, urlencode_len xs) else None)"
proof -
  have "urlencode xs dest = urlencode_loop xs (written dest []) \<bind>
      (\<lambda>p. array_put (fst p) (snd p) 0 \<bind> (\<lambda>dest. Some (dest, snd p)))"
    by (simp add: urlencode_def written_Nil)
  then show ?thesis by (simp add: urlencode_loop_eq written_end length_url_text)
qed

text \<open>What percent decoding gives; \<^verbatim>\<open>%\<close> without two digits stands for itself.\<close>

function url_plain :: "u8 list \<Rightarrow> u8 list" where
  "url_plain [] = []"
| "url_plain (c # src) =
     (if c = 0x25 \<and> 2 \<le> length src \<and> IS_HEX_CHAR (src ! 0) \<and> IS_HEX_CHAR (src ! 1)
      then (push_bit 4 (HEX_VALUE (src ! 0)) OR HEX_VALUE (src ! 1)) # url_plain (drop 2 src)
      else (if c = 0x2b then 0x20 else c) # url_plain src)"
  by pat_completeness auto

termination
  by (relation "measure length") auto

lemma length_url_plain: "length (url_plain src) = urldecode_len src"
  by (induction src rule: url_plain.induct) auto

lemma urldecode_loop_eq:
  "urldecode_loop src (written out ys) =
     (if src = [] \<or> length ys + urldecode_len src \<le> length out then Some (written out (ys @ url_plain src)) else None)"
proof (induction src arbitrary: ys rule: url_plain.induct)
  case (2 c src)
  consider (hex) "c = 0x25 \<and> 2 \<le> length src \<and> IS_HEX_CHAR (src ! 0) \<and> IS_HEX_CHAR (src ! 1)"
    | (plain) "\<not> (c = 0x25 \<and> 2 \<le> length src \<and> IS_HEX_CHAR (src ! 0) \<and> IS_HEX_CHAR (src ! 1))" by blast
  then show ?case
  proof cases
    case hex
    then show ?thesis using "2.IH"(1) [OF hex] by (auto simp: putc_written)
  next
    case plain
    then have "urldecode_loop (c # src) (written out ys) =
        putc (if c = 0x2b then 0x20 else c) (written out ys) \<bind> urldecode_loop src" by auto
    then show ?thesis using plain "2.IH"(2) [OF plain] by (auto simp: putc_written)
  qed
qed simp

lemma urldecode_eq:
  "urldecode src dest =
     (if urldecode_len src < length dest
      then Some (url_plain src @ 0 # drop (Suc (urldecode_len src)) dest, urldecode_len src) else None)"
proof -
  have "urldecode src dest = urldecode_loop src (written dest []) \<bind>
      (\<lambda>p. array_put (fst p) (snd p) 0 \<bind> (\<lambda>dest. Some (dest, snd p)))"
    by (simp add: urldecode_def written_Nil)
  then show ?thesis by (simp add: urldecode_loop_eq written_end length_url_plain)
qed

lemma url_plain_text: "url_plain (url_text hex_chars xs) = xs"
proof (induction xs)
  case (Cons c xs)
  then show ?case
    using unreserved_plain [of c] digit_facts(1) nibble_less digit_join(1) [of c]
    by (auto simp: pct_enc_def)
qed simp

section \<open>Strings\<close>

declare url_encode_loop.simps [simp del] url_decode_loop.simps [simp del]
  urlrawdecode_loop.simps [simp del] urlrawencode_loop.simps [simp del]

lemma nth_here: "(pre @ c # rest) ! length pre = c"
  by (simp add: nth_append)

lemma unreserved_alnum:
  "isalnum c \<or> c = 0x2d \<or> c = 0x5f \<or> c = 0x2e \<or> c = 0x7e \<longleftrightarrow> unreserved c"
  "c = 0x20 \<or> isalnum c \<or> c = 0x5f \<or> c = 0x2d \<or> c = 0x2e \<or> c = 0x7e \<longleftrightarrow> c = 0x20 \<or> unreserved c"
  by (auto simp: unreserved_def)

lemma to_hex_lower: "to_hex (drop_bit 4 c) = lower_hex ! unat (drop_bit 4 c)" "to_hex (c AND 15) = lower_hex ! unat (c AND 15)"
proof -
  have "drop_bit 4 c AND 15 = drop_bit 4 c" unfolding u8_masks by (rule u8_bit_cases) (simp_all add: bit_simps u8_no_bit)
  then show "to_hex (drop_bit 4 c) = lower_hex ! unat (drop_bit 4 c)" "to_hex (c AND 15) = lower_hex ! unat (c AND 15)"
    by (simp_all add: to_hex_def lower_hex_def)
qed

lemma url_encode_loop_eq:
  assumes "0 \<notin> set xs" "length ys + length (url_text lower_hex xs) \<le> length out"
  shows "url_encode_loop (pre @ xs @ 0 # rest) (length pre) (written out ys) = Some (written out (ys @ url_text lower_hex xs))"
  using assms
proof (induction xs arbitrary: pre ys)
  case Nil
  then show ?case by (subst url_encode_loop.simps) (simp add: nth_here)
next
  case (Cons c xs)
  have "url_encode_loop (pre @ (c # xs) @ 0 # rest) (length pre) (written out ys) =
      url_encode_loop ((pre @ [c]) @ xs @ 0 # rest) (length (pre @ [c])) (written out (ys @ pct_enc lower_hex c))"
    using Cons.prems by (subst url_encode_loop.simps)
      (auto simp: nth_here unreserved_alnum to_hex_lower pct_enc_def)
  also have "\<dots> = Some (written out ((ys @ pct_enc lower_hex c) @ url_text lower_hex xs))"
    by (rule Cons.IH) (use Cons.prems in simp_all)
  finally show ?case by simp
qed

lemma url_decode_plain:
  "i < length str \<Longrightarrow> str ! i \<noteq> 0 \<Longrightarrow> str ! i \<noteq> 0x25 \<Longrightarrow>
   url_decode_loop str i p = putc (if str ! i = 0x2b then 0x20 else str ! i) p \<bind> url_decode_loop str (i + 1)"
  by (subst url_decode_loop.simps) simp

lemma url_decode_pct:
  "i + 2 < length str \<Longrightarrow> str ! i = 0x25 \<Longrightarrow> str ! (i + 1) \<noteq> 0 \<Longrightarrow> str ! (i + 2) \<noteq> 0 \<Longrightarrow>
   url_decode_loop str i p =
   putc (push_bit 4 (from_hex (str ! (i + 1))) OR from_hex (str ! (i + 2))) p \<bind> url_decode_loop str (i + 3)"
  by (subst url_decode_loop.simps) (simp add: array_get_def)

lemma url_decode_step:
  assumes "c \<noteq> 0"
  shows "url_decode_loop (pre @ pct_enc lower_hex c @ rest) (length pre) p =
    putc c p \<bind> url_decode_loop (pre @ pct_enc lower_hex c @ rest) (length pre + length (pct_enc lower_hex c))"
proof -
  let ?e = "pct_enc lower_hex c" and ?i = "length pre"
  let ?str = "pre @ ?e @ rest"
  have here: "?str ! (?i + k) = (?e @ rest) ! k" for k by (simp add: nth_append)
  consider (self) "unreserved c" | (space) "c = 0x20" | (pct) "\<not> unreserved c" "c \<noteq> 0x20" by blast
  then show ?thesis
  proof cases
    case self
    then have "?e = [c]" by (simp add: pct_enc_def)
    then show ?thesis using url_decode_plain [of ?i ?str p] here [of 0] unreserved_plain [OF self] by simp
  next
    case space
    then have "?e = [0x2b]" by (simp add: pct_enc_def unreserved_def isalnum_def isdigit_def)
    then show ?thesis using url_decode_plain [of ?i ?str p] here [of 0] space by simp
  next
    case pct
    then have e: "?e = [0x25, lower_hex ! unat (drop_bit 4 c), lower_hex ! unat (c AND 0x0f)]" by (simp add: pct_enc_def)
    have at: "?str ! ?i = 0x25" "?str ! (?i + 1) = lower_hex ! unat (drop_bit 4 c)" "?str ! (?i + 2) = lower_hex ! unat (c AND 0x0f)"
      using here [of 0] here [of 1] here [of 2] by (simp_all add: e)
    have "url_decode_loop ?str ?i p = putc c p \<bind> url_decode_loop ?str (?i + 3)"
      using url_decode_pct [of ?i ?str p] digit_facts(5) [OF nibble_less(1)] digit_facts(5) [OF nibble_less(2)]
      unfolding at digit_join(2) by (simp add: e)
    moreover have "length ?e = 3" by (simp add: e)
    ultimately show ?thesis by metis
  qed
qed

lemma url_decode_loop_eq:
  assumes "0 \<notin> set xs" "length ys + length xs \<le> length out"
  shows "url_decode_loop (pre @ url_text lower_hex xs @ 0 # rest) (length pre) (written out ys) = Some (written out (ys @ xs))"
  using assms
proof (induction xs arbitrary: pre ys)
  case Nil
  then show ?case by (subst url_decode_loop.simps) (simp add: nth_here)
next
  case (Cons c xs)
  let ?e = "pct_enc lower_hex c"
  have "c \<noteq> 0" using Cons.prems by auto
  then have "url_decode_loop (pre @ url_text lower_hex (c # xs) @ 0 # rest) (length pre) (written out ys) =
      url_decode_loop ((pre @ ?e) @ url_text lower_hex xs @ 0 # rest) (length (pre @ ?e)) (written out (ys @ [c]))"
    using Cons.prems url_decode_step [of c pre "url_text lower_hex xs @ 0 # rest"] by simp
  also have "\<dots> = Some (written out ((ys @ [c]) @ xs))"
    by (rule Cons.IH) (use Cons.prems in simp_all)
  finally show ?case by simp
qed

text \<open>Decoding in place: the decoded part, then bytes already read, then the text.\<close>

lemma update_here: "zs \<noteq> [] \<Longrightarrow> (xs @ zs)[length xs := v] = (xs @ [v]) @ tl zs"
  by (cases zs) simp_all

lemma urlrawdecode_plain:
  "i < length buf \<Longrightarrow> d < length buf \<Longrightarrow> buf ! i \<noteq> 0 \<Longrightarrow> buf ! i \<noteq> 0x25 \<Longrightarrow>
   urlrawdecode_loop buf i d = urlrawdecode_loop (buf[d := if buf ! i = 0x2b then 0x20 else buf ! i]) (i + 1) (d + 1)"
  by (subst urlrawdecode_loop.simps) simp

lemma urlrawdecode_pct:
  "i + 2 < length buf \<Longrightarrow> d < length buf \<Longrightarrow> buf ! i = 0x25 \<Longrightarrow>
   urlrawdecode_loop buf i d =
   urlrawdecode_loop (buf[d := push_bit 4 (h2int (buf ! (i + 1))) OR h2int (buf ! (i + 2))]) (i + 3) (d + 1)"
  by (subst urlrawdecode_loop.simps) (simp add: array_get_def)

lemma urlrawdecode_step:
  assumes "c \<noteq> 0"
  shows "urlrawdecode_loop (xs @ gap @ pct_enc lower_hex c @ rest) (length xs + length gap) (length xs) =
    urlrawdecode_loop ((xs @ [c]) @ tl (gap @ pct_enc lower_hex c) @ rest)
      (length xs + length gap + length (pct_enc lower_hex c)) (length xs + 1)"
proof -
  let ?e = "pct_enc lower_hex c" and ?i = "length xs + length gap"
  let ?buf = "xs @ gap @ ?e @ rest"
  have upd: "?buf[length xs := v] = (xs @ [v]) @ tl (gap @ ?e) @ rest" for v
    by (cases gap) (simp_all add: pct_enc_def)
  have here: "?buf ! (?i + k) = (?e @ rest) ! k" for k by (simp add: nth_append)
  consider (self) "unreserved c" | (space) "c = 0x20" | (pct) "\<not> unreserved c" "c \<noteq> 0x20" by blast
  then show ?thesis
  proof cases
    case self
    then have "?e = [c]" by (simp add: pct_enc_def)
    then show ?thesis
      using urlrawdecode_plain [of ?i ?buf "length xs"] here [of 0] upd [of c] unreserved_plain [OF self] by simp
  next
    case space
    then have "?e = [0x2b]" by (simp add: pct_enc_def unreserved_def isalnum_def isdigit_def)
    then show ?thesis
      using urlrawdecode_plain [of ?i ?buf "length xs"] here [of 0] upd [of c] space by simp
  next
    case pct
    then have e: "?e = [0x25, lower_hex ! unat (drop_bit 4 c), lower_hex ! unat (c AND 0x0f)]" by (simp add: pct_enc_def)
    have at: "?buf ! ?i = 0x25" "?buf ! (?i + 1) = lower_hex ! unat (drop_bit 4 c)" "?buf ! (?i + 2) = lower_hex ! unat (c AND 0x0f)"
      using here [of 0] here [of 1] here [of 2] by (simp_all add: e)
    have "urlrawdecode_loop ?buf ?i (length xs) = urlrawdecode_loop (?buf[length xs := c]) (?i + 3) (length xs + 1)"
      using urlrawdecode_pct [of ?i ?buf "length xs"] unfolding at digit_join(3) by (simp add: e)
    moreover have "length ?e = 3" by (simp add: e)
    ultimately show ?thesis unfolding upd by metis
  qed
qed

lemma urlrawdecode_loop_eq:
  assumes "0 \<notin> set xs"
  shows "\<exists>r. urlrawdecode_loop (ys @ gap @ url_text lower_hex xs @ 0 # rest) (length ys + length gap) (length ys) = Some r \<and>
    take (length ys + length xs + 1) r = ys @ xs @ [0]"
  using assms
proof (induction xs arbitrary: ys gap)
  case Nil
  then show ?case
    by (subst urlrawdecode_loop.simps) (cases gap; simp add: nth_append array_put_def list_update_append)
next
  case (Cons c xs)
  let ?e = "pct_enc lower_hex c"
  have pos: "length ys + length gap + length ?e = length (ys @ [c]) + length (tl (gap @ ?e))"
    by (cases gap) (simp_all add: pct_enc_def)
  have "c \<noteq> 0" using Cons.prems by auto
  from urlrawdecode_step [OF this, of ys gap "url_text lower_hex xs @ 0 # rest"]
  have "urlrawdecode_loop (ys @ gap @ url_text lower_hex (c # xs) @ 0 # rest) (length ys + length gap) (length ys) =
      urlrawdecode_loop ((ys @ [c]) @ tl (gap @ ?e) @ url_text lower_hex xs @ 0 # rest)
        (length (ys @ [c]) + length (tl (gap @ ?e))) (length (ys @ [c]))" unfolding pos by simp
  then show ?case using Cons.IH [of "ys @ [c]" "tl (gap @ ?e)"] Cons.prems by simp
qed

text \<open>\<^verbatim>\<open>int2h\<close> writes its terminator behind the digits; the next character overwrites it.\<close>

lemma int2h_written:
  assumes "length ys + 2 < length out"
  shows "int2h c (length ys) (fst (written out ys)) =
    Some (fst (written (out[length ys + 2 := 0]) (ys @ [lower_hex ! unat (drop_bit 4 c), lower_hex ! unat (c AND 0x0f)])))"
proof -
  obtain a b z zs where d: "drop (length ys) out = a # b # z # zs"
    using assms by (metis Cons_nth_drop_Suc Suc_lessD add_2_eq_Suc')
  have "drop (length ys + 2) out = drop 2 (drop (length ys) out)" by (simp add: add.commute)
  then have "drop (length ys + 2) (out[length ys + 2 := 0]) = 0 # zs" by (simp only: drop_update_swap d) simp
  moreover have "drop_bit 4 c AND 0x0f = drop_bit 4 c"
    unfolding u8_masks by (rule u8_bit_cases) (simp_all add: bit_simps u8_no_bit)
  ultimately show ?thesis
    using digit_facts(6) [OF nibble_less(1), of c] digit_facts(6) [OF nibble_less(2), of c]
    by (simp add: int2h_def written_def d array_put_def list_update_append numeral_2_eq_2 Let_def)
qed

lemma urlrawencode_step:
  assumes "c \<noteq> 0" "length ys + length (pct_enc lower_hex c) < length out"
  shows "\<exists>out'. length out' = length out \<and> urlrawencode_loop (pre @ c # rest) (length pre) (written out ys) =
    urlrawencode_loop (pre @ c # rest) (length pre + 1) (written out' (ys @ pct_enc lower_hex c))"
proof (cases "c = 0x20 \<or> unreserved c")
  case True
  then have "pct_enc lower_hex c = [if c = 0x20 then 0x2b else c]" using unreserved_plain [of c] by (auto simp: pct_enc_def)
  then show ?thesis
    using True assms unfolding urlrawencode_loop.simps [of "pre @ c # rest" "length pre" "written out ys"]
    by (auto simp: nth_here unreserved_alnum)
next
  case False
  then have e: "pct_enc lower_hex c = [0x25] @ [lower_hex ! unat (drop_bit 4 c), lower_hex ! unat (c AND 0x0f)]"
    by (simp add: pct_enc_def)
  have len: "length (ys @ [0x25]) + 2 < length out" using assms(2) by (simp add: e)
  have "c \<noteq> 0x20" "\<not> isalnum c" "c \<noteq> 0x5f" "c \<noteq> 0x2d" "c \<noteq> 0x2e" "c \<noteq> 0x7e"
    using False by (simp_all add: unreserved_def)
  then have "urlrawencode_loop (pre @ c # rest) (length pre) (written out ys) =
      int2h c (length (ys @ [0x25])) (fst (written out (ys @ [0x25]))) \<bind>
      (\<lambda>buf. urlrawencode_loop (pre @ c # rest) (length pre + 1) (buf, length (ys @ [0x25]) + 2))"
    using assms unfolding urlrawencode_loop.simps [of "pre @ c # rest" "length pre" "written out ys"]
    by (simp add: nth_here e) (simp add: written_def)
  then show ?thesis unfolding int2h_written [OF len]
    by (intro exI [of _ "out[length (ys @ [0x25]) + 2 := 0]"]) (simp add: e written_def)
qed

lemma urlrawencode_loop_eq:
  assumes "0 \<notin> set xs" "length ys + length (url_text lower_hex xs) < length out"
  shows "\<exists>out'. length out' = length out \<and>
    urlrawencode_loop (pre @ xs @ 0 # rest) (length pre) (written out ys) = Some (written out' (ys @ url_text lower_hex xs))"
  using assms
proof (induction xs arbitrary: pre ys out)
  case Nil
  then show ?case by (subst urlrawencode_loop.simps) (auto simp: nth_here)
next
  case (Cons c xs)
  then obtain out1 where out1: "length out1 = length out"
    "urlrawencode_loop (pre @ c # xs @ 0 # rest) (length pre) (written out ys) =
     urlrawencode_loop (pre @ c # xs @ 0 # rest) (length pre + 1) (written out1 (ys @ pct_enc lower_hex c))"
    using urlrawencode_step [of c ys out pre "xs @ 0 # rest"] by fastforce
  have "\<exists>out'. length out' = length out1 \<and> urlrawencode_loop ((pre @ [c]) @ xs @ 0 # rest) (length (pre @ [c]))
      (written out1 (ys @ pct_enc lower_hex c)) = Some (written out' ((ys @ pct_enc lower_hex c) @ url_text lower_hex xs))"
    by (rule Cons.IH) (use Cons.prems out1(1) in simp_all)
  then show ?case using out1 by simp
qed

lemma url_text_no_nul: "0 \<notin> set xs \<Longrightarrow> 0 \<notin> set (url_text lower_hex xs)"
proof (induction xs)
  case (Cons c xs)
  then show ?case
    using digit_facts(5) [OF nibble_less(1), of c] digit_facts(5) [OF nibble_less(2), of c] by (auto simp: pct_enc_def)
qed simp

lemma strlen_text: "0 \<notin> set xs \<Longrightarrow> strlen (xs @ 0 # rest) = Some (length xs)"
proof -
  assume "0 \<notin> set xs"
  then have "takeWhile (\<lambda>c. c \<noteq> 0) (xs @ 0 # rest) = xs" by (induction xs) auto
  then show ?thesis by (simp add: strlen_def)
qed

lemma url_text_bounds: "length xs \<le> length (url_text hex xs)" "length (url_text hex xs) \<le> 3 * length xs"
  by (induction xs) (auto simp: pct_enc_def)

lemma alloc_size:
  "3 * n + 1 < 4294967296 \<Longrightarrow> unat (of_nat n * 3 + 1 :: size_t) = n * 3 + 1"
  "n + 1 < 4294967296 \<Longrightarrow> unat (of_nat n + 1 :: size_t) = n + 1"
  by (simp_all add: unat_word_ariths unat_size_t)

lemma urlrawdecode_cut:
  assumes "0 \<notin> set xs" "0x25 \<notin> set xs"
  shows "urlrawdecode_loop (ys @ xs @ [0x25, 0]) (length ys) (length ys) = None"
  using assms
proof (induction xs arbitrary: ys)
  case Nil
  then show ?case by (subst urlrawdecode_loop.simps) (simp add: nth_append array_get_def)
next
  case (Cons c xs)
  have "urlrawdecode_loop (ys @ (c # xs) @ [0x25, 0]) (length ys) (length ys) =
      urlrawdecode_loop ((ys @ [if c = 0x2b then 0x20 else c]) @ xs @ [0x25, 0]) (length (ys @ [c])) (length (ys @ [c]))"
    using Cons.prems urlrawdecode_plain [of "length ys" "ys @ (c # xs) @ [0x25, 0]" "length ys"]
    by (auto simp: nth_append list_update_append)
  then show ?case using Cons.IH [of "ys @ [if c = 0x2b then 0x20 else c]"] Cons.prems by simp
qed

section \<open>Properties\<close>

text \<open>
  C10: The URL codec on byte buffers. A destination with room for one byte more than the length
  functions announce is enough, a smaller one is overrun; the announced length is the length of
  the result, and decoding what was encoded gives the data, whatever bytes it has.
\<close>

theorem urlcode_roundtrip:
  assumes "urlencode_len xs < length dest" "length xs < length dest'"
  shows "\<exists>e d. urlencode xs dest = Some (e, urlencode_len xs) \<and> take (urlencode_len xs) e = url_text hex_chars xs \<and>
    urldecode_len (take (urlencode_len xs) e) = length xs \<and>
    urldecode (take (urlencode_len xs) e) dest' = Some (d, length xs) \<and> take (length xs) d = xs \<and>
    (length short \<le> urlencode_len xs \<longrightarrow> urlencode xs short = None)"
proof -
  let ?t = "url_text hex_chars xs"
  have len: "urldecode_len ?t = length xs" using length_url_plain [of ?t] by (simp add: url_plain_text)
  show ?thesis
    by (intro exI [of _ "?t @ 0 # drop (Suc (urlencode_len xs)) dest"] exI [of _ "xs @ 0 # drop (Suc (length xs)) dest'"])
      (use assms len in \<open>simp add: urlencode_eq urldecode_eq length_url_text url_plain_text\<close>)
qed

theorem urlcode_roundtrip_witness:
  "\<exists>e d. urlencode [104, 37, 32, 43, 255, 0] (replicate 20 9) = Some (e, urlencode_len [104, 37, 32, 43, 255, 0]) \<and>
    urldecode (take (urlencode_len [104, 37, 32, 43, 255, 0]) e) (replicate 7 9) = Some (d, length [104, 37, 32, 43, 255, 0 :: u8]) \<and>
    take (length [104, 37, 32, 43, 255, 0 :: u8]) d = [104, 37, 32, 43, 255, 0]"
proof -
  have "urlencode_len [104, 37, 32, 43, 255, 0] < length (replicate 20 9 :: u8 list)"
    by (simp add: unreserved_def isalnum_def isdigit_def)
  moreover have "length [104, 37, 32, 43, 255, 0 :: u8] < length (replicate 7 9 :: u8 list)" by simp
  ultimately show ?thesis
    using urlcode_roundtrip [of "[104, 37, 32, 43, 255, 0]" "replicate 20 9" "replicate 7 9" "[]"] by blast
qed

text \<open>
  C11: The URL codecs on strings. \<^verbatim>\<open>url_encode\<close>, with memory it allocates, and \<^verbatim>\<open>urlrawencode\<close>, with
  the buffer of its caller, write the same text; \<^verbatim>\<open>url_decode\<close> and \<^verbatim>\<open>urlrawdecode\<close>, in place, give
  the string again.
\<close>

theorem url_strings_roundtrip:
  assumes "0 \<notin> set xs" "length xs < 2 ^ 30" "\<forall>n. \<exists>m. malloc n = Some m \<and> length m = unat n"
    "length (url_text lower_hex xs) < length buf"
  shows "\<exists>e d e' d'. url_encode malloc (xs @ [0]) = Some e \<and> urlrawencode (xs @ [0]) buf = Some e' \<and>
    take (Suc (length (url_text lower_hex xs))) e = url_text lower_hex xs @ [0] \<and>
    take (Suc (length (url_text lower_hex xs))) e' = url_text lower_hex xs @ [0] \<and>
    url_decode malloc e = Some d \<and> urlrawdecode e' = Some d' \<and>
    take (Suc (length xs)) d = xs @ [0] \<and> take (Suc (length xs)) d' = xs @ [0]"
proof -
  let ?t = "url_text lower_hex xs" and ?n = "length (url_text lower_hex xs)"
  have small: "3 * length xs + 1 < 4294967296" "?n \<le> 3 * length xs" "length xs \<le> ?n"
    using assms(2) url_text_bounds by simp_all
  obtain m where "malloc (of_nat (length xs) * 3 + 1) = Some m \<and> length m = unat (of_nat (length xs) * 3 + 1 :: size_t)"
    using assms(3) by blast
  then have m: "malloc (of_nat (length xs) * 3 + 1) = Some m" "length m = length xs * 3 + 1"
    using alloc_size(1) [OF small(1)] by simp_all
  have e: "url_encode malloc (xs @ [0]) = Some (?t @ 0 # drop (Suc ?n) m)"
    using url_encode_loop_eq [of xs "[]" m "[]" "[]"] assms(1) m small(2) written_nul [of ?t m]
    by (simp add: url_encode_def strlen_text [of xs "[]"] written_Nil)
  obtain m' where "malloc (of_nat ?n + 1) = Some m' \<and> length m' = unat (of_nat ?n + 1 :: size_t)"
    using assms(3) by blast
  then have m': "malloc (of_nat ?n + 1) = Some m'" "length m' = ?n + 1"
    using alloc_size(2) [of ?n] small by simp_all
  have d: "url_decode malloc (?t @ 0 # drop (Suc ?n) m) = Some (xs @ 0 # drop (Suc (length xs)) m')"
    using url_decode_loop_eq [of xs "[]" m' "[]" "drop (Suc ?n) m"] assms(1) m' small(3) written_nul [of xs m']
    by (simp add: url_decode_def strlen_text url_text_no_nul written_Nil)
  obtain b where b: "length b = length buf" "urlrawencode_loop (xs @ [0]) 0 (buf, 0) = Some (written b ?t)"
    using urlrawencode_loop_eq [of xs "[]" buf "[]" "[]"] assms(1,4) by (auto simp: written_Nil)
  then have e': "urlrawencode (xs @ [0]) buf = Some (?t @ 0 # drop (Suc ?n) b)"
    using assms(4) written_nul [of ?t b] by (simp add: urlrawencode_def)
  obtain r where r: "urlrawdecode (?t @ 0 # drop (Suc ?n) b) = Some r" "take (Suc (length xs)) r = xs @ [0]"
    using urlrawdecode_loop_eq [of xs "[]" "[]" "drop (Suc ?n) b"] assms(1) by (auto simp: urlrawdecode_def)
  show ?thesis
    by (intro exI [of _ "?t @ 0 # drop (Suc ?n) m"] exI [of _ "xs @ 0 # drop (Suc (length xs)) m'"]
        exI [of _ "?t @ 0 # drop (Suc ?n) b"] exI [of _ r]) (simp add: e d e' r)
qed

theorem url_strings_roundtrip_witness:
  "\<exists>e d e' d'. url_encode (\<lambda>n. Some (replicate (unat n) 9)) ([97, 32, 38] @ [0]) = Some e \<and>
    urlrawencode ([97, 32, 38] @ [0]) (replicate 9 1) = Some e' \<and>
    url_decode (\<lambda>n. Some (replicate (unat n) 9)) e = Some d \<and> urlrawdecode e' = Some d' \<and>
    take (Suc (length [97, 32, 38 :: u8])) d = [97, 32, 38] @ [0] \<and> take (Suc (length [97, 32, 38 :: u8])) d' = [97, 32, 38] @ [0]"
proof -
  have "length (url_text lower_hex [97, 32, 38]) < length (replicate 9 1 :: u8 list)"
    unfolding length_url_text by (simp add: unreserved_def isalnum_def isdigit_def)
  moreover have "0 \<notin> set [97, 32, 38 :: u8]" "length [97, 32, 38 :: u8] < 2 ^ 30"
    "\<forall>n :: size_t. \<exists>m. Some (replicate (unat n) (9 :: u8)) = Some m \<and> length m = unat n" by simp_all
  ultimately show ?thesis
    using url_strings_roundtrip [of "[97, 32, 38]" "\<lambda>n. Some (replicate (unat n) 9)" "replicate 9 1"] by blast
qed

text \<open>
  C40: A string that ends in the middle of an escape. \<^verbatim>\<open>urlrawdecode\<close> takes the two characters
  behind a \<^verbatim>\<open>%\<close> without a look at the terminator: with a \<^verbatim>\<open>%\<close> at the end of the string it reads
  behind the array.
\<close>

theorem urlrawdecode_overread:
  assumes "0 \<notin> set xs" "0x25 \<notin> set xs"
  shows "urlrawdecode (xs @ [0x25, 0]) = None"
  using urlrawdecode_cut [OF assms, of "[]"] by (simp add: urlrawdecode_def)

theorem urlrawdecode_overread_witness: "urlrawdecode ([49, 48, 48] @ [0x25, 0]) = None"
  by (rule urlrawdecode_overread) simp_all

end
