(* ===== verification/CodecMd5.thy ===== *)
theory CodecMd5
  imports ByteOrder CodecBuffer
begin

text \<open>
  The MD5 hash of \<^verbatim>\<open>netutils/codecs/md5.c\<close>. The context is the record \<open>md5_context_s\<close>; \<^verbatim>\<open>byte_reverse\<close>
  is empty, as on little endian hosts. A buffer is the list of its bytes, and a copy outside
  the array \<^verbatim>\<open>in\<close> is \<open>None\<close>. A context on the stack starts with arbitrary content, which is an
  argument of \<open>md5_sum\<close> and \<open>md5_file\<close>.

  The unrolled \<^verbatim>\<open>md5_transform\<close> is compared with the loop of RFC 1321, and the interface with
  pieces of data is a refinement of the hash of the whole message: the context stands for the
  bytes seen so far.
\<close>

section \<open>The code\<close>

type_synonym md5_buf = "u32 \<times> u32 \<times> u32 \<times> u32"

record md5_context_s =
  md_buf :: md5_buf
  md_bits0 :: u32
  md_bits1 :: u32
  md_in :: "u8 list"

definition F1 :: "u32 \<Rightarrow> u32 \<Rightarrow> u32 \<Rightarrow> u32" where
  "F1 x y z = z XOR (x AND (y XOR z))"

definition F2 :: "u32 \<Rightarrow> u32 \<Rightarrow> u32 \<Rightarrow> u32" where
  "F2 x y z = F1 z x y"

definition F3 :: "u32 \<Rightarrow> u32 \<Rightarrow> u32 \<Rightarrow> u32" where
  "F3 x y z = x XOR y XOR z"

definition F4 :: "u32 \<Rightarrow> u32 \<Rightarrow> u32 \<Rightarrow> u32" where
  "F4 x y z = y XOR (x OR NOT z)"

definition MD5STEP :: "(u32 \<Rightarrow> u32 \<Rightarrow> u32 \<Rightarrow> u32) \<Rightarrow> u32 \<Rightarrow> u32 \<Rightarrow> u32 \<Rightarrow> u32 \<Rightarrow> u32 \<Rightarrow> nat \<Rightarrow> u32" where
  "MD5STEP f w x y z data s =
     (let w = w + (f x y z + data);
          w = push_bit s w OR drop_bit (32 - s) w
      in w + x)"

definition md5_init :: "md5_context_s \<Rightarrow> md5_context_s" where
  "md5_init ctx = ctx\<lparr>md_buf := (0x67452301, 0xefcdab89, 0x98badcfe, 0x10325476), md_bits0 := 0, md_bits1 := 0\<rparr>"

definition md5_transform :: "md5_buf \<Rightarrow> u32 list \<Rightarrow> md5_buf" where
  "md5_transform buf inp = (case buf of (buf0, buf1, buf2, buf3) \<Rightarrow>
    (let a = buf0; b = buf1; c = buf2; d = buf3;
        a = MD5STEP F1 a b c d (inp ! 0 + 0xd76aa478) 7;
        d = MD5STEP F1 d a b c (inp ! 1 + 0xe8c7b756) 12;
        c = MD5STEP F1 c d a b (inp ! 2 + 0x242070db) 17;
        b = MD5STEP F1 b c d a (inp ! 3 + 0xc1bdceee) 22;
        a = MD5STEP F1 a b c d (inp ! 4 + 0xf57c0faf) 7;
        d = MD5STEP F1 d a b c (inp ! 5 + 0x4787c62a) 12;
        c = MD5STEP F1 c d a b (inp ! 6 + 0xa8304613) 17;
        b = MD5STEP F1 b c d a (inp ! 7 + 0xfd469501) 22;
        a = MD5STEP F1 a b c d (inp ! 8 + 0x698098d8) 7;
        d = MD5STEP F1 d a b c (inp ! 9 + 0x8b44f7af) 12;
        c = MD5STEP F1 c d a b (inp ! 10 + 0xffff5bb1) 17;
        b = MD5STEP F1 b c d a (inp ! 11 + 0x895cd7be) 22;
        a = MD5STEP F1 a b c d (inp ! 12 + 0x6b901122) 7;
        d = MD5STEP F1 d a b c (inp ! 13 + 0xfd987193) 12;
        c = MD5STEP F1 c d a b (inp ! 14 + 0xa679438e) 17;
        b = MD5STEP F1 b c d a (inp ! 15 + 0x49b40821) 22;
        a = MD5STEP F2 a b c d (inp ! 1 + 0xf61e2562) 5;
        d = MD5STEP F2 d a b c (inp ! 6 + 0xc040b340) 9;
        c = MD5STEP F2 c d a b (inp ! 11 + 0x265e5a51) 14;
        b = MD5STEP F2 b c d a (inp ! 0 + 0xe9b6c7aa) 20;
        a = MD5STEP F2 a b c d (inp ! 5 + 0xd62f105d) 5;
        d = MD5STEP F2 d a b c (inp ! 10 + 0x02441453) 9;
        c = MD5STEP F2 c d a b (inp ! 15 + 0xd8a1e681) 14;
        b = MD5STEP F2 b c d a (inp ! 4 + 0xe7d3fbc8) 20;
        a = MD5STEP F2 a b c d (inp ! 9 + 0x21e1cde6) 5;
        d = MD5STEP F2 d a b c (inp ! 14 + 0xc33707d6) 9;
        c = MD5STEP F2 c d a b (inp ! 3 + 0xf4d50d87) 14;
        b = MD5STEP F2 b c d a (inp ! 8 + 0x455a14ed) 20;
        a = MD5STEP F2 a b c d (inp ! 13 + 0xa9e3e905) 5;
        d = MD5STEP F2 d a b c (inp ! 2 + 0xfcefa3f8) 9;
        c = MD5STEP F2 c d a b (inp ! 7 + 0x676f02d9) 14;
        b = MD5STEP F2 b c d a (inp ! 12 + 0x8d2a4c8a) 20;
        a = MD5STEP F3 a b c d (inp ! 5 + 0xfffa3942) 4;
        d = MD5STEP F3 d a b c (inp ! 8 + 0x8771f681) 11;
        c = MD5STEP F3 c d a b (inp ! 11 + 0x6d9d6122) 16;
        b = MD5STEP F3 b c d a (inp ! 14 + 0xfde5380c) 23;
        a = MD5STEP F3 a b c d (inp ! 1 + 0xa4beea44) 4;
        d = MD5STEP F3 d a b c (inp ! 4 + 0x4bdecfa9) 11;
        c = MD5STEP F3 c d a b (inp ! 7 + 0xf6bb4b60) 16;
        b = MD5STEP F3 b c d a (inp ! 10 + 0xbebfbc70) 23;
        a = MD5STEP F3 a b c d (inp ! 13 + 0x289b7ec6) 4;
        d = MD5STEP F3 d a b c (inp ! 0 + 0xeaa127fa) 11;
        c = MD5STEP F3 c d a b (inp ! 3 + 0xd4ef3085) 16;
        b = MD5STEP F3 b c d a (inp ! 6 + 0x04881d05) 23;
        a = MD5STEP F3 a b c d (inp ! 9 + 0xd9d4d039) 4;
        d = MD5STEP F3 d a b c (inp ! 12 + 0xe6db99e5) 11;
        c = MD5STEP F3 c d a b (inp ! 15 + 0x1fa27cf8) 16;
        b = MD5STEP F3 b c d a (inp ! 2 + 0xc4ac5665) 23;
        a = MD5STEP F4 a b c d (inp ! 0 + 0xf4292244) 6;
        d = MD5STEP F4 d a b c (inp ! 7 + 0x432aff97) 10;
        c = MD5STEP F4 c d a b (inp ! 14 + 0xab9423a7) 15;
        b = MD5STEP F4 b c d a (inp ! 5 + 0xfc93a039) 21;
        a = MD5STEP F4 a b c d (inp ! 12 + 0x655b59c3) 6;
        d = MD5STEP F4 d a b c (inp ! 3 + 0x8f0ccc92) 10;
        c = MD5STEP F4 c d a b (inp ! 10 + 0xffeff47d) 15;
        b = MD5STEP F4 b c d a (inp ! 1 + 0x85845dd1) 21;
        a = MD5STEP F4 a b c d (inp ! 8 + 0x6fa87e4f) 6;
        d = MD5STEP F4 d a b c (inp ! 15 + 0xfe2ce6e0) 10;
        c = MD5STEP F4 c d a b (inp ! 6 + 0xa3014314) 15;
        b = MD5STEP F4 b c d a (inp ! 13 + 0x4e0811a1) 21;
        a = MD5STEP F4 a b c d (inp ! 4 + 0xf7537e82) 6;
        d = MD5STEP F4 d a b c (inp ! 11 + 0xbd3af235) 10;
        c = MD5STEP F4 c d a b (inp ! 2 + 0x2ad7d2bb) 15;
        b = MD5STEP F4 b c d a (inp ! 9 + 0xeb86d391) 21
     in (buf0 + a, buf1 + b, buf2 + c, buf3 + d)))"

text \<open>The array \<^verbatim>\<open>in\<close> as \<^verbatim>\<open>uint32_t *\<close>, and the transformation of the block it holds.\<close>

definition md5_words :: "u8 list \<Rightarrow> u32 list" where
  "md5_words bs = map (\<lambda>k. of_mem32 (take 4 (drop (4 * k) bs))) [0..<16]"

definition md5_block :: "md5_context_s \<Rightarrow> md5_context_s" where
  "md5_block ctx = ctx\<lparr>md_buf := md5_transform (md_buf ctx) (md5_words (md_in ctx))\<rparr>"

function md5_update_loop :: "md5_context_s \<Rightarrow> u8 list \<Rightarrow> md5_context_s option" where
  "md5_update_loop ctx buf =
     (if 64 \<le> length buf
      then case array_blit (md_in ctx) 0 (take 64 buf) of
          None \<Rightarrow> None
        | Some inp \<Rightarrow> md5_update_loop (md5_block (ctx\<lparr>md_in := inp\<rparr>)) (drop 64 buf)
      else do { inp \<leftarrow> array_blit (md_in ctx) 0 buf; Some (ctx\<lparr>md_in := inp\<rparr>) })"
  by pat_completeness auto

termination
  by (relation "measure (\<lambda>(ctx, buf). length buf)") auto

text \<open>\<open>buf\<close> is the list of \<^verbatim>\<open>len\<close> bytes; \<^verbatim>\<open>len\<close> is an \<^verbatim>\<open>unsigned\<close> of 32 bits.\<close>

definition md5_update :: "md5_context_s \<Rightarrow> u8 list \<Rightarrow> md5_context_s option" where
  "md5_update ctx buf =
     (let len = (of_nat (length buf) :: u32);
          t = md_bits0 ctx;
          ctx = ctx\<lparr>md_bits0 := t + push_bit 3 len\<rparr>;
          ctx = (if md_bits0 ctx < t then ctx\<lparr>md_bits1 := md_bits1 ctx + 1\<rparr> else ctx);
          ctx = ctx\<lparr>md_bits1 := md_bits1 ctx + drop_bit 29 len\<rparr>;
          t = unat (drop_bit 3 t AND 0x3f)
      in if t \<noteq> 0
         then if length buf < 64 - t
           then do { inp \<leftarrow> array_blit (md_in ctx) t buf; Some (ctx\<lparr>md_in := inp\<rparr>) }
           else do {
             inp \<leftarrow> array_blit (md_in ctx) t (take (64 - t) buf);
             md5_update_loop (md5_block (ctx\<lparr>md_in := inp\<rparr>)) (drop (64 - t) buf)
           }
         else md5_update_loop ctx buf)"

definition md5_digest :: "md5_buf \<Rightarrow> u8 list" where
  "md5_digest buf = (case buf of (a, b, c, d) \<Rightarrow> mem32 a @ mem32 b @ mem32 c @ mem32 d)"

text \<open>The padding up to the count of bits; a first block that has no room for the count is transformed.\<close>

definition md5_pad :: "md5_context_s \<Rightarrow> md5_context_s option" where
  "md5_pad ctx = do {
     let count = unat (drop_bit 3 (md_bits0 ctx) AND 0x3f);
     inp \<leftarrow> array_put (md_in ctx) count 0x80;
     let p = count + 1;
     let count = 64 - 1 - count;
     if count < 8
     then do {
       inp \<leftarrow> array_blit inp p (replicate count 0);
       let ctx = md5_block (ctx\<lparr>md_in := inp\<rparr>);
       inp \<leftarrow> array_blit (md_in ctx) 0 (replicate 56 0);
       Some (ctx\<lparr>md_in := inp\<rparr>)
     }
     else do {
       inp \<leftarrow> array_blit inp p (replicate (count - 8) 0);
       Some (ctx\<lparr>md_in := inp\<rparr>)
     }
   }"

text \<open>The digest, and the context, which is erased.\<close>

definition md5_final :: "md5_context_s \<Rightarrow> (u8 list \<times> md5_context_s) option" where
  "md5_final ctx = do {
     ctx \<leftarrow> md5_pad ctx;
     inp \<leftarrow> array_blit (md_in ctx) 56 (mem32 (md_bits0 ctx));
     inp \<leftarrow> array_blit inp 60 (mem32 (md_bits1 ctx));
     let ctx = md5_block (ctx\<lparr>md_in := inp\<rparr>);
     Some (md5_digest (md_buf ctx), \<lparr>md_buf = (0, 0, 0, 0), md_bits0 = 0, md_bits1 = 0, md_in = replicate 64 0\<rparr>)
   }"

definition md5_sum :: "md5_context_s \<Rightarrow> u8 list \<Rightarrow> u8 list option" where
  "md5_sum ctx addr = do {
     ctx \<leftarrow> md5_update (md5_init ctx) addr;
     (mac, ctx) \<leftarrow> md5_final ctx;
     Some mac
   }"

text \<open>The digits \<^verbatim>\<open>snprintf\<close> writes for \<^verbatim>\<open>%02x\<close>, and its terminator. The result of \<^verbatim>\<open>malloc\<close> is not checked.\<close>

definition printf_digit :: "u8 \<Rightarrow> u8" where
  "printf_digit n = c_string ''0123456789abcdef'' ! unat n"

definition md5_hash :: "(size_t \<Rightarrow> u8 list option) \<Rightarrow> md5_context_s \<Rightarrow> u8 list \<Rightarrow> u8 list option" where
  "md5_hash malloc ctx addr = do {
     hash \<leftarrow> malloc 33;
     digest \<leftarrow> md5_sum ctx addr;
     hash \<leftarrow> fold (\<lambda>i hash. do {
         hash \<leftarrow> hash;
         array_blit hash (i * 2) [printf_digit (drop_bit 4 (digest ! i)), printf_digit (digest ! i AND 0x0f), 0]
       }) [0..<16] (Some hash);
     array_put hash 32 0
   }"

text \<open>
  The file: \<^verbatim>\<open>open\<close> succeeds or fails with an \<^verbatim>\<open>errno\<close>, the n-th \<^verbatim>\<open>read\<close> returns bytes, none at
  the end of the file, or fails with an \<^verbatim>\<open>errno\<close>. The result is the return value and what is
  written to \<^verbatim>\<open>mac\<close>.
\<close>

record md5_os =
  mo_open :: "nat option"
  mo_malloc :: bool
  mo_read :: "nat \<Rightarrow> u8 list + nat"

partial_function (option) md5_file_loop :: "md5_os \<Rightarrow> nat \<Rightarrow> md5_context_s \<Rightarrow> (int \<times> md5_context_s) option" where
  "md5_file_loop os k ctx =
     (case mo_read os k of
        Inr errno \<Rightarrow> Some (- int errno, ctx)
      | Inl buf \<Rightarrow>
          if buf = [] then Some (0, ctx)
          else do { ctx \<leftarrow> md5_update ctx buf; md5_file_loop os (k + 1) ctx })"

definition md5_file :: "md5_os \<Rightarrow> md5_context_s \<Rightarrow> (int \<times> u8 list option) option" where
  "md5_file os ctx =
     (case mo_open os of
        Some errno \<Rightarrow> Some (- int errno, None)
      | None \<Rightarrow>
          if \<not> mo_malloc os then Some (- 12, None)
          else do {
            (ret, ctx) \<leftarrow> md5_file_loop os 0 (md5_init ctx);
            (mac, ctx) \<leftarrow> md5_final ctx;
            Some (ret, Some mac)
          })"

section \<open>The hash of RFC 1321\<close>

text \<open>The functions, the table, the order of the words and the rotations of the 64 steps.\<close>

definition rfc_fun :: "nat \<Rightarrow> u32 \<Rightarrow> u32 \<Rightarrow> u32 \<Rightarrow> u32" where
  "rfc_fun i x y z =
     (if i < 16 then (x AND y) OR (NOT x AND z)
      else if i < 32 then (x AND z) OR (y AND NOT z)
      else if i < 48 then x XOR y XOR z
      else y XOR (x OR NOT z))"

definition rfc_table :: "u32 list" where
  "rfc_table =
  [0xd76aa478, 0xe8c7b756, 0x242070db, 0xc1bdceee, 0xf57c0faf, 0x4787c62a, 0xa8304613, 0xfd469501,
   0x698098d8, 0x8b44f7af, 0xffff5bb1, 0x895cd7be, 0x6b901122, 0xfd987193, 0xa679438e, 0x49b40821,
   0xf61e2562, 0xc040b340, 0x265e5a51, 0xe9b6c7aa, 0xd62f105d, 0x02441453, 0xd8a1e681, 0xe7d3fbc8,
   0x21e1cde6, 0xc33707d6, 0xf4d50d87, 0x455a14ed, 0xa9e3e905, 0xfcefa3f8, 0x676f02d9, 0x8d2a4c8a,
   0xfffa3942, 0x8771f681, 0x6d9d6122, 0xfde5380c, 0xa4beea44, 0x4bdecfa9, 0xf6bb4b60, 0xbebfbc70,
   0x289b7ec6, 0xeaa127fa, 0xd4ef3085, 0x04881d05, 0xd9d4d039, 0xe6db99e5, 0x1fa27cf8, 0xc4ac5665,
   0xf4292244, 0x432aff97, 0xab9423a7, 0xfc93a039, 0x655b59c3, 0x8f0ccc92, 0xffeff47d, 0x85845dd1,
   0x6fa87e4f, 0xfe2ce6e0, 0xa3014314, 0x4e0811a1, 0xf7537e82, 0xbd3af235, 0x2ad7d2bb, 0xeb86d391]"

definition rfc_word :: "nat \<Rightarrow> nat" where
  "rfc_word i =
     (if i < 16 then i else if i < 32 then (5 * i + 1) mod 16 else if i < 48 then (3 * i + 5) mod 16 else 7 * i mod 16)"

definition rfc_shift :: "nat \<Rightarrow> nat" where
  "rfc_shift i =
     (if i < 16 then [7, 12, 17, 22] else if i < 32 then [5, 9, 14, 20]
      else if i < 48 then [4, 11, 16, 23] else [6, 10, 15, 21]) ! (i mod 4)"

definition rotate_left :: "nat \<Rightarrow> u32 \<Rightarrow> u32" where
  "rotate_left s w = push_bit s w OR drop_bit (32 - s) w"

definition rfc_step :: "u32 list \<Rightarrow> nat \<Rightarrow> md5_buf \<Rightarrow> md5_buf" where
  "rfc_step X i s = (case s of (a, b, c, d) \<Rightarrow>
     (d, b + rotate_left (rfc_shift i) (a + rfc_fun i b c d + X ! rfc_word i + rfc_table ! i), b, c))"

definition rfc_compress :: "md5_buf \<Rightarrow> u32 list \<Rightarrow> md5_buf" where
  "rfc_compress s X = (case (s, fold (rfc_step X) [0..<64] s) of
     ((a0, b0, c0, d0), (a, b, c, d)) \<Rightarrow> (a0 + a, b0 + b, c0 + c, d0 + d))"

lemma F_rfc: "F1 x y z = rfc_fun 0 x y z" "F2 x y z = rfc_fun 16 x y z"
  by (rule bit_word_eqI; auto simp: F1_def F2_def rfc_fun_def bit_simps)+

lemma rfc_fun_cases:
  "i < 16 \<Longrightarrow> rfc_fun i = F1" "16 \<le> i \<Longrightarrow> i < 32 \<Longrightarrow> rfc_fun i = F2"
  "32 \<le> i \<Longrightarrow> i < 48 \<Longrightarrow> rfc_fun i = F3" "48 \<le> i \<Longrightarrow> rfc_fun i = F4"
  by (auto simp: fun_eq_iff F_rfc F3_def F4_def) (auto simp: rfc_fun_def)

text \<open>One line of the unrolled transformation is one step, with the registers renamed.\<close>

lemma step_line:
  assumes "f = rfc_fun i" "w = X ! rfc_word i" "t = rfc_table ! i" "n = rfc_shift i"
    "\<And>v. body v = k (fold (rfc_step X) is (d, v, b, c))"
  shows "Let (MD5STEP f a b c d (w + t) n) body = k (fold (rfc_step X) (i # is) (a, b, c, d))"
  using assms by (simp add: MD5STEP_def rfc_step_def rotate_left_def Let_def add.assoc) (simp add: add.commute)

lemma upt_64: "[0..<64] = [0, 1, 2, 3, 4, 5, 6, 7, 8, 9, 10, 11, 12, 13, 14, 15, 16, 17, 18, 19, 20, 21, 22, 23, 24,
  25, 26, 27, 28, 29, 30, 31, 32, 33, 34, 35, 36, 37, 38, 39, 40, 41, 42, 43, 44, 45, 46, 47, 48, 49, 50, 51, 52, 53,
  54, 55, 56, 57, 58, 59, 60, 61, 62, 63]"
  by code_simp

lemma md5_transform_rfc: "md5_transform s X = rfc_compress s X"
proof -
  obtain a0 b0 c0 d0 where s: "s = (a0, b0, c0, d0)" by (cases s)
  let ?k = "\<lambda>(a, b, c, d). (a0 + a, b0 + b, c0 + c, d0 + d) :: md5_buf"
  have "md5_transform s X = ?k (fold (rfc_step X) [0..<64] (a0, b0, c0, d0))"
    unfolding md5_transform_def s upt_64 prod.case Let_def [of a0] Let_def [of b0] Let_def [of c0] Let_def [of d0]
    by (intro step_line; simp add: rfc_fun_cases rfc_word_def rfc_shift_def rfc_table_def)
  then show ?thesis by (simp add: rfc_compress_def s split: prod.split)
qed

text \<open>Whole blocks of a message are compressed in order; the rest of fewer than 64 bytes is left.\<close>

function md5_chunks :: "u8 list \<Rightarrow> md5_buf \<Rightarrow> md5_buf" where
  "md5_chunks xs s =
     (if 64 \<le> length xs then md5_chunks (drop 64 xs) (rfc_compress s (md5_words (take 64 xs))) else s)"
  by pat_completeness auto

termination
  by (relation "measure (\<lambda>(xs, s). length xs)") auto

declare md5_chunks.simps [simp del]

definition md5_rest :: "u8 list \<Rightarrow> u8 list" where
  "md5_rest m = drop (length m div 64 * 64) m"

definition rfc1321_start :: md5_buf where
  "rfc1321_start = (0x67452301, 0xefcdab89, 0x98badcfe, 0x10325476)"

definition rfc1321_pad :: "u8 list \<Rightarrow> u8 list" where
  "rfc1321_pad m = m @ [0x80] @ replicate ((119 - length m mod 64) mod 64) 0 @
     mem32 (of_nat (8 * length m)) @ mem32 (of_nat (8 * length m div 2 ^ 32))"

definition rfc1321 :: "u8 list \<Rightarrow> u8 list" where
  "rfc1321 m = md5_digest (md5_chunks (rfc1321_pad m) rfc1321_start)"

lemma md5_chunks_short: "length xs < 64 \<Longrightarrow> md5_chunks xs s = s"
  by (subst md5_chunks.simps) simp

lemma md5_chunks_block:
  "length xs = 64 \<Longrightarrow> md5_chunks (xs @ ys) s = md5_chunks ys (rfc_compress s (md5_words xs))"
  by (subst md5_chunks.simps) simp

lemma length_md5_rest [simp]: "length (md5_rest m) = length m mod 64"
  by (simp add: md5_rest_def minus_div_mult_eq_mod)

lemma md5_rest_short: "length m < 64 \<Longrightarrow> md5_rest m = m"
  by (simp add: md5_rest_def)

lemma md5_rest_block:
  assumes "length xs = 64"
  shows "md5_rest (xs @ ys) = md5_rest ys"
proof -
  have "length (xs @ ys) div 64 * 64 = 64 + length ys div 64 * 64" by (simp add: assms div_add_self1)
  then show ?thesis by (simp add: md5_rest_def assms)
qed

lemma split_block: "64 \<le> length m \<Longrightarrow> \<exists>xs ys. m = xs @ ys \<and> length xs = 64"
  by (metis append_take_drop_id length_take min.absorb2)

lemma md5_append:
  "md5_rest (m @ ys) = md5_rest (md5_rest m @ ys) \<and> md5_chunks (m @ ys) s = md5_chunks (md5_rest m @ ys) (md5_chunks m s)"
proof (induction "length m" arbitrary: m s rule: less_induct)
  case less
  show ?case
  proof (cases "64 \<le> length m")
    case True
    then obtain xs zs where m: "m = xs @ zs" "length xs = 64" using split_block by blast
    then show ?thesis using less [of zs "rfc_compress s (md5_words xs)"] by (simp add: md5_rest_block md5_chunks_block)
  qed (simp add: md5_rest_short md5_chunks_short)
qed

lemmas md5_rest_append = md5_append [THEN conjunct1]
lemmas md5_chunks_append = md5_append [THEN conjunct2]

section \<open>The context stands for the bytes seen\<close>

definition md5_seen :: "u8 list \<Rightarrow> md5_context_s \<Rightarrow> bool" where
  "md5_seen m ctx \<longleftrightarrow> md_buf ctx = md5_chunks m rfc1321_start \<and>
     md_bits0 ctx = of_nat (8 * length m) \<and> md_bits1 ctx = of_nat (8 * length m div 2 ^ 32) \<and>
     length (md_in ctx) = 64 \<and> take (length m mod 64) (md_in ctx) = md5_rest m"

lemma md5_seen_init: "length (md_in ctx) = 64 \<Longrightarrow> md5_seen [] (md5_init ctx)"
  by (simp add: md5_seen_def md5_init_def rfc1321_start_def md5_chunks_short md5_rest_def)

declare md5_update_loop.simps [simp del]

lemma md5_update_loop_eq:
  assumes "length (md_in ctx) = 64"
  shows "\<exists>inp. md5_update_loop ctx buf = Some (ctx\<lparr>md_buf := md5_chunks buf (md_buf ctx), md_in := inp\<rparr>) \<and>
    length inp = 64 \<and> take (length buf mod 64) inp = md5_rest buf"
  using assms
proof (induction "length buf" arbitrary: ctx buf rule: less_induct)
  case less
  show ?case
  proof (cases "64 \<le> length buf")
    case True
    then obtain xs zs where buf: "buf = xs @ zs" "length xs = 64" using split_block by blast
    have "md5_update_loop ctx buf = md5_update_loop (md5_block (ctx\<lparr>md_in := xs\<rparr>)) zs"
      using less.prems buf by (subst md5_update_loop.simps) (simp add: array_blit_def)
    moreover have "\<exists>inp. md5_update_loop (md5_block (ctx\<lparr>md_in := xs\<rparr>)) zs =
        Some (md5_block (ctx\<lparr>md_in := xs\<rparr>)\<lparr>md_buf := md5_chunks zs (md_buf (md5_block (ctx\<lparr>md_in := xs\<rparr>))), md_in := inp\<rparr>) \<and>
        length inp = 64 \<and> take (length zs mod 64) inp = md5_rest zs"
      by (rule less.hyps) (use buf in \<open>simp_all add: md5_block_def\<close>)
    ultimately show ?thesis
      using buf by (auto simp: md5_block_def md5_transform_rfc md5_chunks_block md5_rest_block)
  next
    case False
    then show ?thesis
      using less.prems by (subst md5_update_loop.simps)
        (auto simp: array_blit_def md5_chunks_short md5_rest_short intro!: exI [of _ "buf @ drop (length buf) (md_in ctx)"])
  qed
qed

text \<open>The 64-bit count of bits in two words, with the carry.\<close>

lemma bits_used: "unat (drop_bit 3 (of_nat (8 * n) :: u32) AND 0x3f) = n mod 64"
proof -
  have "unat (drop_bit 3 (of_nat (8 * n) :: u32)) = 8 * n mod 4294967296 div 8"
    unfolding drop_bit_eq_div unat_div unat_of_nat by simp
  also have "\<dots> = n mod 536870912" using mod_mult_mult1 [of 8 n 536870912] by simp
  finally have u: "unat (drop_bit 3 (of_nat (8 * n) :: u32)) = n mod 536870912" .
  have "(w :: u32) AND 0x3f = take_bit 6 w" for w by (simp add: take_bit_eq_mask mask_eq_exp_minus_1)
  then have "unat (drop_bit 3 (of_nat (8 * n) :: u32) AND 0x3f) = n mod 536870912 mod 64"
    by (simp only: unsigned_take_bit_eq u) (simp add: take_bit_eq_mod)
  then show ?thesis by (simp add: mod_mod_cancel)
qed

lemma div_add_carry:
  fixes a b m :: nat
  assumes "0 < m"
  shows "(a + b) div m = a div m + b div m + (if (a + b) mod m < a mod m then 1 else 0)"
proof (cases "a mod m + b mod m < m")
  case True
  then show ?thesis using div_add1_eq [of a b m] mod_add_eq [of a m b] by simp
next
  case False
  have "a mod m < m" "b mod m < m" using assms by simp_all
  then have "a mod m + b mod m - m < m" using False by linarith
  then have "(a mod m + b mod m) div m = 1" "(a mod m + b mod m) mod m = a mod m + b mod m - m"
    using False assms by (simp_all add: le_div_geq le_mod_geq)
  then show ?thesis using div_add1_eq [of a b m] mod_add_eq [of a m b] \<open>b mod m < m\<close> False by simp
qed

lemma bits_added:
  assumes "k < 2 ^ 32"
  shows "(of_nat (8 * n) :: u32) + push_bit 3 (of_nat k) = of_nat (8 * (n + k))"
    "(of_nat (8 * (n + k) div 2 ^ 32) :: u32) = of_nat (8 * n div 2 ^ 32) +
      (if (of_nat (8 * (n + k)) :: u32) < of_nat (8 * n) then 1 else 0) + drop_bit 29 (of_nat k)"
proof -
  show "(of_nat (8 * n) :: u32) + push_bit 3 (of_nat k) = of_nat (8 * (n + k))"
    by (simp add: push_bit_eq_mult)
  have "drop_bit 29 (of_nat k :: u32) = of_nat (k div 536870912)"
    by (rule word_unat_eq_iff [THEN iffD2]) (use assms in \<open>simp add: drop_bit_eq_div unat_div unat_of_nat\<close>)
  moreover have "8 * k div 4294967296 = k div 536870912"
    using div_mult_mult1 [of 8 k 536870912] by simp
  moreover have "(of_nat (8 * (n + k)) :: u32) < of_nat (8 * n) \<longleftrightarrow> (8 * n + 8 * k) mod 4294967296 < 8 * n mod 4294967296"
    unfolding word_less_nat_alt unat_of_nat distrib_left by simp
  moreover have "8 * (n + k) div 4294967296 = 8 * n div 4294967296 + 8 * k div 4294967296 +
      (if (8 * n + 8 * k) mod 4294967296 < 8 * n mod 4294967296 then 1 else 0)"
    using div_add_carry [of 4294967296 "8 * n" "8 * k"] by (simp add: algebra_simps)
  ultimately show "(of_nat (8 * (n + k) div 2 ^ 32) :: u32) = of_nat (8 * n div 2 ^ 32) +
      (if (of_nat (8 * (n + k)) :: u32) < of_nat (8 * n) then 1 else 0) + drop_bit 29 (of_nat k)"
    by simp
qed

text \<open>The count of bits after an update.\<close>

definition md5_counted :: "md5_context_s \<Rightarrow> u8 list \<Rightarrow> md5_context_s" where
  "md5_counted ctx m = ctx\<lparr>md_bits0 := of_nat (8 * length m), md_bits1 := of_nat (8 * length m div 2 ^ 32)\<rparr>"

lemma md5_update_count:
  assumes "md5_seen m ctx" "length buf < 2 ^ 32"
  shows "md5_update ctx buf =
    (let t = length m mod 64; ctx = md5_counted ctx (m @ buf) in
     if t \<noteq> 0
     then if length buf < 64 - t
       then do { inp \<leftarrow> array_blit (md_in ctx) t buf; Some (ctx\<lparr>md_in := inp\<rparr>) }
       else do {
         inp \<leftarrow> array_blit (md_in ctx) t (take (64 - t) buf);
         md5_update_loop (md5_block (ctx\<lparr>md_in := inp\<rparr>)) (drop (64 - t) buf)
       }
     else md5_update_loop ctx buf)"
proof -
  have b: "md_bits0 ctx = of_nat (8 * length m)" "md_bits1 ctx = of_nat (8 * length m div 2 ^ 32)"
    using assms(1) by (simp_all add: md5_seen_def)
  let ?c0 = "ctx\<lparr>md_bits0 := md_bits0 ctx + push_bit 3 (of_nat (length buf))\<rparr>"
  let ?c1 = "if md_bits0 ?c0 < md_bits0 ctx then ?c0\<lparr>md_bits1 := md_bits1 ?c0 + 1\<rparr> else ?c0"
  have "?c1\<lparr>md_bits1 := md_bits1 ?c1 + drop_bit 29 (of_nat (length buf))\<rparr> = md5_counted ctx (m @ buf)"
    unfolding md5_counted_def length_append bits_added(2) [OF assms(2)] b
    by (simp only: bits_added(1) [OF assms(2)] simp_thms) (simp add: b del: of_nat_mult of_nat_add)
  moreover have "unat (drop_bit 3 (md_bits0 ctx) AND 0x3f) = length m mod 64"
    unfolding b by (rule bits_used)
  ultimately show ?thesis unfolding md5_update_def Let_def by simp
qed

lemma md5_counted_simps [simp]:
  "md_in (md5_counted ctx m) = md_in ctx" "md_buf (md5_counted ctx m) = md_buf ctx"
  "md_bits0 (md5_counted ctx m) = of_nat (8 * length m)" "md_bits1 (md5_counted ctx m) = of_nat (8 * length m div 2 ^ 32)"
  by (simp_all add: md5_counted_def del: of_nat_mult)

lemma md5_seen_counted:
  assumes "md5_seen m ctx" "md_buf c = md5_chunks (md5_rest m @ buf) (md_buf ctx)" "length (md_in c) = 64"
    "take (length (m @ buf) mod 64) (md_in c) = md5_rest (md5_rest m @ buf)"
    "md_bits0 c = of_nat (8 * length (m @ buf))" "md_bits1 c = of_nat (8 * length (m @ buf) div 2 ^ 32)"
  shows "md5_seen (m @ buf) c"
  using assms unfolding md5_seen_def by (simp add: md5_rest_append [of m buf] md5_chunks_append [of m buf] del: length_append of_nat_mult)

text \<open>Updates are the concatenation of the data: after whole blocks, inside a block, across its end.\<close>

lemma md5_seen_in:
  assumes "md5_seen m ctx"
  shows "length (md_in ctx) = 64" "take (length m mod 64) (md_in ctx) = md5_rest m"
  using assms by (simp_all add: md5_seen_def)

lemma md5_update_empty:
  assumes seen: "md5_seen m ctx" and len: "length buf < 2 ^ 32" and empty: "length m mod 64 = 0"
  shows "\<exists>c. md5_update ctx buf = Some c \<and> md5_seen (m @ buf) c"
proof -
  let ?c = "md5_counted ctx (m @ buf)"
  obtain i where i: "md5_update_loop ?c buf = Some (?c\<lparr>md_buf := md5_chunks buf (md_buf ctx), md_in := i\<rparr>)"
    "length i = 64" "take (length buf mod 64) i = md5_rest buf"
    using md5_update_loop_eq [of ?c buf] md5_seen_in(1) [OF seen] by auto
  have rest: "md5_rest m = []" using empty by (metis length_md5_rest length_0_conv)
  have "length (m @ buf) mod 64 = length buf mod 64" using empty by (metis length_append mod_add_left_eq add_0)
  then have "md5_seen (m @ buf) (?c\<lparr>md_buf := md5_chunks buf (md_buf ctx), md_in := i\<rparr>)"
    by (intro md5_seen_counted [OF seen]) (use i rest in \<open>simp_all del: length_append of_nat_mult\<close>)
  then show ?thesis using i(1) empty unfolding md5_update_count [OF seen len] by (simp add: Let_def)
qed

lemma md5_update_short:
  assumes seen: "md5_seen m ctx" and len: "length buf < 2 ^ 32"
    and short: "length m mod 64 \<noteq> 0" "length buf < 64 - length m mod 64"
  shows "\<exists>c. md5_update ctx buf = Some c \<and> md5_seen (m @ buf) c"
proof -
  let ?t = "length m mod 64"
  let ?i = "md5_rest m @ buf @ drop (?t + length buf) (md_in ctx)"
  have l: "length (md5_rest m @ buf) < 64" "length ?i = 64" using short md5_seen_in [OF seen] by simp_all
  have "length (m @ buf) mod 64 = ?t + length buf"
    using short by (metis length_append mod_add_left_eq less_diff_conv add.commute mod_less)
  then have "md5_seen (m @ buf) (md5_counted ctx (m @ buf)\<lparr>md_in := ?i\<rparr>)"
    by (intro md5_seen_counted [OF seen])
      (use l in \<open>simp_all add: md5_chunks_short md5_rest_short del: length_append of_nat_mult\<close>)
  then show ?thesis
    using short md5_seen_in [OF seen] unfolding md5_update_count [OF seen len] by (simp add: Let_def array_blit_def)
qed

lemma md5_update_full:
  assumes seen: "md5_seen m ctx" and len: "length buf < 2 ^ 32"
    and full: "length m mod 64 \<noteq> 0" "64 - length m mod 64 \<le> length buf"
  shows "\<exists>c. md5_update ctx buf = Some c \<and> md5_seen (m @ buf) c"
proof -
  let ?t = "length m mod 64"
  let ?b = "md5_rest m @ take (64 - ?t) buf" and ?r = "drop (64 - ?t) buf"
  let ?c' = "md5_block (md5_counted ctx (m @ buf)\<lparr>md_in := ?b\<rparr>)"
  have "?t < 64" by simp
  then have b: "length ?b = 64" using full by simp
  obtain i where i: "md5_update_loop ?c' ?r = Some (?c'\<lparr>md_buf := md5_chunks ?r (md_buf ?c'), md_in := i\<rparr>)"
    "length i = 64" "take (length ?r mod 64) i = md5_rest ?r"
    using md5_update_loop_eq [of ?c' ?r] b by (auto simp: md5_block_def)
  have br: "md5_rest m @ buf = ?b @ ?r" by simp
  have "length (m @ buf) mod 64 = length ?r mod 64"
    using md5_rest_block [OF b, of ?r] md5_rest_append [of m buf] by (metis br length_md5_rest)
  then have "md5_seen (m @ buf) (?c'\<lparr>md_buf := md5_chunks ?r (md_buf ?c'), md_in := i\<rparr>)"
    unfolding md5_block_def
    by (intro md5_seen_counted [OF seen])
      (use i b in \<open>simp_all only: br md5_rest_block [OF b] md5_chunks_block [OF b] md5_transform_rfc, simp_all del: length_append of_nat_mult\<close>)
  then show ?thesis
    using full md5_seen_in [OF seen] i(1) unfolding md5_update_count [OF seen len] by (simp add: Let_def array_blit_def)
qed

lemma md5_update_seen:
  assumes "md5_seen m ctx" "length buf < 2 ^ 32"
  shows "\<exists>c. md5_update ctx buf = Some c \<and> md5_seen (m @ buf) c"
  using md5_update_empty [OF assms] md5_update_short [OF assms] md5_update_full [OF assms] by (meson not_le)

section \<open>The digest\<close>

lemma blit_count:
  assumes "length pre = 56" "length inp = 64" "take 56 inp = pre" "length a = 4" "length b = 4"
  shows "array_blit inp 56 a = Some (pre @ a @ drop 60 inp)" "array_blit (pre @ a @ drop 60 inp) 60 b = Some (pre @ a @ b)"
  using assms by (simp_all add: array_blit_def)

text \<open>The padding, with the count \<open>n\<close> behind it, is what the context still has to process.\<close>

lemma md5_pad_seen:
  assumes seen: "md5_seen m ctx"
  obtains c where "md5_pad ctx = Some c" "length (md_in c) = 64" "md_bits0 c = md_bits0 ctx" "md_bits1 c = md_bits1 ctx"
    "\<And>n. md5_chunks (take 56 (md_in c) @ n) (md_buf c) =
         md5_chunks (md5_rest m @ [0x80] @ replicate ((119 - length m mod 64) mod 64) 0 @ n) (md_buf ctx)"
proof -
  let ?t = "length m mod 64" and ?r = "md5_rest m"
  let ?i = "(md_in ctx)[?t := 0x80]"
  have t: "?t < 64" "unat (drop_bit 3 (md_bits0 ctx) AND 0x3f) = ?t"
    using seen bits_used [of "length m"] by (simp_all add: md5_seen_def del: of_nat_mult)
  have inp: "array_put (md_in ctx) ?t 0x80 = Some ?i" "length ?i = 64" "take (?t + 1) ?i = ?r @ [0x80]"
    using t md5_seen_in [OF seen] by (simp_all add: array_put_def take_Suc_update)
  show ?thesis
  proof (cases "?t < 56")
    case True
    let ?p = "?r @ [0x80] @ replicate (55 - ?t) 0"
    have p: "array_blit ?i (?t + 1) (replicate (63 - ?t - 8) 0) = Some (?p @ drop 56 ?i)" "length ?p = 56"
      using True inp by (simp_all add: array_blit_def)
    have "\<not> 64 - 1 - ?t < 8" using True by simp
    then have "md5_pad ctx = Some (ctx\<lparr>md_in := ?p @ drop 56 ?i\<rparr>)"
      using p(1) inp(1) unfolding md5_pad_def t by (simp add: Let_def del: append_assoc)
    moreover have "(119 - ?t) mod 64 = 55 - ?t" using True by (simp add: le_mod_geq)
    moreover have "take 56 (?p @ drop 56 ?i) = ?p" using p(2) by (simp only: take_append) simp
    ultimately show ?thesis using that [of "ctx\<lparr>md_in := ?p @ drop 56 ?i\<rparr>"] p(2) inp(2) by simp
  next
    case False
    let ?b = "?r @ [0x80] @ replicate (63 - ?t) 0" and ?z = "replicate 56 0 :: u8 list"
    let ?c = "md5_block (ctx\<lparr>md_in := ?b\<rparr>)"
    have b: "length ?b = 64" using t(1) by simp
    have blits: "array_blit ?i (?t + 1) (replicate (63 - ?t) 0) = Some ?b" "array_blit (md_in ?c) 0 ?z = Some (?z @ drop 56 ?b)"
      using t(1) inp b by (simp_all add: array_blit_def md5_block_def)
    have "64 - 1 - ?t < 8" using False t(1) by linarith
    then have pad: "md5_pad ctx = Some (?c\<lparr>md_in := ?z @ drop 56 ?b\<rparr>)"
      using inp(1) blits unfolding md5_pad_def t by (simp add: Let_def del: append_assoc)
    have "(119 - ?t) mod 64 = (63 - ?t) + 56" using False t(1) by simp
    then have "?r @ [0x80] @ replicate ((119 - ?t) mod 64) 0 @ n = ?b @ (?z @ n)" for n by (simp only: replicate_add append_assoc)
    then have "md5_chunks (?r @ [0x80] @ replicate ((119 - ?t) mod 64) 0 @ n) (md_buf ctx) = md5_chunks (?z @ n) (md_buf ?c)" for n
      by (simp only: md5_chunks_block [OF b]) (simp add: md5_block_def md5_transform_rfc)
    then show ?thesis using that [OF pad] b by (simp add: md5_block_def)
  qed
qed

lemma md5_final_seen:
  assumes seen: "md5_seen m ctx"
  shows "\<exists>c. md5_final ctx = Some (rfc1321 m, c)"
proof -
  let ?a = "mem32 (md_bits0 ctx)" and ?b = "mem32 (md_bits1 ctx)"
  obtain c where c: "md5_pad ctx = Some c" "length (md_in c) = 64" "md_bits0 c = md_bits0 ctx" "md_bits1 c = md_bits1 ctx"
    "\<And>n. md5_chunks (take 56 (md_in c) @ n) (md_buf c) =
         md5_chunks (md5_rest m @ [0x80] @ replicate ((119 - length m mod 64) mod 64) 0 @ n) (md_buf ctx)"
    by (rule md5_pad_seen [OF seen]) (rule that)
  let ?last = "take 56 (md_in c) @ ?a @ ?b"
  have "rfc1321 m = md5_digest (md5_chunks ?last (md_buf c))"
    using seen unfolding c(5) by (simp add: rfc1321_def rfc1321_pad_def md5_chunks_append [of m] md5_seen_def del: of_nat_mult)
  also have "md5_chunks ?last (md_buf c) = md_buf (md5_block (c\<lparr>md_in := ?last\<rparr>))"
    using md5_chunks_block [of ?last "[]"] c(2) by (simp add: md5_block_def md5_transform_rfc md5_chunks_short)
  finally show ?thesis
    using blit_count [of "take 56 (md_in c)" "md_in c" ?a ?b] c(1-4) by (simp add: md5_final_def Let_def)
qed

text \<open>The hexadecimal form.\<close>

definition hex_text :: "u8 list \<Rightarrow> u8 list" where
  "hex_text bs = concat (map (\<lambda>b. [printf_digit (drop_bit 4 b), printf_digit (b AND 0x0f)]) bs)"

lemma length_hex_text [simp]: "length (hex_text bs) = 2 * length bs"
  by (induction bs) (simp_all add: hex_text_def)

lemma length_rfc1321 [simp]: "length (rfc1321 m) = 16"
  by (simp add: rfc1321_def md5_digest_def split: prod.split)

lemma hex_loop:
  assumes "n \<le> length digest" "2 * length digest < length hash"
  shows "\<exists>r. fold (\<lambda>i hash. do {
       hash \<leftarrow> hash;
       array_blit hash (i * 2) [printf_digit (drop_bit 4 (digest ! i)), printf_digit (digest ! i AND 0x0f), 0]
     }) [0..<n] (Some hash) = Some r \<and> length r = length hash \<and> take (2 * n) r = hex_text (take n digest)"
  using assms(1)
proof (induction n)
  case (Suc n)
  then obtain r where r: "fold (\<lambda>i hash. do {
       hash \<leftarrow> hash;
       array_blit hash (i * 2) [printf_digit (drop_bit 4 (digest ! i)), printf_digit (digest ! i AND 0x0f), 0]
     }) [0..<n] (Some hash) = Some r" "length r = length hash" "take (2 * n) r = hex_text (take n digest)" by auto
  have "hex_text (take (Suc n) digest) = hex_text (take n digest) @ [printf_digit (drop_bit 4 (digest ! n)), printf_digit (digest ! n AND 0x0f)]"
    using Suc.prems by (simp add: hex_text_def take_Suc_conv_app_nth)
  moreover have "length (hex_text (take n digest)) = 2 * n" using Suc.prems by simp
  ultimately show ?case
    using Suc.prems assms(2) r by (simp add: array_blit_def mult.commute [of n])
qed (simp add: hex_text_def)

lemma md5_sum_hash:
  assumes "length (md_in ctx) = 64" "length xs < 2 ^ 32"
  shows "md5_sum ctx xs = Some (rfc1321 xs)"
  using md5_update_seen [OF md5_seen_init [OF assms(1)] assms(2)] md5_final_seen [of xs] by (force simp: md5_sum_def)

lemma md5_hash_text:
  assumes "length (md_in ctx) = 64" "length xs < 2 ^ 32" "malloc 33 = Some hash" "length hash = 33"
  shows "md5_hash malloc ctx xs = Some (hex_text (rfc1321 xs) @ [0])"
proof -
  obtain r where r: "fold (\<lambda>i hash. do {
       hash \<leftarrow> hash;
       array_blit hash (i * 2) [printf_digit (drop_bit 4 (rfc1321 xs ! i)), printf_digit (rfc1321 xs ! i AND 0x0f), 0]
     }) [0..<16] (Some hash) = Some r" "length r = 33" "take 32 r = hex_text (rfc1321 xs)"
    using hex_loop [of 16 "rfc1321 xs" hash] assms(4) by auto
  have "r[32 := 0] = take 32 r @ [0]" using r(2) by (simp add: upd_conv_take_nth_drop)
  then show ?thesis using r assms(3) by (simp add: md5_hash_def md5_sum_hash [OF assms(1,2)] array_put_def)
qed

section \<open>Properties\<close>

text \<open>
  C8: The unrolled transformation. The 64 lines of \<^verbatim>\<open>md5_transform\<close>, with their constants, their
  renamed registers and the optimised functions F1 and F2, are the 64 steps of RFC 1321.
\<close>

theorem md5_transform_unrolled: "md5_transform s X = rfc_compress s X"
  by (rule md5_transform_rfc)

text \<open>
  C7: The hash of a file. Whatever pieces the reads return, \<^verbatim>\<open>md5_file\<close> returns 0 and the MD5
  hash of RFC 1321 of the content, for content of any length, and \<^verbatim>\<open>md5_sum\<close> returns the same
  hash for the content in one piece.
\<close>

theorem md5_file_hash:
  assumes "mo_open os = None" "mo_malloc os" "length (md_in ctx) = 64"
    "\<forall>k < length bufs. mo_read os k = Inl (bufs ! k)" "mo_read os (length bufs) = Inl []"
    "\<forall>buf \<in> set bufs. buf \<noteq> [] \<and> length buf \<le> 1024"
  shows "md5_file os ctx = Some (0, Some (rfc1321 (concat bufs))) \<and>
    (length (concat bufs) < 2 ^ 32 \<longrightarrow> md5_sum ctx (concat bufs) = Some (rfc1321 (concat bufs)))"
proof -
  have "\<exists>c. md5_file_loop os (length bufs - length rest) d = Some (0, c) \<and> md5_seen (m @ concat rest) c"
    if "md5_seen m d" "\<exists>pre. bufs = pre @ rest" for m d rest
    using that
  proof (induction rest arbitrary: m d)
    case Nil
    then show ?case using assms(5) by (subst md5_file_loop.simps) simp
  next
    case (Cons buf rest)
    then obtain pre where pre: "bufs = pre @ buf # rest" by blast
    then have buf: "buf \<noteq> []" "length buf < 2 ^ 32" "mo_read os (length pre) = Inl buf"
      using assms(4,6) by (auto dest!: spec [of _ "length pre"])
    obtain d' where "md5_update d buf = Some d'" "md5_seen (m @ buf) d'"
      using md5_update_seen [OF Cons.prems(1) buf(2)] by blast
    then show ?case
      using Cons.IH [of "m @ buf" d'] pre buf by (subst md5_file_loop.simps) (force simp: Suc_diff_le)
  qed
  from this [OF md5_seen_init [OF assms(3)], of bufs]
  obtain c where "md5_file_loop os 0 (md5_init ctx) = Some (0, c)" "md5_seen (concat bufs) c" by auto
  then have "md5_file os ctx = Some (0, Some (rfc1321 (concat bufs)))"
    using assms(1,2) md5_final_seen [of "concat bufs" c] by (auto simp: md5_file_def)
  then show ?thesis using md5_sum_hash [OF assms(3)] by blast
qed

theorem md5_file_hash_witness:
  "md5_file \<lparr>mo_open = None, mo_malloc = True, mo_read = (\<lambda>k. if k = 0 then Inl [97, 98] else if k = 1 then Inl [99] else Inl [])\<rparr>
     \<lparr>md_buf = (1, 2, 3, 4), md_bits0 = 5, md_bits1 = 6, md_in = replicate 64 7\<rparr> = Some (0, Some (rfc1321 (concat [[97, 98], [99]])))"
proof -
  let ?os = "\<lparr>mo_open = None, mo_malloc = True, mo_read = (\<lambda>k. if k = 0 then Inl [97, 98] else if k = 1 then Inl [99] else Inl [])\<rparr>"
  have "\<forall>k < length [[97, 98], [99]]. mo_read ?os k = Inl ([[97, 98], [99]] ! k)" by (auto simp: less_Suc_eq)
  then show ?thesis
    using md5_file_hash [of ?os "\<lparr>md_buf = (1, 2, 3, 4), md_bits0 = 5, md_bits1 = 6, md_in = replicate 64 7\<rparr>" "[[97, 98], [99]]"] by simp
qed

end
