(* ===== verification/Spec2Isabelle.thy ===== *)
theory Spec2Isabelle
  imports MbSlave NxExample DhcpExchange DhcpDaemon CodecBase64 CodecUrl CodecMd5
begin

text \<open>
  A verification library for the NuttX applications, a collection of programs and libraries
  that run on the NuttX operating system. Four parts of the collection are modelled, each
  by a group of theories that shares only \<open>Prelude\<close> (arrays, bytes and words, the option
  monad) with the others.

  \<^bold>\<open>Conventions.\<close> A function of the source is a function with its name. Fixed-width
  integers are words, so arithmetic wraps around as in C; a structure is a record, the static
  variables of a file are the fields of a record that the functions take and return. A pointer
  into an array is an index. \<open>None\<close> stands for what the source leaves undefined or never
  returns from: an access outside an array, a null pointer, a failed assertion, a loop without
  end. An error that the source reports is a value. The host is little endian; \<^verbatim>\<open>int\<close>,
  \<^verbatim>\<open>size_t\<close> and \<^verbatim>\<open>time_t\<close> have 32 bits. What the source calls but the repository does not contain
  (system calls, \<^verbatim>\<open>malloc\<close>, drivers, \<^verbatim>\<open>crc32part\<close>, the TCP port of Modbus) is an argument or a field of
  the state, with no assumption but those a theorem states.

  \<^bold>\<open>The Modbus slave\<close> (\<^verbatim>\<open>src/modbus\<close>, \<^verbatim>\<open>src/examples/modbus\<close>). The application polls the stack, the stack
  polls the port, the port calls the transmission layer back for every byte and for the timer,
  the layer posts events that the stack turns into calls of the function handlers, and these
  call the application for its registers.
  \<^item> \<open>MbTypes\<close>: the enumerations and constants of the headers.
  \<^item> \<open>MbPort\<close>: serial buffer, event queue, timer (\<^verbatim>\<open>nuttx/port*.c\<close>). The locale \<open>mb_line\<close> is the
    contract between the poll and the callbacks of a transmission layer, \<open>mb_timed_line\<close> adds
    the timer; under them the poll returns and keeps the invariant of the layer.
  \<^item> \<open>MbCrc\<close>: the table-driven CRC equals the bitwise one (\<^verbatim>\<open>rtu/mbcrc.c\<close>).
  \<^item> \<open>MbRtu\<close>, \<open>MbAscii\<close>: the two serial layers (\<^verbatim>\<open>rtu/mbrtu.c\<close>, \<^verbatim>\<open>ascii/mbascii.c\<close>) as instances of the
    contract; a frame sent by one station is received by another, a damaged one is rejected,
    and the frames on which the code fails an assertion.
  \<^item> \<open>MbTcp\<close>: the framing over TCP (\<^verbatim>\<open>tcp/mbtcp.c\<close>).
  \<^item> \<open>MbUtils\<close>, \<open>MbFunctions\<close>: bit fields, error codes and the handlers (\<^verbatim>\<open>functions/*.c\<close>). The locales
    \<open>mb_cb\<close>, \<open>mb_reg_cb\<close>, \<open>mb_bit_cb\<close>, \<open>mb_application\<close> and \<open>mb_reg_store\<close> say what the handlers rely
    on in the callbacks of the application.
  \<^item> \<open>MbStack\<close>: \<^verbatim>\<open>mb.c\<close>; the locale \<open>mb_stack_env\<close> is its environment.
  \<^item> \<open>MbExample\<close>: the callbacks of the example, which satisfy these contracts.
  \<^item> \<open>MbSlave\<close>: the composition. The specification \<open>mb_answer\<close> maps requests to responses, and
    the slave refines it from the bytes of a request on the line to those of the response;
    every session keeps the invariant.

  \<^bold>\<open>The boot loader nxboot\<close> (\<^verbatim>\<open>src/boot/nxboot\<close>). \<open>NxFlash\<close> models \<^verbatim>\<open>loader/flash.c\<close> over devices that may
  fail and lose power before any write or erasure, \<open>NxBoot\<close> models \<^verbatim>\<open>loader/boot.c\<close> and
  \<^verbatim>\<open>nxboot_main.c\<close>. \<open>NxImage\<close> has headers and images as functions of their bytes, \<open>NxUpdate\<close> the
  invariant that one valid image survives every interruption, \<open>NxLife\<close> the life of an image
  (installed, reverted, confirmed), \<open>NxErrors\<close> arbitrary devices: every call returns with the
  partitions closed, and what the checks of the code let through. \<open>NxExample\<close> is an instance.

  \<^bold>\<open>DHCP\<close> (\<^verbatim>\<open>src/netutils/dhcpd\<close>, \<^verbatim>\<open>src/netutils/dhcpc\<close>).
  \<^item> \<open>ByteOrder\<close>, \<open>DhcpTypes\<close>: memory and network order of variables, the message and its options.
  \<^item> \<open>DhcpServer\<close>: the operations of \<^verbatim>\<open>dhcpd.c\<close> up to the body of its loop. \<open>DhcpLease\<close>, \<open>DhcpOptions\<close> and
    \<open>DhcpHandlers\<close> have exact equations for the lease table, the replies and the handlers under
    the invariant; \<open>DhcpSafety\<close> lifts them to sequences of datagrams.
  \<^item> \<open>DhcpClient\<close>: the messages, the parser and \<^verbatim>\<open>dhcpc_request\<close> of \<^verbatim>\<open>dhcpc.c\<close>. The locale \<open>dhcp_service\<close>
    is what the client relies on in the network; under it a request obtains its lease.
  \<^item> \<open>DhcpExchange\<close>: the server on the same link is such a service, so client and server agree;
    leases are exclusive; the messages that both parsers handle and those they do not.
  \<^item> \<open>DhcpDaemon\<close>: \<^verbatim>\<open>dhcpd_start\<close>, \<^verbatim>\<open>dhcpd_stop\<close> and the task as a step relation over all interleavings.

  \<^bold>\<open>Codecs\<close> (\<^verbatim>\<open>src/netutils/codecs\<close>). \<open>CodecBuffer\<close> has the writes through a moving pointer.
  \<open>CodecBase64\<close> compares the encoder with RFC 4648 and shows that the decoder inverts it and is
  safe on every input. \<open>CodecUrl\<close> does the same for percent encoding in its three forms.
  \<open>CodecMd5\<close> shows that the unrolled transformation is the loop of RFC 1321 and that hashing a
  message or a file in pieces gives the hash of the whole.

  \<^bold>\<open>Loops.\<close> There is no fuel. A loop that ends for every input is a function with its
  termination proof. A loop whose end depends on its environment is a partial function with
  values in \<open>option\<close>, and the theorems show that it returns: the loops of the serial poll under
  \<open>mb_line\<close>, the CRC and copy loops of nxboot for block sizes of at least four, the search for
  a free address under the invariant of the server, the two waits of the client under
  \<open>dhcp_service\<close>, the loop of \<^verbatim>\<open>md5_file\<close> for a file that ends.

  \<^bold>\<open>Not modelled.\<close> Of the modelled parts: the command line and the thread of the Modbus example,
  log output and critical sections of the Modbus port (they change no variable of the model),
  the Modbus master (a second stack beside the slave), the image tool of nxboot (a script for
  the host), the handle, the thread and the cancellation of the DHCP client, and the builds
  with \<^verbatim>\<open>CONFIG_NET_DHCP_LIGHT\<close>, \<^verbatim>\<open>CONFIG_NETUTILS_DHCPD_HOST\<close> or on big endian hosts. The rest of
  the collection is some thousand independent programs: the shell and the system commands,
  which are sequences of system calls; drivers and wrappers of hardware and of third-party
  packages; graphics, audio and control in floating point; examples, tests and benchmarks
  of the operating system; and further network programs, among them FTP, TFTP, NTP and HTTP
  clients, which have state worth modelling and are left out for their number.
\<close>

end
